(* ===== verification/Prelude.thy ===== *)
theory Prelude
  imports Main "HOL-Library.Word" "HOL-Library.List_Lexorder" "HOL-Library.Char_ord"
    "HOL-Library.Product_Lexorder"
begin

text \<open>
  Shared vocabulary of the development: the types that stand for Go's strings, byte
  slices and instants; Go's \<open>range\<close> over a map, whose order the language leaves open;
  \<open>sort.Slice\<close>; the "keep the better of two" loop of the chain projections; and the
  lemmas about them that every component uses.
\<close>

section \<open>Types\<close>

text \<open>
  Go strings are byte sequences: \<^typ>\<open>char list\<close> holds exactly the bytes, and the order
  of \<open>HOL-Library.List_Lexorder\<close> over \<open>Char_ord\<close> is Go's bytewise \<open><\<close> on strings.
  An instant (\<open>time.Time\<close>) is the number of nanoseconds since Go's zero instant, so that
  \<open>time.Time{}\<close> is 0, \<open>a.After(b)\<close> is \<open>b < a\<close> and \<open>a.Add(d)\<close> is \<open>a + d\<close>.  A pointer
  \<open>*time.Time\<close> that is only ever replaced, never written through, is a \<open>time option\<close>.
\<close>

type_synonym bytes = "8 word list"
type_synonym time = int
type_synonym duration = int

section \<open>Collections of facts\<close>

named_theorems typed_keep \<open>edits of the store that keep every row and access entry well typed\<close>

section \<open>Ranging over a Go map\<close>

text \<open>
  \<open>for k, v := range m\<close> visits every key exactly once, in an order the language does not
  fix and that may differ from one loop to the next.  Every loop over a map therefore takes
  the order of that run as an argument; \<open>visits\<close> says that it is a possible one.
\<close>

definition visits :: "'k list \<Rightarrow> ('k \<rightharpoonup> 'v) \<Rightarrow> bool" where
  "visits ord m \<longleftrightarrow> distinct ord \<and> set ord = dom m"

definition range_vals :: "'k list \<Rightarrow> ('k \<rightharpoonup> 'v) \<Rightarrow> 'v list" where
  "range_vals ord m = List.map_filter m ord"

lemma range_vals_simps [simp]:
  "range_vals [] m = []"
  "range_vals (k # ks) m = (case m k of None \<Rightarrow> range_vals ks m | Some v \<Rightarrow> v # range_vals ks m)"
  by (simp_all add: range_vals_def List.map_filter_def split: option.split)

lemma set_range_vals: "set (range_vals ord m) = {v. \<exists>k \<in> set ord. m k = Some v}"
  by (induction ord) (auto split: option.splits)

lemma visits_set_range: "visits ord m \<Longrightarrow> set (range_vals ord m) = ran m"
  by (auto simp: set_range_vals visits_def ran_def)

lemma visits_finite: "visits ord m \<Longrightarrow> finite (dom m)"
  unfolding visits_def by (metis List.finite_set)

lemma visits_exists: "finite (dom m) \<Longrightarrow> \<exists>ord. visits ord m"
  by (auto simp: visits_def dest: finite_distinct_list)

lemma map_range_vals_keys:
  assumes "\<And>k v. m k = Some v \<Longrightarrow> f v = k" and "set ord \<subseteq> dom m"
  shows "map f (range_vals ord m) = ord"
  using assms by (induction ord) (auto split: option.splits)

lemma distinct_range_vals:
  assumes "\<And>k v. m k = Some v \<Longrightarrow> f v = k" and "visits ord m"
  shows "distinct (range_vals ord m)"
proof -
  have "map f (range_vals ord m) = ord"
    using assms by (intro map_range_vals_keys) (auto simp: visits_def)
  with assms(2) show ?thesis
    by (metis distinct_map visits_def)
qed

section \<open>sort.Slice\<close>

text \<open>
  \<open>sort.Slice(xs, less)\<close> leaves a permutation of \<open>xs\<close> that is sorted with respect to
  \<open>less\<close>.  Where \<open>less\<close> orders all elements strictly there is exactly one such list, which
  is what the lemmas of \<open>keyed_order\<close> below establish for every comparison the code uses.
\<close>

primrec ins_slice :: "('a \<Rightarrow> 'a \<Rightarrow> bool) \<Rightarrow> 'a \<Rightarrow> 'a list \<Rightarrow> 'a list" where
  "ins_slice lt x [] = [x]"
| "ins_slice lt x (y # ys) = (if lt y x then y # ins_slice lt x ys else x # y # ys)"

primrec sort_slice :: "('a \<Rightarrow> 'a \<Rightarrow> bool) \<Rightarrow> 'a list \<Rightarrow> 'a list" where
  "sort_slice lt [] = []"
| "sort_slice lt (x # xs) = ins_slice lt x (sort_slice lt xs)"

lemma set_ins_slice [simp]: "set (ins_slice lt x ys) = insert x (set ys)"
  by (induction ys) auto

lemma set_sort_slice [simp]: "set (sort_slice lt xs) = set xs"
  by (induction xs) auto

lemma length_ins_slice [simp]: "length (ins_slice lt x ys) = Suc (length ys)"
  by (induction ys) auto

lemma length_sort_slice [simp]: "length (sort_slice lt xs) = length xs"
  by (induction xs) auto

lemma distinct_ins_slice [simp]:
  "distinct (ins_slice lt x ys) \<longleftrightarrow> x \<notin> set ys \<and> distinct ys"
  by (induction ys) auto

lemma distinct_sort_slice [simp]: "distinct (sort_slice lt xs) = distinct xs"
  by (induction xs) auto

section \<open>Lists\<close>

lemma list_all2_left: "list_all2 P xs ys \<Longrightarrow> x \<in> set xs \<Longrightarrow> \<exists>y \<in> set ys. P x y"
  by (induction xs ys rule: list_all2_induct) auto

section \<open>The best element of a sequence\<close>

text \<open>
  The loop \<open>if cur == nil || better(x, cur) { cur = x }\<close> over a sequence.
\<close>

primrec pick_best :: "('a \<Rightarrow> 'a \<Rightarrow> bool) \<Rightarrow> 'a option \<Rightarrow> 'a list \<Rightarrow> 'a option" where
  "pick_best gt cur [] = cur"
| "pick_best gt cur (x # xs) =
     pick_best gt (case cur of None \<Rightarrow> Some x | Some c \<Rightarrow> if gt x c then Some x else Some c) xs"

lemma pick_best_None_iff [simp]: "pick_best gt cur xs = None \<longleftrightarrow> cur = None \<and> xs = []"
  by (induction xs arbitrary: cur) (auto split: option.splits)

section \<open>Keyset pagination\<close>

text \<open>
  A client that asks for page after page, each time from the key of the last element it was
  given, until a page is empty.
\<close>

primrec walk :: "nat \<Rightarrow> ('a \<Rightarrow> 'k) \<Rightarrow> ('k \<Rightarrow> 'a list) \<Rightarrow> 'k \<Rightarrow> 'a list" where
  "walk 0 key f after = []"
| "walk (Suc fuel) key f after =
     (let p = f after in if p = [] then [] else p @ walk fuel key f (key (last p)))"

section \<open>Comparisons that read a key\<close>

text \<open>
  The code's comparison functions all order their elements by a key, greatest first.  The
  locale is what the sorting and head-choosing loops need of them: the result then depends
  only on the set of elements, not on the order a map happened to be visited in.
\<close>

locale keyed_order =
  fixes outranks :: "'a \<Rightarrow> 'a \<Rightarrow> bool"
    and key :: "'a \<Rightarrow> 'k::linorder"
  assumes outranks_key: "outranks x y \<longleftrightarrow> key y < key x"
begin

lemma sorted_ins_slice:
  "sorted_wrt (\<lambda>x y. key y \<le> key x) ys \<Longrightarrow> sorted_wrt (\<lambda>x y. key y \<le> key x) (ins_slice outranks x ys)"
  by (induction ys) (auto simp: outranks_key)

lemma sorted_sort_slice: "sorted_wrt (\<lambda>x y. key y \<le> key x) (sort_slice outranks xs)"
  by (induction xs) (auto intro: sorted_ins_slice)

lemma strict_sorted:
  "sorted_wrt (\<lambda>x y. key y \<le> key x) xs \<Longrightarrow> distinct xs \<Longrightarrow> inj_on key (set xs) \<Longrightarrow>
     sorted_wrt (\<lambda>x y. key y < key x) xs"
proof (induction xs)
  case Nil
  then show ?case by simp
next
  case (Cons x xs)
  have "key y < key x" if "y \<in> set xs" for y
  proof -
    from Cons.prems that have "key y \<le> key x" and "y \<noteq> x" by auto
    moreover from \<open>y \<noteq> x\<close> have "key y \<noteq> key x"
      using Cons.prems(3) that inj_on_eq_iff [of key "set (x # xs)" y x] by simp
    ultimately show ?thesis by simp
  qed
  with Cons show ?case by simp
qed

lemma strict_sort_slice:
  "distinct xs \<Longrightarrow> inj_on key (set xs) \<Longrightarrow> sorted_wrt (\<lambda>x y. key y < key x) (sort_slice outranks xs)"
  by (rule strict_sorted [OF sorted_sort_slice]) simp_all

lemma strict_sorted_unique:
  assumes "sorted_wrt (\<lambda>x y. key y < key x) xs" and "sorted_wrt (\<lambda>x y. key y < key x) ys"
    and "set xs = set ys"
  shows "xs = ys"
  using assms
proof (induction xs arbitrary: ys)
  case Nil
  then show ?case by simp
next
  case (Cons x xs)
  then obtain y ys' where ys: "ys = y # ys'" by (cases ys) auto
  have "x = y"
  proof (rule ccontr)
    assume "x \<noteq> y"
    with Cons.prems(3) ys have "x \<in> set ys'" and "y \<in> set xs" by auto
    with Cons.prems(1,2) ys have "key x < key y" and "key y < key x" by auto
    then show False by simp
  qed
  moreover have "x \<notin> set xs" and "y \<notin> set ys'" using Cons.prems ys by auto
  ultimately have "set xs = set ys'" using Cons.prems(3) ys by auto
  with Cons.IH [of ys'] Cons.prems ys have "xs = ys'" by simp
  with \<open>x = y\<close> ys show ?case by simp
qed

lemma sort_slice_set:
  assumes "distinct xs" and "distinct ys" and "set xs = set ys" and "inj_on key (set xs)"
  shows "sort_slice outranks xs = sort_slice outranks ys"
  using assms by (intro strict_sorted_unique) (auto intro: strict_sort_slice)

text \<open>
  Keyset pagination: below the key of the last element of a prefix lies exactly the rest.
\<close>

lemma filter_below_last:
  assumes "sorted_wrt (\<lambda>x y. key y < key x) xs" and "0 < n" and "n \<le> length xs"
  shows "filter (\<lambda>x. key x < key (last (take n xs))) xs = drop n xs"
proof -
  let ?l = "last (take n xs)"
  have ne: "take n xs \<noteq> []" using assms(2,3) by (cases xs) auto
  have s: "sorted_wrt (\<lambda>x y. key y < key x) (take n xs @ drop n xs)" using assms(1) by simp
  have "\<not> key x < key ?l" if "x \<in> set (take n xs)" for x
  proof -
    have "take n xs = butlast (take n xs) @ [?l]" using ne by simp
    with assms(1) have "sorted_wrt (\<lambda>x y. key y < key x) (butlast (take n xs) @ [?l])"
      by (metis sorted_wrt_take)
    moreover have "x \<in> set (butlast (take n xs)) \<or> x = ?l"
      using that \<open>take n xs = _\<close> by (metis in_set_conv_decomp rotate1.simps(2) set_ConsD set_rotate1)
    ultimately show ?thesis by (auto simp: sorted_wrt_append)
  qed
  moreover have "key x < key ?l" if "x \<in> set (drop n xs)" for x
    using s that last_in_set [OF ne] unfolding sorted_wrt_append by blast
  ultimately have "filter (\<lambda>x. key x < key ?l) (take n xs @ drop n xs) = drop n xs"
    by (simp add: filter_empty_conv filter_id_conv del: append_take_drop_id)
  then show ?thesis by simp
qed

lemma walk_from:
  assumes xs: "sorted_wrt (\<lambda>x y. key y < key x) xs" and start: "\<forall>x \<in> set xs. key x \<noteq> start"
    and n: "0 < n"
    and f: "\<And>a. f a = take n (if a = start then xs else filter (\<lambda>x. key x < a) xs)"
    and i: "0 < i" "i \<le> length xs" and fuel: "length xs - i < fuel"
  shows "walk fuel key f (key (last (take i xs))) = drop i xs"
  using i fuel
proof (induction fuel arbitrary: i)
  case 0
  then show ?case by simp
next
  case (Suc fuel)
  let ?a = "key (last (take i xs))"
  have "last (take i xs) \<in> set xs"
    using Suc.prems(1,2) by (metis in_set_takeD last_in_set less_numeral_extra(3) list.size(3) take_eq_Nil le_zero_eq)
  then have "?a \<noteq> start" using start by blast
  with Suc.prems f have fa: "f ?a = take n (drop i xs)"
    by (simp add: filter_below_last [OF xs])
  show ?case
  proof (cases "i = length xs")
    case True
    with fa show ?thesis by simp
  next
    case False
    with Suc.prems n have ne: "take n (drop i xs) \<noteq> []" by simp
    show ?thesis
    proof (cases "i + n \<le> length xs")
      case True
      have "last (take n (drop i xs)) = last (take (i + n) xs)"
        using ne by (simp add: take_add)
      moreover have "drop (i + n) xs = drop n (drop i xs)" by (simp add: add.commute)
      moreover have "walk fuel key f (key (last (take (i + n) xs))) = drop (i + n) xs"
        using Suc.IH [of "i + n"] True Suc.prems n by simp
      ultimately show ?thesis using fa ne by (simp add: Let_def del: drop_drop)
    next
      case long: False
      have "last (take n (drop i xs)) = last (take (length xs) xs)"
        using long False Suc.prems by simp
      moreover have "0 < fuel" and "xs \<noteq> []" using False Suc.prems by auto
      ultimately show ?thesis using Suc.IH [of "length xs"] long False Suc.prems n fa ne
        by (simp add: Let_def)
    qed
  qed
qed

lemma walk_complete:
  assumes "sorted_wrt (\<lambda>x y. key y < key x) xs" and "\<forall>x \<in> set xs. key x \<noteq> start"
    and "0 < n" and "\<And>a. f a = take n (if a = start then xs else filter (\<lambda>x. key x < a) xs)"
    and "length xs < fuel"
  shows "walk fuel key f start = xs"
proof (cases xs)
  case Nil
  with assms(4) [of start] assms(5) show ?thesis by (cases fuel) simp_all
next
  case (Cons x xs')
  from assms(5) obtain k where k: "fuel = Suc k" by (cases fuel) auto
  have fs: "f start = take n xs" using assms(4) by simp
  with Cons assms(3) have ne: "f start \<noteq> []" by simp
  let ?i = "min n (length xs)"
  have "walk k key f (key (last (take ?i xs))) = drop ?i xs"
    using Cons assms k by (intro walk_from [OF assms(1,2,3)]) auto
  moreover have "take ?i xs = take n xs" and "drop ?i xs = drop n xs"
    by (simp_all add: min_def)
  ultimately show ?thesis using ne fs k by (simp add: Let_def)
qed

lemma pick_best_cur:
  "pick_best outranks (Some c) xs = Some b \<Longrightarrow>
     b \<in> insert c (set xs) \<and> (\<forall>x \<in> insert c (set xs). key x \<le> key b)"
proof (induction xs arbitrary: c)
  case Nil
  then show ?case by simp
next
  case (Cons x xs)
  show ?case
  proof (cases "outranks x c")
    case True
    with Cons.IH [of x] Cons.prems show ?thesis by (force simp: outranks_key)
  next
    case False
    with Cons.IH [of c] Cons.prems show ?thesis by (force simp: outranks_key)
  qed
qed

lemma pick_best_max:
  "pick_best outranks None xs = Some b \<Longrightarrow> b \<in> set xs \<and> (\<forall>x \<in> set xs. key x \<le> key b)"
  by (cases xs) (auto dest: pick_best_cur)

lemma pick_best_iff:
  assumes "inj_on key (set xs)"
  shows "pick_best outranks None xs = Some b \<longleftrightarrow> b \<in> set xs \<and> (\<forall>x \<in> set xs. key x \<le> key b)"
proof
  assume "pick_best outranks None xs = Some b"
  then show "b \<in> set xs \<and> (\<forall>x \<in> set xs. key x \<le> key b)" by (rule pick_best_max)
next
  assume b: "b \<in> set xs \<and> (\<forall>x \<in> set xs. key x \<le> key b)"
  then obtain c where c: "pick_best outranks None xs = Some c"
    by (cases "pick_best outranks None xs") auto
  from pick_best_max [OF c] b have "key c = key b" by (auto intro: antisym)
  with pick_best_max [OF c] b assms have "c = b" by (auto dest: inj_onD)
  with c show "pick_best outranks None xs = Some b" by simp
qed

lemma pick_best_set:
  assumes "set xs = set ys" and "inj_on key (set xs)"
  shows "pick_best outranks None xs = pick_best outranks None ys"
proof (cases "pick_best outranks None xs")
  case None
  with assms(1) have "ys = []" by simp
  with None show ?thesis by simp
next
  case (Some b)
  with assms show ?thesis by (metis pick_best_iff)
qed

end

section \<open>Generic list facts\<close>

lemma sorted_wrt_filter_take:
  "sorted_wrt P xs \<Longrightarrow> sorted_wrt P (take n (filter Q xs))"
  by (simp add: sorted_wrt_filter sorted_wrt_take)

lemma list_ex_set: "list_ex P xs \<longleftrightarrow> (\<exists>x \<in> set xs. P x)"
  by (simp add: list_ex_iff)

end
