(* ===== verification/GoStrings.thy ===== *)
theory GoStrings
  imports Prelude
begin

text \<open>
  The part of Go's \<open>strings\<close> and \<open>fmt\<close> packages the program uses, over byte strings:
  \<open>TrimSpace\<close> (with every UTF-8 encoded white-space rune), \<open>ToUpper\<close> and \<open>ToLower\<close> on
  ASCII letters, \<open>LastIndexByte\<close>, \<open>IndexByte\<close>, \<open>Cut\<close>, \<open>Split\<close>, \<open>HasSuffix\<close> and the verb \<open>%d\<close>
  for natural numbers.  The two case functions leave letters outside ASCII alone, except those
  that \<open>ToLower\<close> turns into ASCII ones; what the program folds with \<open>ToLower\<close> it compares with ASCII
  strings only, and what it folds with \<open>ToUpper\<close> are identity codes.
\<close>

section \<open>White space\<close>

text \<open>The UTF-8 encodings of the runes \<open>unicode.IsSpace\<close> accepts.\<close>

definition space_runes :: "string list" where
  "space_runes = map (map char_of)
     [[9 :: nat], [10], [11], [12], [13], [32], [0xC2, 0x85], [0xC2, 0xA0], [0xE1, 0x9A, 0x80],
      [0xE2, 0x80, 0x80], [0xE2, 0x80, 0x81], [0xE2, 0x80, 0x82], [0xE2, 0x80, 0x83],
      [0xE2, 0x80, 0x84], [0xE2, 0x80, 0x85], [0xE2, 0x80, 0x86], [0xE2, 0x80, 0x87],
      [0xE2, 0x80, 0x88], [0xE2, 0x80, 0x89], [0xE2, 0x80, 0x8A], [0xE2, 0x80, 0xA8],
      [0xE2, 0x80, 0xA9], [0xE2, 0x80, 0xAF], [0xE2, 0x81, 0x9F], [0xE3, 0x80, 0x80]]"

definition has_prefix :: "string \<Rightarrow> string \<Rightarrow> bool" where
  "has_prefix s p \<longleftrightarrow> take (length p) s = p"

definition has_suffix :: "string \<Rightarrow> string \<Rightarrow> bool" where
  "has_suffix s p \<longleftrightarrow> has_prefix (rev s) (rev p)"

definition leading_rune :: "string list \<Rightarrow> string \<Rightarrow> string option" where
  "leading_rune rs s = find (\<lambda>r. r \<noteq> [] \<and> has_prefix s r) rs"

lemma leading_rune_Some:
  "leading_rune rs s = Some r \<Longrightarrow> r \<in> set rs \<and> r \<noteq> [] \<and> has_prefix s r"
  by (auto simp: leading_rune_def find_Some_iff)

lemma leading_rune_None:
  "leading_rune rs s = None \<longleftrightarrow> (\<forall>r \<in> set rs. r \<noteq> [] \<longrightarrow> \<not> has_prefix s r)"
  by (auto simp: leading_rune_def find_None_iff)

text \<open>Strip leading runes of \<open>rs\<close> for as long as there is one.\<close>

function strip_left :: "string list \<Rightarrow> string \<Rightarrow> string" where
  "strip_left rs s =
     (case leading_rune rs s of None \<Rightarrow> s | Some r \<Rightarrow> strip_left rs (drop (length r) s))"
  by pat_completeness auto
termination
proof (relation "measure (\<lambda>(rs, s). length s)", simp)
  fix rs s r
  assume "leading_rune rs s = Some r"
  then have "r \<noteq> []" and "take (length r) s = r"
    by (auto dest: leading_rune_Some simp: has_prefix_def)
  then show "((rs, drop (length r) s), rs, s) \<in> measure (\<lambda>(rs, s). length s)"
    by (cases s) auto
qed

declare strip_left.simps [simp del]

definition trim_left :: "string \<Rightarrow> string" where
  "trim_left s = strip_left space_runes s"

definition trim_right :: "string \<Rightarrow> string" where
  "trim_right s = rev (strip_left (map rev space_runes) (rev s))"

definition trim_space :: "string \<Rightarrow> string" where
  "trim_space s = trim_right (trim_left s)"

lemma leading_rune_strip_left [simp]: "leading_rune rs (strip_left rs s) = None"
  by (induction rs s rule: strip_left.induct)
     (subst strip_left.simps, auto split: option.split)

lemma strip_left_id: "leading_rune rs s = None \<Longrightarrow> strip_left rs s = s"
  by (subst strip_left.simps) simp

lemma trim_space_id:
  "leading_rune space_runes s = None \<Longrightarrow> leading_rune (map rev space_runes) (rev s) = None \<Longrightarrow> trim_space s = s"
  by (simp add: trim_space_def trim_left_def trim_right_def strip_left_id)

lemma strip_left_idem [simp]: "strip_left rs (strip_left rs s) = strip_left rs s"
  by (simp add: strip_left_id)

lemma strip_left_suffix: "\<exists>n. strip_left rs s = drop n s"
proof (induction rs s rule: strip_left.induct)
  case (1 rs s)
  show ?case
  proof (cases "leading_rune rs s")
    case None
    then show ?thesis by (subst strip_left.simps) (auto intro: exI [of _ 0])
  next
    case (Some r)
    from 1 [OF Some] obtain n where "strip_left rs (drop (length r) s) = drop n (drop (length r) s)" ..
    with Some show ?thesis by (subst strip_left.simps) auto
  qed
qed

lemma trim_right_prefix: "\<exists>n. trim_right s = take n s"
proof -
  obtain n where "strip_left (map rev space_runes) (rev s) = drop n (rev s)"
    using strip_left_suffix by blast
  then show ?thesis by (auto simp: trim_right_def drop_rev intro: exI)
qed

lemma leading_rune_take: "leading_rune rs s = None \<Longrightarrow> leading_rune rs (take n s) = None"
  by (auto simp: leading_rune_None has_prefix_def) (metis min.absorb1 length_take min_def nat_le_linear take_all take_take)

lemma leading_rune_trim_space: "leading_rune space_runes (trim_space s) = None"
proof -
  obtain n where "trim_right (trim_left s) = take n (trim_left s)"
    using trim_right_prefix by blast
  then show ?thesis
    using leading_rune_take [of space_runes "trim_left s" n] by (simp add: trim_space_def trim_left_def)
qed

lemma trim_space_idem: "trim_space (trim_space s) = trim_space s"
proof -
  have "trim_left (trim_space s) = trim_space s"
    by (simp add: trim_left_def strip_left_id leading_rune_trim_space)
  then show ?thesis by (simp add: trim_space_def trim_right_def)
qed

section \<open>Letter case\<close>

definition upper_char :: "char \<Rightarrow> char" where
  "upper_char c = (let n = of_char c :: nat in if 97 \<le> n \<and> n \<le> 122 then char_of (n - 32) else c)"

definition lower_char :: "char \<Rightarrow> char" where
  "lower_char c = (let n = of_char c :: nat in if 65 \<le> n \<and> n \<le> 90 then char_of (n + 32) else c)"

definition to_upper :: "string \<Rightarrow> string" where
  "to_upper s = map upper_char s"

text \<open>The two runes outside ASCII whose lower case is an ASCII letter: U+0130 and U+212A.\<close>

fun fold_special :: "string \<Rightarrow> string" where
  "fold_special (a # b # c # s) =
     (if a = char_of (0xE2 :: nat) \<and> b = char_of (0x84 :: nat) \<and> c = char_of (0xAA :: nat)
      then CHR ''k'' # fold_special s
      else if a = char_of (0xC4 :: nat) \<and> b = char_of (0xB0 :: nat) then CHR ''i'' # fold_special (c # s)
      else a # fold_special (b # c # s))"
| "fold_special [a, b] = (if a = char_of (0xC4 :: nat) \<and> b = char_of (0xB0 :: nat) then ''i'' else [a, b])"
| "fold_special s = s"

definition to_lower :: "string \<Rightarrow> string" where
  "to_lower s = map lower_char (fold_special s)"

lemma of_char_upper:
  "(of_char (upper_char c) :: nat) = (let n = of_char c in if 97 \<le> n \<and> n \<le> 122 then n - 32 else n)"
  by (auto simp: upper_char_def Let_def)

lemma upper_char_idem [simp]: "upper_char (upper_char c) = upper_char c"
  by (subst (1) upper_char_def) (auto simp: of_char_upper Let_def)

lemma to_upper_idem [simp]: "to_upper (to_upper s) = to_upper s"
  by (simp add: to_upper_def)

lemma length_to_upper [simp]: "length (to_upper s) = length s"
  by (simp add: to_upper_def)

text \<open>Upper-casing neither makes nor destroys a white-space rune.\<close>

definition caseless :: "char \<Rightarrow> bool" where
  "caseless c \<longleftrightarrow> (\<forall>d. upper_char d = c \<longleftrightarrow> d = c)"

lemma caseless_nat: "n < 65 \<or> (122 < n \<and> n < 256) \<Longrightarrow> caseless (char_of (n :: nat))"
proof -
  assume n: "n < 65 \<or> (122 < n \<and> n < 256)"
  have "upper_char d = char_of n \<longleftrightarrow> d = char_of n" for d
  proof -
    have "upper_char d = char_of n \<longleftrightarrow> (of_char (upper_char d) :: nat) = of_char (char_of n :: char)"
      by (simp only: of_char_eq_iff)
    also have "\<dots> \<longleftrightarrow> (of_char d :: nat) = of_char (char_of n :: char)"
      using n by (auto simp: of_char_upper Let_def)
    finally show ?thesis by (simp only: of_char_eq_iff)
  qed
  then show "caseless (char_of n)" by (simp add: caseless_def)
qed

lemma space_runes_caseless: "r \<in> set space_runes \<Longrightarrow> list_all caseless r"
  by (auto simp: space_runes_def intro!: caseless_nat)

lemma has_prefix_to_upper:
  "list_all caseless r \<Longrightarrow> has_prefix (to_upper s) r \<longleftrightarrow> has_prefix s r"
proof (induction r arbitrary: s)
  case Nil
  then show ?case by (simp add: has_prefix_def)
next
  case (Cons c r)
  then show ?case by (cases s) (auto simp: has_prefix_def to_upper_def caseless_def)
qed

lemma leading_rune_to_upper:
  assumes "\<forall>r \<in> set rs. list_all caseless r"
  shows "leading_rune rs (to_upper s) = leading_rune rs s"
  using assms by (induction rs) (auto simp: leading_rune_def has_prefix_to_upper)

lemma strip_left_to_upper:
  "\<forall>r \<in> set rs. list_all caseless r \<Longrightarrow> strip_left rs (to_upper s) = to_upper (strip_left rs s)"
proof (induction rs s rule: strip_left.induct)
  case (1 rs s)
  show ?case
  proof (cases "leading_rune rs s")
    case None
    with "1.prems" show ?thesis
      by (simp add: strip_left_id leading_rune_to_upper)
  next
    case (Some r)
    have "drop (length r) (to_upper s) = to_upper (drop (length r) s)"
      by (simp add: to_upper_def drop_map)
    with Some 1 show ?thesis
      by (subst (1 2) strip_left.simps) (simp add: leading_rune_to_upper)
  qed
qed

lemma trim_space_to_upper: "trim_space (to_upper s) = to_upper (trim_space s)"
proof -
  have rev_upper: "rev (to_upper t) = to_upper (rev t)" for t
    by (simp add: to_upper_def rev_map)
  have "\<forall>r \<in> set (map rev space_runes). list_all caseless r"
    using space_runes_caseless by (auto simp: list_all_iff)
  then show ?thesis
    using space_runes_caseless
    by (simp add: trim_space_def trim_left_def trim_right_def strip_left_to_upper rev_upper)
qed

section \<open>Searching and splitting\<close>

primrec index_byte :: "char \<Rightarrow> string \<Rightarrow> nat option" where
  "index_byte c [] = None"
| "index_byte c (x # xs) = (if x = c then Some 0 else map_option Suc (index_byte c xs))"

primrec last_index_byte :: "char \<Rightarrow> string \<Rightarrow> nat option" where
  "last_index_byte c [] = None"
| "last_index_byte c (x # xs) =
     (case last_index_byte c xs of Some i \<Rightarrow> Some (Suc i) | None \<Rightarrow> if x = c then Some 0 else None)"

text \<open>\<open>strings.Cut(s, sep)\<close> for a one-byte separator: before, after, and whether it was found.\<close>

definition cut :: "char \<Rightarrow> string \<Rightarrow> string \<times> string \<times> bool" where
  "cut c s = (case index_byte c s of None \<Rightarrow> (s, [], False) | Some i \<Rightarrow> (take i s, drop (Suc i) s, True))"

text \<open>\<open>strings.Split(s, sep)\<close> for a one-byte separator.\<close>

primrec split_byte :: "char \<Rightarrow> string \<Rightarrow> string list" where
  "split_byte c [] = [[]]"
| "split_byte c (x # xs) =
     (if x = c then [] # split_byte c xs
      else case split_byte c xs of [] \<Rightarrow> [[x]] | y # ys \<Rightarrow> (x # y) # ys)"

lemma index_byte_Some:
  "index_byte c s = Some i \<Longrightarrow> i < length s \<and> s = take i s @ c # drop (Suc i) s"
  by (induction s arbitrary: i) (auto split: if_splits)

lemma last_index_byte_Some:
  "last_index_byte c s = Some i \<Longrightarrow> i < length s \<and> s = take i s @ c # drop (Suc i) s \<and> c \<notin> set (drop (Suc i) s)"
proof (induction s arbitrary: i)
  case Nil
  then show ?case by simp
next
  case (Cons x xs)
  have "last_index_byte c xs = None \<Longrightarrow> c \<notin> set xs"
    by (induction xs) (auto split: option.splits if_splits)
  with Cons show ?case by (auto split: option.splits if_splits)
qed

section \<open>Decimal numerals\<close>

definition digit :: "nat \<Rightarrow> char" where
  "digit n = char_of (48 + n)"

fun dec :: "nat \<Rightarrow> string" where
  "dec n = (if n < 10 then [digit n] else dec (n div 10) @ [digit (n mod 10)])"

declare dec.simps [simp del]

definition undec :: "string \<Rightarrow> nat" where
  "undec s = foldl (\<lambda>a c. 10 * a + (of_char c - 48)) 0 s"

lemma of_char_digit: "n < 10 \<Longrightarrow> (of_char (digit n) :: nat) = 48 + n"
  by (simp add: digit_def)

lemma undec_dec: "undec (dec n) = n"
proof (induction n rule: dec.induct)
  case (1 n)
  show ?case
  proof (cases "n < 10")
    case True
    then show ?thesis by (subst dec.simps) (simp add: undec_def of_char_digit)
  next
    case False
    with 1 have "undec (dec (n div 10)) = n div 10" by simp
    with False show ?thesis
      by (subst dec.simps) (simp add: undec_def of_char_digit)
  qed
qed

lemma dec_inject [simp]: "dec m = dec n \<longleftrightarrow> m = n"
  by (metis undec_dec)

end
