(* ===== verification/StoreTypes.thy ===== *)
theory StoreTypes
  imports GoStrings
begin

text \<open>
  The data of \<open>store/store.go\<close>: the metadata row, the chain projections, the inputs of the
  store's operations, the sentinel errors, and the two pure rules that file states
  (\<open>NormalizeSerial\<close>, \<open>Bundleable\<close>).
\<close>

section \<open>Errors\<close>

text \<open>
  The sentinel errors of \<open>store\<close> and \<open>documents.ErrGone\<close>; \<open>ErrOther\<close> is any error no
  caller tests for with \<open>errors.Is\<close>, with the fixed part of its message.
\<close>

datatype err =
    ErrNotFound
  | ErrLegalHold
  | ErrChainAdvanced
  | ErrChainLive
  | ErrNotBundleable
  | ErrGone
  | ErrOther string

type_synonym ('a, 's) res = "(err + 'a) \<times> 's"

section \<open>Rows\<close>

record manifest_file =
  mf_Name :: string
  mf_MediaType :: string
  mf_Size :: int

record document =
  d_ID :: string
  d_Owner :: string
  d_TenantID :: string
  d_Kind :: string
  d_ParentID :: string
  d_Filename :: string
  d_StorageRef :: string
  d_ContentHash :: string
  d_Mime :: string
  d_Size :: int
  d_Status :: string
  d_EncryptionKeyRef :: string
  d_PreservationClass :: string
  d_RetentionClass :: string
  d_RetentionUntil :: "time option"
  d_LegalHold :: bool
  d_SignedAt :: "time option"
  d_ResultFrozen :: bool
  d_InnerFiles :: "manifest_file list"
  d_CreatedAt :: time
  d_UpdatedAt :: time

record chain =
  c_ChainRootID :: string
  c_ID :: string
  c_Kind :: string
  c_Status :: string
  c_Filename :: string
  c_Mime :: string
  c_Size :: int
  c_RetentionUntil :: "time option"
  c_LegalHold :: bool
  c_PreservationClass :: string
  c_HasSignatures :: bool
  c_PlatformSigned :: bool
  c_ResultFrozen :: bool
  c_InnerFiles :: "manifest_file list"
  c_ChainCreatedAt :: time
  c_CreatedAt :: time
  c_UpdatedAt :: time

record history_chain =
  h_ChainRootID :: string
  h_ID :: string
  h_Kind :: string
  h_Status :: string
  h_Filename :: string
  h_Mime :: string
  h_Size :: int
  h_HasSignatures :: bool
  h_PlatformSigned :: bool
  h_ChainCreatedAt :: time
  h_DestroyedAt :: time

record purged_ref =
  p_ID :: string
  p_StorageRef :: string
  p_EncryptionKeyRef :: string

section \<open>Inputs\<close>

record insert_input =
  ii_Owner :: string
  ii_TenantID :: string
  ii_Kind :: string
  ii_ParentID :: string
  ii_Filename :: string
  ii_StorageRef :: string
  ii_ContentHash :: string
  ii_Mime :: string
  ii_Size :: int
  ii_Status :: string
  ii_EncryptionKeyRef :: string
  ii_PreservationClass :: string
  ii_OwnerKind :: string
  ii_RetentionClass :: string
  ii_RetentionUntil :: "time option"
  ii_InnerFiles :: "manifest_file list"

record caller =
  cl_Sub :: string
  cl_Serial :: string
  cl_Product :: string
  cl_Tenant :: string

record grant_input =
  gi_DocID :: string
  gi_PrincipalKind :: string
  gi_PrincipalID :: string
  gi_Rights :: "string list"
  gi_TenantID :: string
  gi_GrantedBy :: string

record replace_input =
  ri_ID :: string
  ri_ExpectedHash :: string
  ri_StorageRef :: string
  ri_ContentHash :: string
  ri_Size :: int
  ri_EncryptionKeyRef :: string
  ri_PreservationClass :: string

record bundle_input =
  bi_Owner :: string
  bi_TenantID :: string
  bi_SourceIDs :: "string list"
  bi_Filename :: string
  bi_StorageRef :: string
  bi_ContentHash :: string
  bi_Mime :: string
  bi_Size :: int
  bi_EncryptionKeyRef :: string
  bi_PreservationClass :: string
  bi_RetentionUntil :: time
  bi_InnerFiles :: "manifest_file list"

record rebundle_input =
  rb_Owner :: string
  rb_ID :: string
  rb_ExpectedHash :: string
  rb_StorageRef :: string
  rb_ContentHash :: string
  rb_Size :: int
  rb_EncryptionKeyRef :: string
  rb_InnerFiles :: "manifest_file list"
  rb_AbsorbSourceIDs :: "string list"

section \<open>Constants and pure rules\<close>

definition RetentionTTL :: string where "RetentionTTL = ''ttl''"
definition RetentionDurable :: string where "RetentionDurable = ''durable''"

definition PrincipalSub :: string where "PrincipalSub = ''sub''"
definition PrincipalSerial :: string where "PrincipalSerial = ''serial''"
definition PrincipalProduct :: string where "PrincipalProduct = ''product''"

lemmas store_consts [simp] =
  RetentionTTL_def RetentionDurable_def PrincipalSub_def PrincipalSerial_def PrincipalProduct_def

definition NormalizeSerial :: "string \<Rightarrow> string" where
  "NormalizeSerial s = to_upper (trim_space s)"

lemma NormalizeSerial_idem [simp]: "NormalizeSerial (NormalizeSerial s) = NormalizeSerial s"
  by (simp add: NormalizeSerial_def trim_space_to_upper trim_space_idem)

definition Bundleable :: "string \<Rightarrow> string \<Rightarrow> bool" where
  "Bundleable kind status \<longleftrightarrow>
     (kind = ''source'' \<and> status = ''received'') \<or>
     ((kind = ''pdf'' \<or> kind = ''container'') \<and> status = ''signed'')"

text \<open>An empty string is replaced by a default, as the store's inserts do.\<close>

definition or_default :: "string \<Rightarrow> string \<Rightarrow> string" where
  "or_default s dflt = (if s = [] then dflt else s)"

lemma or_default_simps [simp]:
  "or_default [] dflt = dflt" "s \<noteq> [] \<Longrightarrow> or_default s dflt = s"
  by (simp_all add: or_default_def)

end
