(* ===== verification/GoTime.thy ===== *)
theory GoTime
  imports GoStrings "HOL-Library.Monad_Syntax"
begin

text \<open>
  The part of Go's \<open>time\<close> package the program uses: \<open>time.Parse\<close> for the layouts
  \<open>time.RFC3339\<close> and \<open>time.RFC3339Nano\<close> (which accept the same values: a fractional second
  is taken after the seconds whether or not the layout names one).  The parser follows
  \<open>time.parse\<close>, its leniencies included: a one-digit hour, a comma before the fraction, and
  offsets up to 24:60.  An error of any kind is \<open>None\<close>.
\<close>

definition digit_val :: "char \<Rightarrow> int option" where
  "digit_val c = (let n = of_char c :: int in if 48 \<le> n \<and> n \<le> 57 then Some (n - 48) else None)"

definition lit :: "char \<Rightarrow> string \<Rightarrow> string option" where
  "lit c s = (case s of [] \<Rightarrow> None | x # xs \<Rightarrow> if x = c then Some xs else None)"

text \<open>\<open>getnum(s, fixed)\<close>: one or two digits, exactly two when \<open>fixed\<close>.\<close>

definition getnum :: "bool \<Rightarrow> string \<Rightarrow> (int \<times> string) option" where
  "getnum fixed s =
     (case s of [] \<Rightarrow> None
      | a # s' \<Rightarrow> (case digit_val a of None \<Rightarrow> None
        | Some x \<Rightarrow> (case s' of [] \<Rightarrow> if fixed then None else Some (x, [])
          | b # s'' \<Rightarrow> (case digit_val b of None \<Rightarrow> if fixed then None else Some (x, s')
            | Some y \<Rightarrow> Some (10 * x + y, s'')))))"

primrec digits_val :: "int \<Rightarrow> string \<Rightarrow> int option" where
  "digits_val acc [] = Some acc"
| "digits_val acc (c # cs) = (case digit_val c of None \<Rightarrow> None | Some x \<Rightarrow> digits_val (10 * acc + x) cs)"

definition get_year :: "string \<Rightarrow> (int \<times> string) option" where
  "get_year s = (if length s < 4 then None
                 else map_option (\<lambda>y. (y, drop 4 s)) (digits_val 0 (take 4 s)))"

definition is_digit :: "char \<Rightarrow> bool" where
  "is_digit c \<longleftrightarrow> digit_val c \<noteq> None"

text \<open>
  The optional fraction: its first nine digits are the nanoseconds, the rest are dropped.
\<close>

definition get_fraction :: "string \<Rightarrow> int \<times> string" where
  "get_fraction s =
     (case s of p # c # _ \<Rightarrow>
        if (p = CHR ''.'' \<or> p = CHR '','') \<and> is_digit c then
          (let ds = takeWhile is_digit (tl s); n = min 9 (length ds)
           in (case digits_val 0 (take n ds) of None \<Rightarrow> 0 | Some v \<Rightarrow> v * 10 ^ (9 - n),
               dropWhile is_digit (tl s)))
        else (0, s)
      | _ \<Rightarrow> (0, s))"

text \<open>The zone: \<open>Z\<close>, or a signed \<open>hh:mm\<close>; the result is the offset east of UTC in seconds.\<close>

definition get_zone :: "string \<Rightarrow> (int \<times> string) option" where
  "get_zone s =
     (case s of [] \<Rightarrow> None
      | z # s' \<Rightarrow>
        if z = CHR ''Z'' then Some (0, s')
        else if length s < 6 \<or> s ! 3 \<noteq> CHR '':'' then None
        else do {
          (hr, _) \<leftarrow> getnum True (take 2 (drop 1 s));
          (mm, _) \<leftarrow> getnum True (take 2 (drop 4 s));
          (if hr > 24 \<or> mm > 60 then None
           else if z = CHR ''+'' then Some ((hr * 60 + mm) * 60, drop 6 s)
           else if z = CHR ''-'' then Some (- ((hr * 60 + mm) * 60), drop 6 s)
           else None)
        })"

definition leap_year :: "int \<Rightarrow> bool" where
  "leap_year y \<longleftrightarrow> y mod 4 = 0 \<and> (y mod 100 \<noteq> 0 \<or> y mod 400 = 0)"

definition month_days :: "int \<Rightarrow> int \<Rightarrow> int" where
  "month_days y m =
     (if m = 2 then (if leap_year y then 29 else 28)
      else if m = 4 \<or> m = 6 \<or> m = 9 \<or> m = 11 then 30 else 31)"

definition days_before_year :: "int \<Rightarrow> int" where
  "days_before_year y = (let p = y - 1 in 365 * p + p div 4 - p div 100 + p div 400)"

definition days_before_month :: "int \<Rightarrow> int \<Rightarrow> int" where
  "days_before_month y m = sum_list (map (month_days y) [1 .. m - 1])"

definition date_instant :: "int \<Rightarrow> int \<Rightarrow> int \<Rightarrow> int \<Rightarrow> int \<Rightarrow> int \<Rightarrow> int \<Rightarrow> time" where
  "date_instant y mo d h mi s ns =
     ((((days_before_year y + days_before_month y mo + (d - 1)) * 24 + h) * 60 + mi) * 60 + s)
       * 1000000000 + ns"

definition parse_rfc3339 :: "string \<Rightarrow> time option" where
  "parse_rfc3339 v = do {
     (y, v) \<leftarrow> get_year v;
     v \<leftarrow> lit (CHR ''-'') v;
     (mo, v) \<leftarrow> getnum True v;
     v \<leftarrow> lit (CHR ''-'') v;
     (d, v) \<leftarrow> getnum True v;
     v \<leftarrow> lit (CHR ''T'') v;
     (h, v) \<leftarrow> getnum False v;
     v \<leftarrow> lit (CHR '':'') v;
     (mi, v) \<leftarrow> getnum True v;
     v \<leftarrow> lit (CHR '':'') v;
     (s, v) \<leftarrow> getnum True v;
     (let (ns, v) = get_fraction v in do {
        (off, v) \<leftarrow> get_zone v;
        (if v \<noteq> [] \<or> mo < 1 \<or> 12 < mo \<or> 24 \<le> h \<or> 60 \<le> mi \<or> 60 \<le> s
            \<or> d < 1 \<or> month_days y mo < d then None
         else Some (date_instant y mo d h mi s ns - off * 1000000000))
     })
   }"

lemma parse_rfc3339_epoch: "parse_rfc3339 ''1970-01-01T00:00:00Z'' = Some (62135596800 * 1000000000)"
  by code_simp

lemma parse_rfc3339_zero: "parse_rfc3339 ''0001-01-01T00:00:00Z'' = Some 0"
  by code_simp

lemma parse_rfc3339_offset:
  "parse_rfc3339 ''2024-02-29T12:30:00.5+02:00'' = parse_rfc3339 ''2024-02-29T10:30:00.500Z''"
  by code_simp

lemma parse_rfc3339_bad_day: "parse_rfc3339 ''2023-02-29T12:30:00Z'' = None"
  by code_simp

end
