(* ===== verification/MemoryStore.thy ===== *)
theory MemoryStore
  imports StoreTypes GoTime
begin

text \<open>
  The in-memory metadata store, \<open>store/memory.go\<close>: its state and every operation that
  changes it, plus the single-row reads.  Each operation runs under the store's mutex, so an
  operation is one atomic step from a state to a result and a state.  Loops over the row map
  take the visiting order \<open>ord\<close> of that run; fresh identifiers (\<open>ulid.Make\<close>) and clock
  readings (\<open>time.Now\<close>) are arguments.
\<close>

section \<open>State\<close>

record acl_grant =
  g_ChainRoot :: string
  g_Kind :: string
  g_Principal :: string
  g_Rights :: "string list"

record memory =
  rows :: "string \<rightharpoonup> document"
  acl :: "acl_grant list"

definition NewMemory :: memory where
  "NewMemory = \<lparr>rows = Map.empty, acl = []\<rparr>"

definition put_row :: "document \<Rightarrow> memory \<Rightarrow> memory" where
  "put_row d m = m\<lparr>rows := (rows m)(d_ID d \<mapsto> d)\<rparr>"

definition drop_row :: "string \<Rightarrow> memory \<Rightarrow> memory" where
  "drop_row k m = m\<lparr>rows := (rows m)(k := None)\<rparr>"

definition drop_chain_acl :: "string \<Rightarrow> memory \<Rightarrow> memory" where
  "drop_chain_acl root m = m\<lparr>acl := filter (\<lambda>g. g_ChainRoot g \<noteq> root) (acl m)\<rparr>"

section \<open>Chains and access\<close>

definition chainRootID :: "document \<Rightarrow> string" where
  "chainRootID d = (if d_ParentID d \<noteq> [] then d_ParentID d else d_ID d)"

definition tenantMatches :: "document \<Rightarrow> caller \<Rightarrow> bool" where
  "tenantMatches d c = (if cl_Product c = [] then True else d_TenantID d = cl_Tenant c)"

definition hasRight :: "string list \<Rightarrow> string \<Rightarrow> bool" where
  "hasRight rights want = list_ex (\<lambda>r. r = want) rights"

text \<open>A grant names the caller: by subject, by normalised serial, or by product.\<close>

definition grant_names :: "acl_grant \<Rightarrow> caller \<Rightarrow> bool" where
  "grant_names g c =
     ((g_Kind g = ''sub'' \<and> cl_Sub c \<noteq> [] \<and> g_Principal g = cl_Sub c) \<or>
      (g_Kind g = ''serial'' \<and> NormalizeSerial (cl_Serial c) \<noteq> [] \<and>
         g_Principal g = NormalizeSerial (cl_Serial c)) \<or>
      (g_Kind g = PrincipalProduct \<and> cl_Product c \<noteq> [] \<and> g_Principal g = cl_Product c))"

definition allows :: "memory \<Rightarrow> string \<Rightarrow> caller \<Rightarrow> string \<Rightarrow> bool" where
  "allows m chainRoot c right =
     list_ex (\<lambda>g. g_ChainRoot g = chainRoot \<and> hasRight (g_Rights g) right \<and> grant_names g c) (acl m)"

section \<open>Insert\<close>

text \<open>
  The uniqueness rule: one container per parent, one signed PDF per chain tree (the root
  included), over rows whose status is not \<open>deleted\<close>.
\<close>

definition blocks_insert :: "string \<Rightarrow> string \<Rightarrow> document \<Rightarrow> bool" where
  "blocks_insert kind parent d =
     (d_Kind d = kind \<and> d_Status d \<noteq> ''deleted'' \<and>
      (d_ParentID d = parent \<or> (kind = ''pdf'' \<and> d_ID d = parent)))"

definition insert_row :: "string \<Rightarrow> time \<Rightarrow> insert_input \<Rightarrow> document" where
  "insert_row new_id now inp =
     \<lparr>d_ID = new_id, d_Owner = ii_Owner inp, d_TenantID = ii_TenantID inp,
      d_Kind = or_default (ii_Kind inp) ''source'', d_ParentID = ii_ParentID inp,
      d_Filename = ii_Filename inp, d_StorageRef = ii_StorageRef inp,
      d_ContentHash = ii_ContentHash inp, d_Mime = ii_Mime inp, d_Size = ii_Size inp,
      d_Status = or_default (ii_Status inp) ''received'',
      d_EncryptionKeyRef = ii_EncryptionKeyRef inp,
      d_PreservationClass = or_default (ii_PreservationClass inp) ''none'',
      d_RetentionClass = or_default (ii_RetentionClass inp) RetentionTTL,
      d_RetentionUntil = ii_RetentionUntil inp, d_LegalHold = False, d_SignedAt = None,
      d_ResultFrozen = False, d_InnerFiles = ii_InnerFiles inp,
      d_CreatedAt = now, d_UpdatedAt = now\<rparr>"

text \<open>The grant a chain root's creator gets; a product may only read what it stored.\<close>

definition creator_grant :: "string \<Rightarrow> insert_input \<Rightarrow> acl_grant" where
  "creator_grant new_id inp =
     (let kind = or_default (ii_OwnerKind inp) PrincipalSub in
      \<lparr>g_ChainRoot = new_id, g_Kind = kind, g_Principal = ii_Owner inp,
       g_Rights = (if kind = PrincipalProduct then [''read''] else [''read'', ''cosign''])\<rparr>)"

definition mem_Insert ::
  "string list \<Rightarrow> string \<Rightarrow> time \<Rightarrow> insert_input \<Rightarrow> memory \<Rightarrow> (string, memory) res" where
  "mem_Insert ord new_id now inp m =
     (let kind = or_default (ii_Kind inp) ''source'' in
      if (kind = ''container'' \<or> kind = ''pdf'') \<and> ii_ParentID inp \<noteq> [] \<and>
         list_ex (blocks_insert kind (ii_ParentID inp)) (range_vals ord (rows m))
      then (Inl ErrChainAdvanced, m)
      else
        (let m1 = put_row (insert_row new_id now inp) m;
             m2 = (if ii_ParentID inp = [] then m1\<lparr>acl := acl m1 @ [creator_grant new_id inp]\<rparr> else m1)
         in (Inr new_id, m2)))"

section \<open>Replacing a signed head in place\<close>

definition purged_of :: "document \<Rightarrow> purged_ref" where
  "purged_of d = \<lparr>p_ID = d_ID d, p_StorageRef = d_StorageRef d, p_EncryptionKeyRef = d_EncryptionKeyRef d\<rparr>"

definition replace_row :: "time \<Rightarrow> replace_input \<Rightarrow> document \<Rightarrow> document" where
  "replace_row now inp d =
     d\<lparr>d_StorageRef := ri_StorageRef inp, d_ContentHash := ri_ContentHash inp, d_Size := ri_Size inp,
       d_EncryptionKeyRef := ri_EncryptionKeyRef inp, d_Status := ''signed'', d_SignedAt := Some now,
       d_PreservationClass :=
         (if ri_PreservationClass inp \<noteq> [] then ri_PreservationClass inp else d_PreservationClass d),
       d_UpdatedAt := now\<rparr>"

definition mem_ReplaceContainerBlob ::
  "time \<Rightarrow> replace_input \<Rightarrow> memory \<Rightarrow> (document \<times> purged_ref, memory) res" where
  "mem_ReplaceContainerBlob now inp m =
     (if ri_PreservationClass inp \<notin> set [[], ''none'', ''b_lt'', ''preservation'']
      then (Inl (ErrOther ''document: invalid preservation class''), m)
      else case rows m (ri_ID inp) of
        None \<Rightarrow> (Inl ErrNotFound, m)
      | Some d \<Rightarrow>
          if d_Status d = ''deleted'' \<or> d_Kind d = ''source'' then (Inl ErrNotFound, m)
          else if d_ContentHash d \<noteq> ri_ExpectedHash inp then (Inl ErrChainAdvanced, m)
          else (let d' = replace_row now inp d in (Inr (d', purged_of d), put_row d' m)))"

section \<open>Bundling\<close>

definition absorbSource :: "memory \<Rightarrow> string \<Rightarrow> string \<Rightarrow> err + document" where
  "absorbSource m sid owner =
     (case rows m sid of
        None \<Rightarrow> Inl ErrNotFound
      | Some d \<Rightarrow>
          if d_Owner d \<noteq> owner \<or> d_Status d = ''deleted'' \<or> d_Status d = ''expired'' then Inl ErrNotFound
          else if \<not> Bundleable (d_Kind d) (d_Status d) then Inl ErrNotBundleable
          else if d_LegalHold d then Inl ErrLegalHold
          else Inr d)"

text \<open>The checking loop of \<open>Bundle\<close>: no identifier twice, every source absorbable.\<close>

primrec bundle_sources :: "memory \<Rightarrow> string \<Rightarrow> string list \<Rightarrow> string list \<Rightarrow> err + document list" where
  "bundle_sources m owner seen [] = Inr []"
| "bundle_sources m owner seen (sid # sids) =
     (if sid \<in> set seen then Inl ErrNotBundleable
      else case absorbSource m sid owner of
        Inl e \<Rightarrow> Inl e
      | Inr d \<Rightarrow> (case bundle_sources m owner (sid # seen) sids of
                   Inl e \<Rightarrow> Inl e | Inr ds \<Rightarrow> Inr (d # ds)))"

text \<open>The checking loop of \<open>Rebundle\<close>, which does not look for duplicates.\<close>

primrec rebundle_sources :: "memory \<Rightarrow> string \<Rightarrow> string list \<Rightarrow> err + document list" where
  "rebundle_sources m owner [] = Inr []"
| "rebundle_sources m owner (sid # sids) =
     (case absorbSource m sid owner of
        Inl e \<Rightarrow> Inl e
      | Inr d \<Rightarrow> (case rebundle_sources m owner sids of Inl e \<Rightarrow> Inl e | Inr ds \<Rightarrow> Inr (d # ds)))"

text \<open>The absorbing loop both share: drop the row and the access entries rooted at it.\<close>

primrec absorb_rows :: "document list \<Rightarrow> memory \<Rightarrow> memory" where
  "absorb_rows [] m = m"
| "absorb_rows (d # ds) m = absorb_rows ds (drop_chain_acl (d_ID d) (drop_row (d_ID d) m))"

definition bundle_row :: "string \<Rightarrow> time \<Rightarrow> bundle_input \<Rightarrow> document" where
  "bundle_row new_id now inp =
     \<lparr>d_ID = new_id, d_Owner = bi_Owner inp, d_TenantID = bi_TenantID inp, d_Kind = ''container'',
      d_ParentID = [], d_Filename = bi_Filename inp, d_StorageRef = bi_StorageRef inp,
      d_ContentHash = bi_ContentHash inp, d_Mime = bi_Mime inp, d_Size = bi_Size inp,
      d_Status = ''received'', d_EncryptionKeyRef = bi_EncryptionKeyRef inp,
      d_PreservationClass = or_default (bi_PreservationClass inp) ''none'', d_RetentionClass = [],
      d_RetentionUntil = Some (bi_RetentionUntil inp), d_LegalHold = False, d_SignedAt = None,
      d_ResultFrozen = False, d_InnerFiles = bi_InnerFiles inp, d_CreatedAt = now, d_UpdatedAt = now\<rparr>"

definition bundle_grant :: "string \<Rightarrow> bundle_input \<Rightarrow> acl_grant" where
  "bundle_grant new_id inp =
     \<lparr>g_ChainRoot = new_id, g_Kind = ''sub'', g_Principal = bi_Owner inp, g_Rights = [''read'', ''cosign'']\<rparr>"

definition mem_Bundle ::
  "string \<Rightarrow> time \<Rightarrow> bundle_input \<Rightarrow> memory \<Rightarrow> (string \<times> purged_ref list, memory) res" where
  "mem_Bundle new_id now inp m =
     (if length (bi_SourceIDs inp) < 1 then (Inl ErrNotBundleable, m)
      else case bundle_sources m (bi_Owner inp) [] (bi_SourceIDs inp) of
        Inl e \<Rightarrow> (Inl e, m)
      | Inr ds \<Rightarrow>
          (let m1 = put_row (bundle_row new_id now inp) m;
               m2 = m1\<lparr>acl := acl m1 @ [bundle_grant new_id inp]\<rparr>
           in (Inr (new_id, map purged_of ds), absorb_rows ds m2)))"

definition rebundle_row :: "time \<Rightarrow> rebundle_input \<Rightarrow> document \<Rightarrow> document" where
  "rebundle_row now inp d =
     d\<lparr>d_StorageRef := rb_StorageRef inp, d_ContentHash := rb_ContentHash inp, d_Size := rb_Size inp,
       d_EncryptionKeyRef := rb_EncryptionKeyRef inp, d_InnerFiles := rb_InnerFiles inp,
       d_UpdatedAt := now\<rparr>"

definition mem_Rebundle ::
  "time \<Rightarrow> rebundle_input \<Rightarrow> memory \<Rightarrow> (document \<times> purged_ref \<times> purged_ref list, memory) res" where
  "mem_Rebundle now inp m =
     (case rows m (rb_ID inp) of
        None \<Rightarrow> (Inl ErrNotFound, m)
      | Some d \<Rightarrow>
          if d_Owner d \<noteq> rb_Owner inp \<or> d_Status d = ''deleted'' \<or> d_Status d = ''expired''
          then (Inl ErrNotFound, m)
          else if d_Kind d \<noteq> ''container'' \<or> d_Status d \<noteq> ''received'' then (Inl ErrNotBundleable, m)
          else if d_LegalHold d then (Inl ErrLegalHold, m)
          else if d_ContentHash d \<noteq> rb_ExpectedHash inp then (Inl ErrChainAdvanced, m)
          else case rebundle_sources m (rb_Owner inp) (rb_AbsorbSourceIDs inp) of
            Inl e \<Rightarrow> (Inl e, m)
          | Inr ds \<Rightarrow>
              (let d' = rebundle_row now inp d
               in (Inr (d', purged_of d, map purged_of ds), absorb_rows ds (put_row d' m))))"

section \<open>Grants\<close>

text \<open>Replace the rights of the first entry for that principal, or append an entry.\<close>

primrec grant_entry :: "string \<Rightarrow> string \<Rightarrow> string \<Rightarrow> string list \<Rightarrow> acl_grant list \<Rightarrow> acl_grant list" where
  "grant_entry root kind pid rights [] =
     [\<lparr>g_ChainRoot = root, g_Kind = kind, g_Principal = pid, g_Rights = rights\<rparr>]"
| "grant_entry root kind pid rights (g # gs) =
     (if g_ChainRoot g = root \<and> g_Kind g = kind \<and> g_Principal g = pid
      then g\<lparr>g_Rights := rights\<rparr> # gs
      else g # grant_entry root kind pid rights gs)"

definition mem_Grant :: "grant_input \<Rightarrow> memory \<Rightarrow> (unit, memory) res" where
  "mem_Grant inp m =
     (case rows m (gi_DocID inp) of
        None \<Rightarrow> (Inl ErrNotFound, m)
      | Some d \<Rightarrow>
          (let pid = (if gi_PrincipalKind inp = ''serial'' then NormalizeSerial (gi_PrincipalID inp)
                      else gi_PrincipalID inp);
               rights = (if gi_Rights inp = [] then [''read'', ''cosign''] else gi_Rights inp)
           in (Inr (), m\<lparr>acl := grant_entry (chainRootID d) (gi_PrincipalKind inp) pid rights (acl m)\<rparr>)))"

section \<open>Single-row reads\<close>

definition project_freeze :: "memory \<Rightarrow> document \<Rightarrow> document" where
  "project_freeze m d =
     (case rows m (chainRootID d) of None \<Rightarrow> d | Some r \<Rightarrow> d\<lparr>d_ResultFrozen := d_ResultFrozen r\<rparr>)"

definition mem_Get :: "memory \<Rightarrow> string \<Rightarrow> caller \<Rightarrow> err + document" where
  "mem_Get m k c =
     (case rows m k of
        None \<Rightarrow> Inl ErrNotFound
      | Some d \<Rightarrow>
          if \<not> allows m (chainRootID d) c ''read'' \<or> \<not> tenantMatches d c then Inl ErrNotFound
          else Inr (project_freeze m d))"

definition mem_GetContainerByParent :: "string list \<Rightarrow> memory \<Rightarrow> string \<Rightarrow> caller \<Rightarrow> err + document" where
  "mem_GetContainerByParent ord m parentID c =
     (if parentID = [] \<or> \<not> allows m parentID c ''read'' then Inl ErrNotFound
      else case find (\<lambda>d. d_Kind d = ''container'' \<and> d_ParentID d = parentID \<and> d_Status d \<noteq> ''deleted'')
                  (range_vals ord (rows m)) of
        None \<Rightarrow> Inl ErrNotFound
      | Some d \<Rightarrow> Inr d)"

definition newer_id :: "document \<Rightarrow> document \<Rightarrow> bool" where
  "newer_id a b \<longleftrightarrow> d_ID a > d_ID b"

definition live_pdf_of :: "string \<Rightarrow> document \<Rightarrow> bool" where
  "live_pdf_of parentID d \<longleftrightarrow>
     d_Kind d = ''pdf'' \<and> (d_ParentID d = parentID \<or> d_ID d = parentID) \<and> d_Status d \<noteq> ''deleted''"

definition mem_GetLatestSignedPdfByChain ::
  "string list \<Rightarrow> memory \<Rightarrow> string \<Rightarrow> caller \<Rightarrow> err + document" where
  "mem_GetLatestSignedPdfByChain ord m parentID c =
     (if parentID = [] \<or> \<not> allows m parentID c ''read'' then Inl ErrNotFound
      else case pick_best newer_id None (filter (live_pdf_of parentID) (range_vals ord (rows m))) of
        None \<Rightarrow> Inl ErrNotFound
      | Some d \<Rightarrow> Inr d)"

section \<open>Status, freeze and retention\<close>

definition mem_SetStatus :: "time \<Rightarrow> string \<Rightarrow> string \<Rightarrow> string \<Rightarrow> memory \<Rightarrow> (unit, memory) res" where
  "mem_SetStatus now k owner status m =
     (case rows m k of
        None \<Rightarrow> (Inl ErrNotFound, m)
      | Some d \<Rightarrow> if d_Owner d \<noteq> owner then (Inl ErrNotFound, m)
                  else (Inr (), put_row (d\<lparr>d_Status := status, d_UpdatedAt := now\<rparr>) m))"

definition mem_SetResultFreeze :: "time \<Rightarrow> string \<Rightarrow> bool \<Rightarrow> memory \<Rightarrow> (unit, memory) res" where
  "mem_SetResultFreeze now k frozen m =
     (case rows m k of
        None \<Rightarrow> (Inl ErrNotFound, m)
      | Some d \<Rightarrow> (case rows m (chainRootID d) of
            None \<Rightarrow> (Inl ErrNotFound, m)
          | Some r \<Rightarrow> (Inr (), put_row (r\<lparr>d_ResultFrozen := frozen, d_UpdatedAt := now\<rparr>) m)))"

text \<open>The loop of \<open>ChainRetention\<close>: the latest date among the rows that hold storage, and their number.\<close>

primrec retention_loop :: "string \<Rightarrow> document list \<Rightarrow> time \<times> int \<Rightarrow> time \<times> int" where
  "retention_loop root [] acc = acc"
| "retention_loop root (d # ds) acc =
     retention_loop root ds
       (if chainRootID d \<noteq> root \<or> d_StorageRef d = [] then acc
        else (case d_RetentionUntil d of
                None \<Rightarrow> fst acc
              | Some u \<Rightarrow> if u > fst acc then u else fst acc,
              snd acc + 1))"

definition mem_ChainRetention :: "string list \<Rightarrow> memory \<Rightarrow> string \<Rightarrow> err + (time \<times> int)" where
  "mem_ChainRetention ord m k =
     (case rows m k of
        None \<Rightarrow> Inl ErrNotFound
      | Some d \<Rightarrow> Inr (retention_loop (chainRootID d) (range_vals ord (rows m)) (0, 0)))"

definition mem_ExtendRetention :: "time \<Rightarrow> string \<Rightarrow> string \<Rightarrow> time \<Rightarrow> memory \<Rightarrow> (unit, memory) res" where
  "mem_ExtendRetention now k owner until m =
     (case rows m k of
        None \<Rightarrow> (Inl ErrNotFound, m)
      | Some d \<Rightarrow>
          if d_Owner d \<noteq> owner then (Inl ErrNotFound, m)
          else (Inr (), put_row
                 (d\<lparr>d_RetentionUntil :=
                      (case d_RetentionUntil d of
                         None \<Rightarrow> None
                       | Some u \<Rightarrow> if until > u then Some until else Some u),
                    d_UpdatedAt := now\<rparr>) m))"

section \<open>Leaving a chain\<close>

text \<open>Rows of the chain, as \<open>RemoveAccess\<close> tests for them.\<close>

definition in_chain :: "string \<Rightarrow> document \<Rightarrow> bool" where
  "in_chain root d \<longleftrightarrow> d_ID d = root \<or> d_ParentID d = root"

definition purge_row :: "string \<Rightarrow> time \<Rightarrow> document \<Rightarrow> document" where
  "purge_row status now d =
     d\<lparr>d_Status := status, d_StorageRef := [], d_EncryptionKeyRef := [], d_UpdatedAt := now\<rparr>"

primrec purge_chain ::
  "string \<Rightarrow> (string \<Rightarrow> time) \<Rightarrow> string list \<Rightarrow> memory \<Rightarrow> purged_ref list \<times> memory" where
  "purge_chain root clk [] m = ([], m)"
| "purge_chain root clk (k # ks) m =
     (case rows m k of
        None \<Rightarrow> purge_chain root clk ks m
      | Some r \<Rightarrow>
          if in_chain root r \<and> d_Status r \<noteq> ''deleted''
          then (let (ps, m') = purge_chain root clk ks (put_row (purge_row ''deleted'' (clk k) r) m)
                in (purged_of r # ps, m'))
          else purge_chain root clk ks m)"

text \<open>The access list without the caller's own entries on the chain.\<close>

definition kept_grants :: "string \<Rightarrow> caller \<Rightarrow> memory \<Rightarrow> acl_grant list" where
  "kept_grants root c m = filter (\<lambda>g. \<not> (g_ChainRoot g = root \<and> grant_names g c)) (acl m)"

text \<open>
  \<open>ord1\<close> is the order of the legal-hold loop, \<open>ord2\<close> that of the purging loop, and
  \<open>clk k\<close> the clock reading taken when the row \<open>k\<close> is written.
\<close>

definition mem_RemoveAccess ::
  "string list \<Rightarrow> string list \<Rightarrow> (string \<Rightarrow> time) \<Rightarrow> string \<Rightarrow> caller \<Rightarrow> memory \<Rightarrow>
     (purged_ref list, memory) res" where
  "mem_RemoveAccess ord1 ord2 clk k c m =
     (case rows m k of
        None \<Rightarrow> (Inl ErrNotFound, m)
      | Some d \<Rightarrow>
          (let root = chainRootID d in
           if \<not> allows m root c ''read'' \<or> \<not> tenantMatches d c then (Inl ErrNotFound, m)
           else if list_ex (\<lambda>r. in_chain root r \<and> d_LegalHold r) (range_vals ord1 (rows m))
           then (Inl ErrLegalHold, m)
           else
             (let kept = kept_grants root c m;
                  m1 = m\<lparr>acl := kept\<rparr>
              in if list_ex (\<lambda>g. g_ChainRoot g = root) kept then (Inr [], m1)
                 else (let (ps, m2) = purge_chain root clk ord2 m1 in (Inr ps, m2)))))"

section \<open>The sweeps\<close>

definition terminal :: "document \<Rightarrow> bool" where
  "terminal d \<longleftrightarrow> d_Status d = ''expired'' \<or> d_Status d = ''deleted''"

primrec sweep_rows ::
  "time \<Rightarrow> (string \<Rightarrow> time) \<Rightarrow> int \<Rightarrow> string list \<Rightarrow> purged_ref list \<Rightarrow> memory \<Rightarrow>
     purged_ref list \<times> memory" where
  "sweep_rows now clk limit [] purged m = (purged, m)"
| "sweep_rows now clk limit (k # ks) purged m =
     (case rows m k of
        None \<Rightarrow> sweep_rows now clk limit ks purged m
      | Some d \<Rightarrow>
          if limit > 0 \<and> int (length purged) \<ge> limit then (purged, m)
          else if d_LegalHold d \<or> d_Status d = ''deleted'' \<or> d_Status d = ''expired''
          then sweep_rows now clk limit ks purged m
          else case d_RetentionUntil d of
            None \<Rightarrow> sweep_rows now clk limit ks purged m
          | Some u \<Rightarrow>
              if u < now
              then sweep_rows now clk limit ks (purged @ [purged_of d])
                     (put_row (purge_row ''expired'' (clk k) d) m)
              else sweep_rows now clk limit ks purged m)"

definition mem_SweepRetention ::
  "string list \<Rightarrow> (string \<Rightarrow> time) \<Rightarrow> time \<Rightarrow> int \<Rightarrow> memory \<Rightarrow> (purged_ref list, memory) res" where
  "mem_SweepRetention ord clk now limit m =
     (let (ps, m') = sweep_rows now clk limit ord [] m in (Inr ps, m'))"

primrec history_rows :: "time \<Rightarrow> int \<Rightarrow> string list \<Rightarrow> int \<Rightarrow> memory \<Rightarrow> int \<times> memory" where
  "history_rows before limit [] removed m = (removed, m)"
| "history_rows before limit (k # ks) removed m =
     (case rows m k of
        None \<Rightarrow> history_rows before limit ks removed m
      | Some d \<Rightarrow>
          if removed \<ge> limit then (removed, m)
          else if (d_Status d = ''expired'' \<or> d_Status d = ''deleted'') \<and> \<not> d_LegalHold d
                  \<and> d_UpdatedAt d < before
          then history_rows before limit ks (removed + 1) (drop_row k m)
          else history_rows before limit ks removed m)"

text \<open>Keep the access entries whose chain still has a row.\<close>

definition drop_orphan_acl :: "string list \<Rightarrow> memory \<Rightarrow> memory" where
  "drop_orphan_acl ord m =
     m\<lparr>acl := filter (\<lambda>g. list_ex (\<lambda>d. chainRootID d = g_ChainRoot g) (range_vals ord (rows m))) (acl m)\<rparr>"

definition mem_SweepHistory ::
  "string list \<Rightarrow> string list \<Rightarrow> time \<Rightarrow> int \<Rightarrow> memory \<Rightarrow> (int, memory) res" where
  "mem_SweepHistory ord1 ord2 before limit m =
     (let lim = (if limit \<le> 0 then 500 else limit);
          (removed, m') = history_rows before lim ord1 0 m
      in (Inr removed, drop_orphan_acl ord2 m'))"

primrec drop_owned :: "string \<Rightarrow> string \<Rightarrow> string list \<Rightarrow> int \<Rightarrow> memory \<Rightarrow> int \<times> memory" where
  "drop_owned owner root [] removed m = (removed, m)"
| "drop_owned owner root (k # ks) removed m =
     (case rows m k of
        None \<Rightarrow> drop_owned owner root ks removed m
      | Some d \<Rightarrow>
          if chainRootID d = root \<and> d_Owner d = owner
          then drop_owned owner root ks (removed + 1) (drop_row k m)
          else drop_owned owner root ks removed m)"

definition mem_DeleteHistoryChain ::
  "string list \<Rightarrow> string list \<Rightarrow> string \<Rightarrow> string \<Rightarrow> memory \<Rightarrow> (unit, memory) res" where
  "mem_DeleteHistoryChain ord1 ord2 owner root m =
     (if list_ex (\<lambda>d. chainRootID d = root \<and>
            ((d_Status d \<noteq> ''expired'' \<and> d_Status d \<noteq> ''deleted'') \<or> d_LegalHold d))
           (range_vals ord1 (rows m))
      then (Inl ErrChainLive, m)
      else
        (let (removed, m') = drop_owned owner root ord2 0 m
         in if removed = 0 then (Inl ErrNotFound, m') else (Inr (), drop_chain_acl root m')))"

end
