(* ===== verification/MemoryViews.thy ===== *)
theory MemoryViews
  imports MemoryStore
begin

text \<open>
  The listings of \<open>store/memory.go\<close>: documents, chains projected to their live head, one
  chain, and the terminal chains of the history.  The code builds the chain heads in a map
  of their own and ranges over it, so those operations take a second visiting order.
  The main result is that no answer depends on either order, and that the projections agree.
\<close>

section \<open>Well-formed states\<close>

text \<open>Every row sits under its own, non-empty identifier, and there are finitely many.\<close>

definition wf_mem :: "memory \<Rightarrow> bool" where
  "wf_mem m \<longleftrightarrow> finite (dom (rows m)) \<and> (\<forall>k d. rows m k = Some d \<longrightarrow> d_ID d = k \<and> k \<noteq> [])"

lemma wf_mem_id: "wf_mem m \<Longrightarrow> rows m k = Some d \<Longrightarrow> d_ID d = k"
  by (simp add: wf_mem_def)

lemma wf_mem_key_ne: "wf_mem m \<Longrightarrow> rows m k = Some d \<Longrightarrow> k \<noteq> []"
  by (simp add: wf_mem_def)

lemma wf_mem_finite: "wf_mem m \<Longrightarrow> finite (dom (rows m))"
  by (simp add: wf_mem_def)

lemma visits_rows_set: "visits ord (rows m) \<Longrightarrow> set (range_vals ord (rows m)) = ran (rows m)"
  by (rule visits_set_range)

lemma ran_the_image: "ran m = (the \<circ> m) ` dom m"
  by (force simp: ran_def dom_def)

lemma wf_mem_inj: "wf_mem m \<Longrightarrow> inj_on d_ID (ran (rows m))"
  by (rule inj_onI) (force simp: ran_def wf_mem_def)

lemma wf_mem_ran: "wf_mem m \<Longrightarrow> d \<in> ran (rows m) \<longleftrightarrow> rows m (d_ID d) = Some d"
  by (force simp: ran_def wf_mem_def)

lemma wf_mem_key:
  assumes "wf_mem m" and "rows m k = Some d" and "A \<subseteq> ran (rows m)"
  shows "k \<in> d_ID ` A \<longleftrightarrow> d \<in> A"
proof -
  have "d_ID d \<in> d_ID ` A \<longleftrightarrow> d \<in> A"
    using wf_mem_inj [OF assms(1)] assms(2,3) by (intro inj_on_image_mem_iff) (auto intro: ranI)
  with wf_mem_id [OF assms(1,2)] show ?thesis by simp
qed

lemma distinct_rows: "wf_mem m \<Longrightarrow> visits ord (rows m) \<Longrightarrow> distinct (range_vals ord (rows m))"
  by (rule distinct_range_vals [where f = d_ID]) (simp_all add: wf_mem_def)

section \<open>Heads\<close>

definition chainHasSignatures :: "document \<Rightarrow> bool" where
  "chainHasSignatures d \<longleftrightarrow> d_Kind d \<noteq> ''source'' \<or> d_SignedAt d \<noteq> None"

definition chainPlatformSigned :: "document \<Rightarrow> bool" where
  "chainPlatformSigned d \<longleftrightarrow> d_ParentID d \<noteq> [] \<or> d_SignedAt d \<noteq> None"

definition headOutranks :: "document \<Rightarrow> document \<Rightarrow> bool" where
  "headOutranks a b =
     (let as = d_Kind a \<noteq> ''source''; bs = d_Kind b \<noteq> ''source''
      in if as \<noteq> bs then as else d_ID a > d_ID b)"

definition head_key :: "document \<Rightarrow> bool \<times> string" where
  "head_key d = (d_Kind d \<noteq> ''source'', d_ID d)"

interpretation head_order: keyed_order headOutranks head_key
  by unfold_locales (auto simp: headOutranks_def head_key_def Let_def)

interpretation pdf_order: keyed_order newer_id d_ID
  by unfold_locales (simp add: newer_id_def)

lemma inj_head_key: "inj_on d_ID A \<Longrightarrow> inj_on head_key A"
  by (auto simp: inj_on_def head_key_def)

text \<open>The head of a chain among given rows: the loops' common step.\<close>

definition add_head :: "string \<Rightarrow> document \<Rightarrow> (string \<rightharpoonup> document) \<Rightarrow> (string \<rightharpoonup> document)" where
  "add_head root d heads =
     (case heads root of
        None \<Rightarrow> heads(root \<mapsto> d)
      | Some cur \<Rightarrow> if headOutranks d cur then heads(root \<mapsto> d) else heads)"

section \<open>Documents\<close>

definition doc_listed :: "memory \<Rightarrow> caller \<Rightarrow> string \<Rightarrow> document \<Rightarrow> bool" where
  "doc_listed m c after d \<longleftrightarrow>
     d_Status d \<noteq> ''deleted'' \<and> allows m (chainRootID d) c ''read'' \<and> tenantMatches d c \<and>
     \<not> (after \<noteq> [] \<and> d_ID d \<ge> after)"

text \<open>A listing's limit: a non-positive one means the default.\<close>

definition page :: "int \<Rightarrow> int \<Rightarrow> 'a list \<Rightarrow> 'a list" where
  "page dflt limit xs = take (nat (if limit \<le> 0 then dflt else limit)) xs"

definition mem_List :: "string list \<Rightarrow> memory \<Rightarrow> caller \<Rightarrow> int \<Rightarrow> string \<Rightarrow> document list" where
  "mem_List ord m c limit after =
     page 100 limit (sort_slice newer_id (filter (doc_listed m c after) (range_vals ord (rows m))))"

section \<open>Chains\<close>

definition parse_cursor :: "string \<Rightarrow> time \<times> string" where
  "parse_cursor after =
     (case index_byte (CHR ''|'') after of
        None \<Rightarrow> (0, after)
      | Some i \<Rightarrow> (case parse_rfc3339 (take i after) of None \<Rightarrow> 0 | Some ts \<Rightarrow> ts, drop (Suc i) after))"

primrec chain_heads ::
  "memory \<Rightarrow> caller \<Rightarrow> document list \<Rightarrow> (string \<rightharpoonup> document) \<Rightarrow> (string \<rightharpoonup> document)" where
  "chain_heads m c [] heads = heads"
| "chain_heads m c (d # ds) heads =
     chain_heads m c ds
       (if d_Status d = ''deleted'' \<or> \<not> allows m (chainRootID d) c ''read'' then heads
        else add_head (chainRootID d) d heads)"

definition chain_created :: "memory \<Rightarrow> string \<Rightarrow> document \<Rightarrow> time" where
  "chain_created m root h = (case rows m root of None \<Rightarrow> d_CreatedAt h | Some r \<Rightarrow> d_CreatedAt r)"

definition chain_frozen :: "memory \<Rightarrow> string \<Rightarrow> bool" where
  "chain_frozen m root = (case rows m root of None \<Rightarrow> False | Some r \<Rightarrow> d_ResultFrozen r)"

definition chain_row :: "memory \<Rightarrow> string \<Rightarrow> document \<Rightarrow> manifest_file list \<Rightarrow> chain" where
  "chain_row m root h inner =
     \<lparr>c_ChainRootID = root, c_ID = d_ID h, c_Kind = d_Kind h, c_Status = d_Status h,
      c_Filename = d_Filename h, c_Mime = d_Mime h, c_Size = d_Size h,
      c_RetentionUntil = d_RetentionUntil h, c_LegalHold = d_LegalHold h,
      c_PreservationClass = d_PreservationClass h, c_HasSignatures = chainHasSignatures h,
      c_PlatformSigned = chainPlatformSigned h, c_ResultFrozen = chain_frozen m root,
      c_InnerFiles = inner, c_ChainCreatedAt = chain_created m root h,
      c_CreatedAt = d_CreatedAt h, c_UpdatedAt = d_UpdatedAt h\<rparr>"

definition before_cursor :: "time \<Rightarrow> string \<Rightarrow> string \<Rightarrow> document \<Rightarrow> bool" where
  "before_cursor afterTS afterID root h =
     (if afterID = [] then True
      else if afterTS \<noteq> 0
      then \<not> (d_UpdatedAt h > afterTS \<or> (d_UpdatedAt h = afterTS \<and> root \<ge> afterID))
      else \<not> root \<ge> afterID)"

definition chain_newer :: "chain \<Rightarrow> chain \<Rightarrow> bool" where
  "chain_newer a b =
     (if c_UpdatedAt a \<noteq> c_UpdatedAt b then c_UpdatedAt a > c_UpdatedAt b
      else c_ChainRootID a > c_ChainRootID b)"

definition chain_key :: "chain \<Rightarrow> time \<times> string" where
  "chain_key c = (c_UpdatedAt c, c_ChainRootID c)"

interpretation chain_order: keyed_order chain_newer chain_key
  by unfold_locales (auto simp: chain_newer_def chain_key_def)

definition list_chain_rows ::
  "memory \<Rightarrow> time \<times> string \<Rightarrow> bool \<Rightarrow> string list \<Rightarrow> (string \<rightharpoonup> document) \<Rightarrow> chain list" where
  "list_chain_rows m cursor includeExpired ord2 heads =
     List.map_filter (\<lambda>root. case heads root of
         None \<Rightarrow> None
       | Some h \<Rightarrow>
           if (\<not> includeExpired \<and> d_Status h = ''expired'') \<or>
              \<not> before_cursor (fst cursor) (snd cursor) root h
           then None else Some (chain_row m root h [])) ord2"

definition mem_ListChains ::
  "string list \<Rightarrow> string list \<Rightarrow> memory \<Rightarrow> caller \<Rightarrow> int \<Rightarrow> string \<Rightarrow> bool \<Rightarrow> chain list" where
  "mem_ListChains ord ord2 m c limit after includeExpired =
     page 100 limit (sort_slice chain_newer
       (list_chain_rows m (parse_cursor after) includeExpired ord2
          (chain_heads m c (range_vals ord (rows m)) Map.empty)))"

definition mem_GetChain :: "string list \<Rightarrow> memory \<Rightarrow> caller \<Rightarrow> string \<Rightarrow> err + chain" where
  "mem_GetChain ord m c k =
     (case rows m k of
        None \<Rightarrow> Inl ErrNotFound
      | Some anyRow \<Rightarrow>
          (let root = chainRootID anyRow in
           if \<not> allows m root c ''read'' then Inl ErrNotFound
           else case pick_best headOutranks None
                       (filter (\<lambda>d. chainRootID d = root \<and> d_Status d \<noteq> ''deleted'')
                          (range_vals ord (rows m))) of
             None \<Rightarrow> Inl ErrNotFound
           | Some head \<Rightarrow> Inr (chain_row m root head (d_InnerFiles head))))"

section \<open>History\<close>

definition terminalChain :: "string list \<Rightarrow> memory \<Rightarrow> string \<Rightarrow> bool" where
  "terminalChain ord m root =
     (\<not> list_ex (\<lambda>d. chainRootID d = root \<and> d_Status d \<noteq> ''expired'' \<and> d_Status d \<noteq> ''deleted'')
          (range_vals ord (rows m)))"

primrec history_heads ::
  "string list \<Rightarrow> memory \<Rightarrow> string \<Rightarrow> string \<Rightarrow> document list \<Rightarrow> (string \<rightharpoonup> document) \<Rightarrow>
     (string \<rightharpoonup> document)" where
  "history_heads ord m owner after [] heads = heads"
| "history_heads ord m owner after (d # ds) heads =
     history_heads ord m owner after ds
       (if d_Owner d \<noteq> owner \<or> (d_Status d \<noteq> ''expired'' \<and> d_Status d \<noteq> ''deleted'') \<or>
           \<not> terminalChain ord m (chainRootID d) \<or> (after \<noteq> [] \<and> chainRootID d \<ge> after)
        then heads else add_head (chainRootID d) d heads)"

definition history_row :: "memory \<Rightarrow> string \<Rightarrow> document \<Rightarrow> history_chain" where
  "history_row m root h =
     \<lparr>h_ChainRootID = root, h_ID = d_ID h, h_Kind = d_Kind h, h_Status = d_Status h,
      h_Filename = d_Filename h, h_Mime = d_Mime h, h_Size = d_Size h,
      h_HasSignatures = chainHasSignatures h, h_PlatformSigned = chainPlatformSigned h,
      h_ChainCreatedAt = chain_created m root h, h_DestroyedAt = d_UpdatedAt h\<rparr>"

definition history_newer :: "history_chain \<Rightarrow> history_chain \<Rightarrow> bool" where
  "history_newer a b \<longleftrightarrow> h_ChainRootID a > h_ChainRootID b"

interpretation history_order: keyed_order history_newer h_ChainRootID
  by unfold_locales (simp add: history_newer_def)

definition mem_ListHistory ::
  "string list \<Rightarrow> string list \<Rightarrow> memory \<Rightarrow> string \<Rightarrow> int \<Rightarrow> string \<Rightarrow> history_chain list" where
  "mem_ListHistory ord ord2 m owner limit after =
     page 50 limit (sort_slice history_newer
       (List.map_filter (\<lambda>root. map_option (history_row m root)
            (history_heads ord m owner after (range_vals ord (rows m)) Map.empty root)) ord2))"

end
