(* ===== verification/StoreLemmas.thy ===== *)
theory StoreLemmas
  imports MemoryViews
begin

text \<open>
  The store's loops in closed form: what each of them leaves in the row map and in the access
  list, and which references it returns.  The invariants and the properties of the operations
  are read off these equations.
\<close>

section \<open>Single updates\<close>

lemma rows_put_row [simp]: "rows (put_row d m) = (rows m)(d_ID d \<mapsto> d)"
  by (simp add: put_row_def)

lemma acl_put_row [simp]: "acl (put_row d m) = acl m"
  by (simp add: put_row_def)

lemma rows_drop_row [simp]: "rows (drop_row k m) = (rows m)(k := None)"
  by (simp add: drop_row_def)

lemma acl_drop_row [simp]: "acl (drop_row k m) = acl m"
  by (simp add: drop_row_def)

lemma rows_drop_chain_acl [simp]: "rows (drop_chain_acl r m) = rows m"
  by (simp add: drop_chain_acl_def)

lemma acl_drop_chain_acl [simp]: "acl (drop_chain_acl r m) = filter (\<lambda>g. g_ChainRoot g \<noteq> r) (acl m)"
  by (simp add: drop_chain_acl_def)

lemma purge_row_simps [simp]:
  "d_ID (purge_row st t d) = d_ID d" "d_Kind (purge_row st t d) = d_Kind d"
  "d_ParentID (purge_row st t d) = d_ParentID d" "d_Owner (purge_row st t d) = d_Owner d"
  "d_LegalHold (purge_row st t d) = d_LegalHold d" "d_Status (purge_row st t d) = st"
  "d_StorageRef (purge_row st t d) = []" "d_EncryptionKeyRef (purge_row st t d) = []"
  "d_RetentionUntil (purge_row st t d) = d_RetentionUntil d"
  "d_ContentHash (purge_row st t d) = d_ContentHash d" "d_UpdatedAt (purge_row st t d) = t"
  by (simp_all add: purge_row_def)

lemma chainRootID_purge [simp]: "chainRootID (purge_row st t d) = chainRootID d"
  by (simp add: chainRootID_def)

lemma replace_row_simps [simp]:
  "d_ID (replace_row t r d) = d_ID d" "d_Kind (replace_row t r d) = d_Kind d"
  "d_ParentID (replace_row t r d) = d_ParentID d" "d_Owner (replace_row t r d) = d_Owner d"
  "d_LegalHold (replace_row t r d) = d_LegalHold d" "d_Status (replace_row t r d) = ''signed''"
  "d_StorageRef (replace_row t r d) = ri_StorageRef r" "d_ContentHash (replace_row t r d) = ri_ContentHash r"
  "d_EncryptionKeyRef (replace_row t r d) = ri_EncryptionKeyRef r" "d_Size (replace_row t r d) = ri_Size r"
  "d_RetentionUntil (replace_row t r d) = d_RetentionUntil d"
  by (simp_all add: replace_row_def)

lemma rebundle_row_simps [simp]:
  "d_ID (rebundle_row t r d) = d_ID d" "d_Kind (rebundle_row t r d) = d_Kind d"
  "d_ParentID (rebundle_row t r d) = d_ParentID d" "d_Owner (rebundle_row t r d) = d_Owner d"
  "d_LegalHold (rebundle_row t r d) = d_LegalHold d" "d_Status (rebundle_row t r d) = d_Status d"
  "d_StorageRef (rebundle_row t r d) = rb_StorageRef r" "d_ContentHash (rebundle_row t r d) = rb_ContentHash r"
  "d_EncryptionKeyRef (rebundle_row t r d) = rb_EncryptionKeyRef r" "d_Size (rebundle_row t r d) = rb_Size r"
  "d_RetentionUntil (rebundle_row t r d) = d_RetentionUntil d"
  by (simp_all add: rebundle_row_def)

lemma insert_row_simps [simp]:
  "d_ID (insert_row k t i) = k" "d_ParentID (insert_row k t i) = ii_ParentID i"
  "d_Kind (insert_row k t i) = or_default (ii_Kind i) ''source''" "d_LegalHold (insert_row k t i) = False"
  "d_StorageRef (insert_row k t i) = ii_StorageRef i" "d_EncryptionKeyRef (insert_row k t i) = ii_EncryptionKeyRef i"
  "d_ContentHash (insert_row k t i) = ii_ContentHash i" "d_Size (insert_row k t i) = ii_Size i"
  "d_Status (insert_row k t i) = or_default (ii_Status i) ''received''" "d_Owner (insert_row k t i) = ii_Owner i"
  "d_RetentionUntil (insert_row k t i) = ii_RetentionUntil i" "d_TenantID (insert_row k t i) = ii_TenantID i"
  "d_ResultFrozen (insert_row k t i) = False"
  by (simp_all add: insert_row_def)

lemma bundle_row_simps [simp]:
  "d_ID (bundle_row k t i) = k" "d_ParentID (bundle_row k t i) = []"
  "d_Kind (bundle_row k t i) = ''container''" "d_LegalHold (bundle_row k t i) = False"
  "d_StorageRef (bundle_row k t i) = bi_StorageRef i" "d_EncryptionKeyRef (bundle_row k t i) = bi_EncryptionKeyRef i"
  "d_ContentHash (bundle_row k t i) = bi_ContentHash i" "d_Size (bundle_row k t i) = bi_Size i"
  "d_Status (bundle_row k t i) = ''received''" "d_Owner (bundle_row k t i) = bi_Owner i"
  "d_RetentionUntil (bundle_row k t i) = Some (bi_RetentionUntil i)"
  by (simp_all add: bundle_row_def)

lemma purged_of_simps [simp]:
  "p_ID (purged_of d) = d_ID d" "p_StorageRef (purged_of d) = d_StorageRef d"
  "p_EncryptionKeyRef (purged_of d) = d_EncryptionKeyRef d"
  by (simp_all add: purged_of_def)

section \<open>Absorbing\<close>

lemma rows_absorb_rows: "rows (absorb_rows ds m) = (rows m) |` (- d_ID ` set ds)"
  by (induction ds arbitrary: m) (auto simp: restrict_map_def fun_eq_iff)

lemma acl_absorb_rows: "acl (absorb_rows ds m) = filter (\<lambda>g. g_ChainRoot g \<notin> d_ID ` set ds) (acl m)"
  by (induction ds arbitrary: m) (auto intro: filter_cong)

lemma absorbSource_Inr:
  "absorbSource m k owner = Inr d \<Longrightarrow>
     rows m k = Some d \<and> d_Owner d = owner \<and> \<not> terminal d \<and>
     Bundleable (d_Kind d) (d_Status d) \<and> \<not> d_LegalHold d"
  by (auto simp: absorbSource_def terminal_def split: option.splits if_splits)

lemma bundle_sources_Inr:
  "bundle_sources m owner seen ks = Inr ds \<Longrightarrow>
     list_all2 (\<lambda>k d. absorbSource m k owner = Inr d) ks ds \<and> distinct ks \<and> set ks \<inter> set seen = {}"
  by (induction ks arbitrary: ds seen) (fastforce split: if_splits sum.splits)+

lemma rebundle_sources_Inr:
  "rebundle_sources m owner ks = Inr ds \<Longrightarrow> list_all2 (\<lambda>k d. absorbSource m k owner = Inr d) ks ds"
  by (induction ks arbitrary: ds) (auto split: sum.splits)

lemma absorbed_rows:
  assumes "list_all2 (\<lambda>k d. absorbSource m k owner = Inr d) ks ds" and "d \<in> set ds"
  shows "\<exists>k \<in> set ks. rows m k = Some d \<and> d_Owner d = owner \<and> \<not> terminal d \<and>
           Bundleable (d_Kind d) (d_Status d) \<and> \<not> d_LegalHold d"
  using assms
  by (induction ks ds rule: list_all2_induct) (auto dest: absorbSource_Inr)

lemma absorbed_map:
  assumes "list_all2 (\<lambda>k d. absorbSource m k owner = Inr d) ks ds"
  shows "map (rows m) ks = map Some ds"
  using assms by (induction ks ds rule: list_all2_induct) (auto dest: absorbSource_Inr)

lemma absorbed_keys:
  assumes "wf_mem m" and "list_all2 (\<lambda>k d. absorbSource m k owner = Inr d) ks ds"
  shows "d_ID ` set ds = set ks"
  using assms(2)
  by (induction ks ds rule: list_all2_induct) (auto dest!: absorbSource_Inr simp: wf_mem_id [OF assms(1)])

section \<open>Purging\<close>

text \<open>The rows with the given keys, purged; all others as they are.\<close>

definition purge_keys :: "string \<Rightarrow> (string \<Rightarrow> time) \<Rightarrow> string set \<Rightarrow> memory \<Rightarrow> memory" where
  "purge_keys st clk ks m =
     m\<lparr>rows := (\<lambda>k. if k \<in> ks then map_option (purge_row st (clk k)) (rows m k) else rows m k)\<rparr>"

lemma purge_keys_empty [simp]: "purge_keys st clk {} m = m"
  by (simp add: purge_keys_def)

lemma acl_purge_keys [simp]: "acl (purge_keys st clk ks m) = acl m"
  by (simp add: purge_keys_def)

lemma rows_purge_keys:
  "rows (purge_keys st clk ks m) k = (if k \<in> ks then map_option (purge_row st (clk k)) (rows m k) else rows m k)"
  by (simp add: purge_keys_def)

lemma purge_keys_put:
  "rows m k = Some d \<Longrightarrow> d_ID d = k \<Longrightarrow> k \<notin> ks \<Longrightarrow>
     purge_keys st clk ks (put_row (purge_row st (clk k) d) m) = purge_keys st clk (insert k ks) m"
  by (auto simp: purge_keys_def put_row_def fun_eq_iff)

lemma range_vals_update:
  "k \<notin> set ks \<Longrightarrow> range_vals ks (m(k := v)) = range_vals ks m"
  by (induction ks) (auto split: option.split)

lemma purge_chain_eq:
  assumes "wf_mem m" and "distinct ks"
  shows "purge_chain root clk ks m =
    (let ps = filter (\<lambda>r. in_chain root r \<and> d_Status r \<noteq> ''deleted'') (range_vals ks (rows m))
     in (map purged_of ps, purge_keys ''deleted'' clk (d_ID ` set ps) m))"
  using assms
proof (induction ks arbitrary: m)
  case Nil
  then show ?case by simp
next
  case (Cons k ks)
  show ?case
  proof (cases "rows m k")
    case None
    with Cons show ?thesis by simp
  next
    case (Some r)
    with Cons.prems have r: "d_ID r = k" "k \<notin> set ks" by (simp_all add: wf_mem_def)
    show ?thesis
    proof (cases "in_chain root r \<and> d_Status r \<noteq> ''deleted''")
      case True
      let ?m = "put_row (purge_row ''deleted'' (clk k) r) m"
      let ?ps = "filter (\<lambda>r. in_chain root r \<and> d_Status r \<noteq> ''deleted'') (range_vals ks (rows m))"
      have "wf_mem ?m" using Cons.prems Some r by (auto simp: wf_mem_def)
      moreover have "range_vals ks (rows ?m) = range_vals ks (rows m)"
        using r by (simp add: range_vals_update)
      ultimately have "purge_chain root clk ks ?m
          = (map purged_of ?ps, purge_keys ''deleted'' clk (d_ID ` set ?ps) ?m)"
        using Cons by (simp add: Let_def)
      moreover have "k \<notin> d_ID ` set ?ps"
        using Cons.prems r by (auto simp: set_range_vals wf_mem_def)
      ultimately show ?thesis
        using Some True r by (simp add: purge_keys_put Let_def)
    next
      case False
      then have "purge_chain root clk (k # ks) m = purge_chain root clk ks m"
        using Some by auto
      with False Some Cons show ?thesis by (auto simp: Let_def)
    qed
  qed
qed

section \<open>The retention sweep\<close>

definition due :: "time \<Rightarrow> document \<Rightarrow> bool" where
  "due now d \<longleftrightarrow> \<not> d_LegalHold d \<and> \<not> terminal d \<and> (\<exists>u. d_RetentionUntil d = Some u \<and> u < now)"

text \<open>How many more rows a batch takes; no positive limit means all of them.\<close>

definition take_limit :: "int \<Rightarrow> nat \<Rightarrow> 'a list \<Rightarrow> 'a list" where
  "take_limit limit used xs = (if limit \<le> 0 then xs else take (nat limit - used) xs)"

lemma sweep_rows_eq:
  assumes "wf_mem m" and "distinct ks"
  shows "sweep_rows now clk limit ks purged m =
    (let ps = take_limit limit (length purged) (filter (due now) (range_vals ks (rows m)))
     in (purged @ map purged_of ps, purge_keys ''expired'' clk (d_ID ` set ps) m))"
  using assms
proof (induction ks arbitrary: m purged)
  case Nil
  then show ?case by (simp add: take_limit_def)
next
  case (Cons k ks)
  show ?case
  proof (cases "rows m k")
    case None
    with Cons show ?thesis by simp
  next
    case (Some r)
    with Cons.prems have r: "d_ID r = k" "k \<notin> set ks" by (simp_all add: wf_mem_def)
    consider (full) "limit > 0 \<and> int (length purged) \<ge> limit"
      | (due) "\<not> (limit > 0 \<and> int (length purged) \<ge> limit)" "due now r"
      | (skip) "\<not> (limit > 0 \<and> int (length purged) \<ge> limit)" "\<not> due now r" by blast
    then show ?thesis
    proof cases
      case full
      then have "nat limit - length purged = 0" by (simp add: nat_le_iff)
      with full Some show ?thesis by (simp add: take_limit_def Let_def)
    next
      case due
      let ?m = "put_row (purge_row ''expired'' (clk k) r) m"
      let ?ps = "take_limit limit (Suc (length purged)) (filter (due now) (range_vals ks (rows m)))"
      have "wf_mem ?m" using Cons.prems Some r by (auto simp: wf_mem_def)
      moreover have "range_vals ks (rows ?m) = range_vals ks (rows m)"
        using r by (simp add: range_vals_update)
      ultimately have "sweep_rows now clk limit ks (purged @ [purged_of r]) ?m
          = ((purged @ [purged_of r]) @ map purged_of ?ps, purge_keys ''expired'' clk (d_ID ` set ?ps) ?m)"
        using Cons by (simp add: Let_def)
      moreover have "k \<notin> d_ID ` set ?ps"
      proof -
        have "set ?ps \<subseteq> set (range_vals ks (rows m))"
          by (auto simp: take_limit_def dest: in_set_takeD)
        then show ?thesis using Cons.prems r by (fastforce simp: set_range_vals wf_mem_def)
      qed
      moreover have "take_limit limit (length purged) (filter (due now) (range_vals (k # ks) (rows m))) = r # ?ps"
        using Some due by (auto simp: take_limit_def take_Cons' nat_diff_distrib Suc_diff_Suc)
      moreover have "sweep_rows now clk limit (k # ks) purged m
          = sweep_rows now clk limit ks (purged @ [purged_of r]) ?m"
        using Some due by (auto simp: due_def terminal_def)
      ultimately show ?thesis
        using Some r by (simp add: purge_keys_put Let_def del: range_vals_simps sweep_rows.simps)
    next
      case skip
      then have "sweep_rows now clk limit (k # ks) purged m = sweep_rows now clk limit ks purged m"
        using Some by (auto simp: due_def terminal_def split: option.split)
      with skip Some Cons show ?thesis by (simp add: Let_def)
    qed
  qed
qed

section \<open>The history sweep\<close>

definition old_record :: "time \<Rightarrow> document \<Rightarrow> bool" where
  "old_record before d \<longleftrightarrow> terminal d \<and> \<not> d_LegalHold d \<and> d_UpdatedAt d < before"

definition drop_keys :: "string set \<Rightarrow> memory \<Rightarrow> memory" where
  "drop_keys ks m = m\<lparr>rows := rows m |` (- ks)\<rparr>"

lemma drop_keys_empty [simp]: "drop_keys {} m = m"
  by (simp add: drop_keys_def restrict_map_def)

lemma acl_drop_keys [simp]: "acl (drop_keys ks m) = acl m"
  by (simp add: drop_keys_def)

lemma rows_drop_keys [simp]: "rows (drop_keys ks m) = rows m |` (- ks)"
  by (simp add: drop_keys_def)

lemma drop_keys_insert: "drop_keys ks (drop_row k m) = drop_keys (insert k ks) m"
  by (auto simp: drop_keys_def drop_row_def restrict_map_def fun_eq_iff)

lemma wf_mem_drop_row: "wf_mem m \<Longrightarrow> wf_mem (drop_row k m)"
  by (auto simp: wf_mem_def)

lemma history_rows_eq:
  assumes "wf_mem m" and "distinct ks"
  shows "history_rows before limit ks removed m =
    (let ps = take (nat (limit - removed)) (filter (old_record before) (range_vals ks (rows m)))
     in (removed + int (length ps), drop_keys (d_ID ` set ps) m))"
  using assms
proof (induction ks arbitrary: m removed)
  case Nil
  then show ?case by simp
next
  case (Cons k ks)
  show ?case
  proof (cases "rows m k")
    case None
    with Cons show ?thesis by simp
  next
    case (Some r)
    with Cons.prems have r: "d_ID r = k" "k \<notin> set ks" by (simp_all add: wf_mem_def)
    consider (full) "removed \<ge> limit" | (old) "removed < limit" "old_record before r"
      | (skip) "removed < limit" "\<not> old_record before r" by linarith
    then show ?thesis
    proof cases
      case full
      with Some show ?thesis by (simp add: Let_def)
    next
      case old
      have "range_vals ks (rows (drop_row k m)) = range_vals ks (rows m)"
        using r by (simp add: range_vals_update)
      with Cons wf_mem_drop_row [OF Cons.prems(1)] have
        "history_rows before limit ks (removed + 1) (drop_row k m) =
          (let ps = take (nat (limit - (removed + 1))) (filter (old_record before) (range_vals ks (rows m)))
           in (removed + 1 + int (length ps), drop_keys (d_ID ` set ps) (drop_row k m)))"
        by simp
      moreover have "nat (limit - removed) = Suc (nat (limit - (removed + 1)))"
        using old by simp
      moreover have "history_rows before limit (k # ks) removed m
          = history_rows before limit ks (removed + 1) (drop_row k m)"
        using Some old by (auto simp: old_record_def terminal_def)
      ultimately show ?thesis
        using Some old r by (simp add: Let_def drop_keys_insert del: history_rows.simps)
    next
      case skip
      then have "history_rows before limit (k # ks) removed m = history_rows before limit ks removed m"
        using Some by (auto simp: old_record_def terminal_def)
      with skip Some Cons show ?thesis by (simp add: Let_def)
    qed
  qed
qed

lemma drop_owned_eq:
  assumes "wf_mem m" and "distinct ks"
  shows "drop_owned owner root ks removed m =
    (let ps = filter (\<lambda>d. chainRootID d = root \<and> d_Owner d = owner) (range_vals ks (rows m))
     in (removed + int (length ps), drop_keys (d_ID ` set ps) m))"
  using assms
proof (induction ks arbitrary: m removed)
  case Nil
  then show ?case by simp
next
  case (Cons k ks)
  show ?case
  proof (cases "rows m k")
    case None
    with Cons show ?thesis by simp
  next
    case (Some r)
    with Cons.prems have r: "d_ID r = k" "k \<notin> set ks" by (simp_all add: wf_mem_def)
    have "range_vals ks (rows (drop_row k m)) = range_vals ks (rows m)"
      using r by (simp add: range_vals_update)
    with Cons wf_mem_drop_row [OF Cons.prems(1)] Some r show ?thesis
      by (auto simp: Let_def drop_keys_insert)
  qed
qed

lemma drop_keys_d_ID:
  assumes "wf_mem m" and "visits ord (rows m)" and "set ps \<subseteq> set (range_vals ord (rows m))"
  shows "rows (drop_keys (d_ID ` set ps) m) k =
    (case rows m k of None \<Rightarrow> None | Some d \<Rightarrow> if d \<in> set ps then None else Some d)"
proof (cases "rows m k")
  case None
  then show ?thesis by (simp add: restrict_map_def)
next
  case (Some d)
  with assms(1) have "d_ID d = k" by (rule wf_mem_id)
  moreover have "d_ID d \<in> d_ID ` set ps \<longleftrightarrow> d \<in> set ps"
    using wf_mem_inj [OF assms(1)] Some assms(2,3)
    by (intro inj_on_image_mem_iff) (auto simp: visits_rows_set ran_def)
  ultimately show ?thesis using Some by (simp add: restrict_map_def)
qed

end
