(* ===== verification/StoreInv.thy ===== *)
theory StoreInv
  imports StoreLemmas
begin

text \<open>
  The store as a state machine.  One step is one call of one operation, atomic under the
  store's mutex, with the arguments, visiting orders, fresh identifiers and clock readings of
  that call; concurrent requests interleave at this grain.  The invariants proved here hold in
  every state reachable by any interleaving.
\<close>

section \<open>Operations and steps\<close>

datatype store_op =
    OpInsert "string list" string time insert_input
  | OpReplace time replace_input
  | OpBundle string time bundle_input
  | OpRebundle time rebundle_input
  | OpGrant grant_input
  | OpSetStatus time string string string
  | OpSetResultFreeze time string bool
  | OpExtendRetention time string string time
  | OpRemoveAccess "string list" "string list" "string \<Rightarrow> time" string caller
  | OpSweepRetention "string list" "string \<Rightarrow> time" time int
  | OpSweepHistory "string list" "string list" time int
  | OpDeleteHistory "string list" "string list" string string

primrec store_exec :: "store_op \<Rightarrow> memory \<Rightarrow> memory" where
  "store_exec (OpInsert ord k now inp) m = snd (mem_Insert ord k now inp m)"
| "store_exec (OpReplace now inp) m = snd (mem_ReplaceContainerBlob now inp m)"
| "store_exec (OpBundle k now inp) m = snd (mem_Bundle k now inp m)"
| "store_exec (OpRebundle now inp) m = snd (mem_Rebundle now inp m)"
| "store_exec (OpGrant inp) m = snd (mem_Grant inp m)"
| "store_exec (OpSetStatus now k owner status) m = snd (mem_SetStatus now k owner status m)"
| "store_exec (OpSetResultFreeze now k frozen) m = snd (mem_SetResultFreeze now k frozen m)"
| "store_exec (OpExtendRetention now k owner until) m = snd (mem_ExtendRetention now k owner until m)"
| "store_exec (OpRemoveAccess ord1 ord2 clk k c) m = snd (mem_RemoveAccess ord1 ord2 clk k c m)"
| "store_exec (OpSweepRetention ord clk now limit) m = snd (mem_SweepRetention ord clk now limit m)"
| "store_exec (OpSweepHistory ord1 ord2 before limit) m = snd (mem_SweepHistory ord1 ord2 before limit m)"
| "store_exec (OpDeleteHistory ord1 ord2 owner root) m = snd (mem_DeleteHistoryChain ord1 ord2 owner root m)"

text \<open>
  What the run time guarantees of a call's arguments: loops visit the map they range over, a
  fresh identifier is used nowhere.
\<close>

definition fresh_id :: "string \<Rightarrow> memory \<Rightarrow> bool" where
  "fresh_id k m \<longleftrightarrow>
     k \<noteq> [] \<and> rows m k = None \<and> (\<forall>d \<in> ran (rows m). d_ParentID d \<noteq> k) \<and> (\<forall>g \<in> set (acl m). g_ChainRoot g \<noteq> k)"

primrec op_ok :: "store_op \<Rightarrow> memory \<Rightarrow> bool" where
  "op_ok (OpInsert ord k now inp) m \<longleftrightarrow> visits ord (rows m) \<and> fresh_id k m \<and> ii_ParentID inp \<noteq> k"
| "op_ok (OpReplace now inp) m \<longleftrightarrow> True"
| "op_ok (OpBundle k now inp) m \<longleftrightarrow> fresh_id k m"
| "op_ok (OpRebundle now inp) m \<longleftrightarrow> True"
| "op_ok (OpGrant inp) m \<longleftrightarrow> True"
| "op_ok (OpSetStatus now k owner status) m \<longleftrightarrow> True"
| "op_ok (OpSetResultFreeze now k frozen) m \<longleftrightarrow> True"
| "op_ok (OpExtendRetention now k owner until) m \<longleftrightarrow> True"
| "op_ok (OpRemoveAccess ord1 ord2 clk k c) m \<longleftrightarrow> visits ord1 (rows m) \<and> visits ord2 (rows m)"
| "op_ok (OpSweepRetention ord clk now limit) m \<longleftrightarrow> visits ord (rows m)"
| "op_ok (OpSweepHistory ord1 ord2 before limit) m \<longleftrightarrow> visits ord1 (rows m)"
| "op_ok (OpDeleteHistory ord1 ord2 owner root) m \<longleftrightarrow> visits ord1 (rows m) \<and> visits ord2 (rows m)"

text \<open>
  \<open>SetStatus\<close> is part of the store's interface, but no service or route calls it; a call that
  takes a row out of \<open>deleted\<close> is the one operation that can undo what the others maintain.
\<close>

definition revives :: "store_op \<Rightarrow> memory \<Rightarrow> bool" where
  "revives op m \<longleftrightarrow>
     (\<exists>now k owner status d. op = OpSetStatus now k owner status \<and> rows m k = Some d \<and>
        d_Status d = ''deleted'' \<and> status \<noteq> ''deleted'')"

inductive store_step :: "memory \<Rightarrow> store_op \<Rightarrow> memory \<Rightarrow> bool" where
  call: "op_ok op m \<Longrightarrow> \<not> revives op m \<Longrightarrow> store_step m op (store_exec op m)"

inductive_cases store_stepE: "store_step m op m'"
inductive_simps store_step_iff: "store_step m op m'"

inductive store_reachable :: "memory \<Rightarrow> bool" where
  start: "store_reachable NewMemory"
| step: "store_reachable m \<Longrightarrow> store_step m op m' \<Longrightarrow> store_reachable m'"

section \<open>Edits that keep a row's identity\<close>

definition same_identity :: "document \<Rightarrow> document \<Rightarrow> bool" where
  "same_identity d d' \<longleftrightarrow>
     d_ID d' = d_ID d \<and> d_Kind d' = d_Kind d \<and> d_ParentID d' = d_ParentID d \<and> d_Owner d' = d_Owner d \<and>
     (d_Status d = ''deleted'' \<longrightarrow> d_Status d' = ''deleted'')"

definition evolves :: "memory \<Rightarrow> memory \<Rightarrow> bool" where
  "evolves m m' \<longleftrightarrow> (\<forall>k d'. rows m' k = Some d' \<longrightarrow> (\<exists>d. rows m k = Some d \<and> same_identity d d'))"

lemma same_identity_refl [simp]: "same_identity d d"
  by (simp add: same_identity_def)

lemma evolves_refl [simp]: "evolves m m"
  by (simp add: evolves_def)

lemma evolves_rows: "rows m' = rows m \<Longrightarrow> evolves m m'"
  by (simp add: evolves_def)

lemma same_identity_trans: "same_identity a b \<Longrightarrow> same_identity b c \<Longrightarrow> same_identity a c"
  by (simp add: same_identity_def)

lemma evolves_trans: "evolves m m1 \<Longrightarrow> evolves m1 m2 \<Longrightarrow> evolves m m2"
  unfolding evolves_def by (meson same_identity_trans)

lemma evolves_put: "rows m (d_ID d') = Some d \<Longrightarrow> same_identity d d' \<Longrightarrow> evolves m (put_row d' m)"
  by (simp add: evolves_def)

lemma evolves_restrict: "rows m' = rows m |` A \<Longrightarrow> evolves m m'"
  by (auto simp: evolves_def restrict_map_def split: if_splits)

lemma evolves_purge: "\<forall>k \<in> ks. \<forall>d. rows m k = Some d \<longrightarrow> d_Status d \<noteq> ''deleted'' \<Longrightarrow> evolves m (purge_keys st clk ks m)"
  by (auto simp: evolves_def rows_purge_keys same_identity_def split: if_splits)

lemma evolvesD: "evolves m m' \<Longrightarrow> rows m' k = Some d' \<Longrightarrow> \<exists>d. rows m k = Some d \<and> same_identity d d'"
  by (simp add: evolves_def)

lemma evolves_wf:
  assumes "evolves m m'" and "wf_mem m"
  shows "wf_mem m'"
proof -
  have "dom (rows m') \<subseteq> dom (rows m)" using assms(1) by (auto dest: evolvesD)
  then have "finite (dom (rows m'))" using assms(2) by (auto simp: wf_mem_def intro: finite_subset)
  moreover have "d_ID d' = k \<and> k \<noteq> []" if "rows m' k = Some d'" for k d'
    using evolvesD [OF assms(1) that] assms(2) by (auto simp: wf_mem_def same_identity_def)
  ultimately show ?thesis by (simp add: wf_mem_def)
qed

lemma take_limit_subset: "set (take_limit limit n xs) \<subseteq> set xs"
  by (auto simp: take_limit_def dest: in_set_takeD)

lemma evolves_Replace: "wf_mem m \<Longrightarrow> evolves m (snd (mem_ReplaceContainerBlob now inp m))"
  by (auto simp: mem_ReplaceContainerBlob_def Let_def same_identity_def wf_mem_id
      intro!: evolves_put split: option.splits)

lemma evolves_absorb: "evolves m (absorb_rows ds m)"
  by (rule evolves_restrict) (rule rows_absorb_rows)

lemma evolves_Rebundle: "wf_mem m \<Longrightarrow> evolves m (snd (mem_Rebundle now inp m))"
  by (auto simp: mem_Rebundle_def Let_def same_identity_def wf_mem_id
      intro!: evolves_trans [OF evolves_put evolves_absorb] split: option.splits sum.splits)

lemma evolves_Grant: "evolves m (snd (mem_Grant inp m))"
  by (auto simp: mem_Grant_def Let_def intro!: evolves_rows split: option.splits)

lemma evolves_SetStatus:
  "wf_mem m \<Longrightarrow> \<not> revives (OpSetStatus now k owner status) m \<Longrightarrow>
     evolves m (snd (mem_SetStatus now k owner status m))"
  by (auto simp: mem_SetStatus_def revives_def same_identity_def wf_mem_id
      intro!: evolves_put split: option.splits)

lemma evolves_SetResultFreeze: "wf_mem m \<Longrightarrow> evolves m (snd (mem_SetResultFreeze now k frozen m))"
  by (auto simp: mem_SetResultFreeze_def same_identity_def wf_mem_id
      intro!: evolves_put split: option.splits)

lemma evolves_ExtendRetention: "wf_mem m \<Longrightarrow> evolves m (snd (mem_ExtendRetention now k owner until m))"
  by (auto simp: mem_ExtendRetention_def same_identity_def wf_mem_id
      intro!: evolves_put split: option.splits)

lemma wf_mem_rows: "rows m' = rows m \<Longrightarrow> wf_mem m' = wf_mem m"
  by (simp add: wf_mem_def)

lemma keys_of_vals:
  assumes "wf_mem m" and "set ps \<subseteq> set (range_vals ks (rows m))" and "k \<in> d_ID ` set ps"
    and "rows m k = Some d"
  shows "d \<in> set ps"
proof -
  from assms(3) obtain e where e: "e \<in> set ps" "k = d_ID e" by blast
  with assms(2) obtain l where "rows m l = Some e" by (auto simp: set_range_vals)
  with assms(1) e(2) have "rows m k = Some e" by (simp add: wf_mem_def)
  with e assms(4) show ?thesis by simp
qed

text \<open>The outcome of \<open>RemoveAccess\<close>, branch by branch.\<close>

definition purgeable :: "string \<Rightarrow> string list \<Rightarrow> memory \<Rightarrow> document list" where
  "purgeable root ord m =
     filter (\<lambda>x. in_chain root x \<and> d_Status x \<noteq> ''deleted'') (range_vals ord (rows m))"

lemma mem_RemoveAccess_cases:
  assumes "wf_mem m" and "visits ord1 (rows m)" and "visits ord2 (rows m)"
    and "mem_RemoveAccess ord1 ord2 clk k c m = (r, m')"
  obtains (refused) e where "r = Inl e" and "m' = m"
  | (left) d where "rows m k = Some d" and "allows m (chainRootID d) c ''read''" and "tenantMatches d c"
      and "\<forall>x \<in> ran (rows m). in_chain (chainRootID d) x \<longrightarrow> \<not> d_LegalHold x"
      and "\<exists>g \<in> set (kept_grants (chainRootID d) c m). g_ChainRoot g = chainRootID d"
      and "r = Inr []" and "m' = m\<lparr>acl := kept_grants (chainRootID d) c m\<rparr>"
  | (last) d where "rows m k = Some d" and "allows m (chainRootID d) c ''read''" and "tenantMatches d c"
      and "\<forall>x \<in> ran (rows m). in_chain (chainRootID d) x \<longrightarrow> \<not> d_LegalHold x"
      and "\<forall>g \<in> set (kept_grants (chainRootID d) c m). g_ChainRoot g \<noteq> chainRootID d"
      and "r = Inr (map purged_of (purgeable (chainRootID d) ord2 m))"
      and "m' = purge_keys ''deleted'' clk (d_ID ` set (purgeable (chainRootID d) ord2 m))
                  (m\<lparr>acl := kept_grants (chainRootID d) c m\<rparr>)"
proof (cases "rows m k")
  case None
  with assms(4) refused show ?thesis by (auto simp: mem_RemoveAccess_def)
next
  case (Some d)
  let ?root = "chainRootID d"
  let ?m1 = "m\<lparr>acl := kept_grants ?root c m\<rparr>"
  have wf: "wf_mem ?m1" using assms(1) by (simp add: wf_mem_def)
  have "distinct ord2" using assms(3) by (simp add: visits_def)
  from purge_chain_eq [OF wf this, where root = ?root and clk = clk]
  have purge: "purge_chain ?root clk ord2 ?m1 =
      (map purged_of (purgeable ?root ord2 m),
       purge_keys ''deleted'' clk (d_ID ` set (purgeable ?root ord2 m)) ?m1)"
    by (simp add: purgeable_def Let_def)
  define bad where "bad \<longleftrightarrow> \<not> allows m ?root c ''read'' \<or> \<not> tenantMatches d c"
  define held where "held \<longleftrightarrow> (\<exists>x \<in> ran (rows m). in_chain ?root x \<and> d_LegalHold x)"
  define others where "others \<longleftrightarrow> (\<exists>g \<in> set (kept_grants ?root c m). g_ChainRoot g = ?root)"
  have eq: "(r, m') =
      (if bad then (Inl ErrNotFound, m) else if held then (Inl ErrLegalHold, m)
       else if others then (Inr [], ?m1)
       else (Inr (map purged_of (purgeable ?root ord2 m)),
             purge_keys ''deleted'' clk (d_ID ` set (purgeable ?root ord2 m)) ?m1))"
    unfolding assms(4) [symmetric] bad_def held_def others_def using Some
    by (simp add: mem_RemoveAccess_def Let_def list_ex_set visits_rows_set [OF assms(2)] purge) blast
  consider "bad" | "\<not> bad" "held" | "\<not> bad" "\<not> held" "others" | "\<not> bad" "\<not> held" "\<not> others"
    by blast
  then show ?thesis
  proof cases
    case 1
    with eq show ?thesis by (intro refused) simp_all
  next
    case 2
    with eq show ?thesis by (intro refused) simp_all
  next
    case 3
    with eq have r: "r = Inr []" and m': "m' = ?m1" by simp_all
    from 3 have a: "allows m ?root c ''read''" "tenantMatches d c"
      and h: "\<forall>x \<in> ran (rows m). in_chain ?root x \<longrightarrow> \<not> d_LegalHold x"
      and k: "\<exists>g \<in> set (kept_grants ?root c m). g_ChainRoot g = ?root"
      unfolding bad_def held_def others_def by blast+
    from Some a h k r m' show ?thesis by (rule left)
  next
    case 4
    with eq have r: "r = Inr (map purged_of (purgeable ?root ord2 m))"
      and m': "m' = purge_keys ''deleted'' clk (d_ID ` set (purgeable ?root ord2 m)) ?m1" by simp_all
    from 4 have a: "allows m ?root c ''read''" "tenantMatches d c"
      and h: "\<forall>x \<in> ran (rows m). in_chain ?root x \<longrightarrow> \<not> d_LegalHold x"
      and k: "\<forall>g \<in> set (kept_grants ?root c m). g_ChainRoot g \<noteq> ?root"
      unfolding bad_def held_def others_def by blast+
    from Some a h k r m' show ?thesis by (rule last)
  qed
qed

lemma evolves_purgeable:
  assumes "wf_mem m"
  shows "evolves m (purge_keys ''deleted'' clk (d_ID ` set (purgeable root ord m)) (m\<lparr>acl := a\<rparr>))"
proof -
  have "d_Status d \<noteq> ''deleted''" if "l \<in> d_ID ` set (purgeable root ord m)" "rows m l = Some d" for l d
  proof -
    have "d \<in> set (purgeable root ord m)"
      by (rule keys_of_vals [OF assms _ that]) (auto simp: purgeable_def)
    then show ?thesis by (simp add: purgeable_def)
  qed
  then have "evolves (m\<lparr>acl := a\<rparr>) (purge_keys ''deleted'' clk (d_ID ` set (purgeable root ord m)) (m\<lparr>acl := a\<rparr>))"
    by (intro evolves_purge) simp
  moreover have "evolves m (m\<lparr>acl := a\<rparr>)" by (rule evolves_rows) simp
  ultimately show ?thesis by (blast intro: evolves_trans)
qed

lemma evolves_RemoveAccess:
  assumes "wf_mem m" and "visits ord1 (rows m)" and "visits ord2 (rows m)"
  shows "evolves m (snd (mem_RemoveAccess ord1 ord2 clk k c m))"
proof -
  obtain r m' where eq: "mem_RemoveAccess ord1 ord2 clk k c m = (r, m')" by fastforce
  from assms eq have "evolves m m'"
    by (rule mem_RemoveAccess_cases) (simp_all add: evolves_purgeable [OF assms(1)] evolves_rows)
  with eq show ?thesis by simp
qed

lemma evolves_SweepRetention:
  assumes "wf_mem m" and "visits ord (rows m)"
  shows "evolves m (snd (mem_SweepRetention ord clk now limit m))"
proof -
  let ?ps = "take_limit limit 0 (filter (due now) (range_vals ord (rows m)))"
  have sub: "set ?ps \<subseteq> set (filter (due now) (range_vals ord (rows m)))"
    by (rule take_limit_subset)
  have "d_Status d \<noteq> ''deleted''" if "l \<in> d_ID ` set ?ps" "rows m l = Some d" for l d
  proof -
    have "d \<in> set ?ps" using sub by (intro keys_of_vals [OF assms(1) _ that]) auto
    with sub show ?thesis by (auto simp: due_def terminal_def)
  qed
  then have "evolves m (purge_keys ''expired'' clk (d_ID ` set ?ps) m)"
    by (intro evolves_purge) simp
  then show ?thesis
    using sweep_rows_eq [OF assms(1), of ord now clk limit "[]"] assms(2)
    by (simp add: mem_SweepRetention_def visits_def Let_def)
qed

lemma rows_drop_orphan_acl [simp]: "rows (drop_orphan_acl ord m) = rows m"
  by (simp add: drop_orphan_acl_def)

lemma evolves_drop_keys: "evolves m (drop_keys ks m)"
  by (rule evolves_restrict) (rule rows_drop_keys)

lemma evolves_SweepHistory:
  assumes "wf_mem m" and "visits ord1 (rows m)"
  shows "evolves m (snd (mem_SweepHistory ord1 ord2 before limit m))"
  using assms history_rows_eq [OF assms(1), of ord1 before _ 0]
  by (auto simp: mem_SweepHistory_def visits_def Let_def
      intro: evolves_trans [OF evolves_drop_keys evolves_rows])

lemma evolves_DeleteHistory:
  assumes "wf_mem m" and "visits ord2 (rows m)"
  shows "evolves m (snd (mem_DeleteHistoryChain ord1 ord2 owner root m))"
  using assms drop_owned_eq [OF assms(1), of ord2 owner root 0]
  by (auto simp: mem_DeleteHistoryChain_def visits_def Let_def evolves_drop_keys
      intro: evolves_trans [OF evolves_drop_keys evolves_rows])

text \<open>The two operations that add a row: everything else only edits or drops rows.\<close>

primrec added_row :: "store_op \<Rightarrow> document option" where
  "added_row (OpInsert ord k now inp) = Some (insert_row k now inp)"
| "added_row (OpReplace now inp) = None"
| "added_row (OpBundle k now inp) = Some (bundle_row k now inp)"
| "added_row (OpRebundle now inp) = None"
| "added_row (OpGrant inp) = None"
| "added_row (OpSetStatus now k owner status) = None"
| "added_row (OpSetResultFreeze now k frozen) = None"
| "added_row (OpExtendRetention now k owner until) = None"
| "added_row (OpRemoveAccess ord1 ord2 clk k c) = None"
| "added_row (OpSweepRetention ord clk now limit) = None"
| "added_row (OpSweepHistory ord1 ord2 before limit) = None"
| "added_row (OpDeleteHistory ord1 ord2 owner root) = None"

lemma evolves_exec:
  "wf_mem m \<Longrightarrow> op_ok op m \<Longrightarrow> \<not> revives op m \<Longrightarrow> added_row op = None \<Longrightarrow> evolves m (store_exec op m)"
  by (cases op)
     (simp_all add: evolves_Replace evolves_Rebundle evolves_Grant evolves_SetStatus
       evolves_SetResultFreeze evolves_ExtendRetention evolves_RemoveAccess evolves_SweepRetention
       evolves_SweepHistory evolves_DeleteHistory)

lemma snd_Insert:
  "snd (mem_Insert ord k now inp m) = m \<or>
   rows (snd (mem_Insert ord k now inp m)) = rows (put_row (insert_row k now inp) m)"
  by (simp add: mem_Insert_def Let_def)

definition signed_kind :: "string \<Rightarrow> bool" where
  "signed_kind kind \<longleftrightarrow> kind = ''container'' \<or> kind = ''pdf''"

lemma mem_Insert_refused:
  assumes "visits ord (rows m)" and "signed_kind (d_Kind (insert_row k now inp))" and "ii_ParentID inp \<noteq> []"
    and "d \<in> ran (rows m)" and "blocks_insert (d_Kind (insert_row k now inp)) (ii_ParentID inp) d"
  shows "mem_Insert ord k now inp m = (Inl ErrChainAdvanced, m)"
proof -
  have "list_ex (blocks_insert (or_default (ii_Kind inp) ''source'') (ii_ParentID inp)) (range_vals ord (rows m))"
    using assms(1,4,5) by (auto simp: list_ex_set visits_rows_set)
  with assms(2,3) show ?thesis by (simp add: mem_Insert_def Let_def signed_kind_def)
qed

lemma evolves_Bundle:
  "snd (mem_Bundle k now inp m) = m \<or>
   evolves (put_row (bundle_row k now inp) m) (snd (mem_Bundle k now inp m))"
proof -
  have "evolves (put_row (bundle_row k now inp) m) (absorb_rows ds (put_row (bundle_row k now inp) m\<lparr>acl := a\<rparr>))"
    for ds a by (rule evolves_trans [OF evolves_rows evolves_absorb]) simp
  then show ?thesis
    by (auto simp: mem_Bundle_def Let_def split: sum.split)
qed

lemma wf_put: "wf_mem m \<Longrightarrow> d_ID d \<noteq> [] \<Longrightarrow> wf_mem (put_row d m)"
  by (auto simp: wf_mem_def)

lemma wf_exec:
  assumes "wf_mem m" and "op_ok op m" and "\<not> revives op m"
  shows "wf_mem (store_exec op m)"
proof (cases "added_row op")
  case None
  with assms show ?thesis by (blast intro: evolves_wf evolves_exec)
next
  case (Some d)
  then show ?thesis
  proof (cases op)
    case (OpInsert ord k now inp)
    with assms have "wf_mem (put_row (insert_row k now inp) m)"
      by (intro wf_put) (simp_all add: fresh_id_def)
    moreover have "store_exec op m = m \<or>
        wf_mem (store_exec op m) = wf_mem (put_row (insert_row k now inp) m)"
      unfolding OpInsert store_exec.simps using snd_Insert [of ord k now inp m]
      by (elim disjE) (simp, blast dest: wf_mem_rows)
    ultimately show ?thesis using assms(1) by metis
  next
    case (OpBundle k now inp)
    with assms have "wf_mem (put_row (bundle_row k now inp) m)"
      by (intro wf_put) (simp_all add: fresh_id_def)
    with evolves_Bundle [of k now inp m] assms(1) OpBundle show ?thesis
      by (auto intro: evolves_wf)
  qed simp_all
qed

section \<open>One live signed form per chain\<close>

definition unique_forms :: "memory \<Rightarrow> bool" where
  "unique_forms m \<longleftrightarrow>
     (\<forall>k l d e. rows m k = Some d \<and> rows m l = Some e \<and> k \<noteq> l \<and> signed_kind (d_Kind e) \<and>
        d_ParentID e \<noteq> [] \<and> d_Status e \<noteq> ''deleted'' \<longrightarrow> \<not> blocks_insert (d_Kind e) (d_ParentID e) d)"

lemma unique_forms_evolves:
  assumes "evolves m m'" and "unique_forms m"
  shows "unique_forms m'"
  unfolding unique_forms_def
proof (intro allI impI)
  fix k l d' e'
  assume h: "rows m' k = Some d' \<and> rows m' l = Some e' \<and> k \<noteq> l \<and> signed_kind (d_Kind e') \<and>
      d_ParentID e' \<noteq> [] \<and> d_Status e' \<noteq> ''deleted''"
  from h obtain d e where d: "rows m k = Some d" "same_identity d d'"
    and e: "rows m l = Some e" "same_identity e e'"
    using evolvesD [OF assms(1)] by blast
  with h have "rows m k = Some d \<and> rows m l = Some e \<and> k \<noteq> l \<and> signed_kind (d_Kind e) \<and>
      d_ParentID e \<noteq> [] \<and> d_Status e \<noteq> ''deleted''"
    by (auto simp: same_identity_def)
  with assms(2) have "\<not> blocks_insert (d_Kind e) (d_ParentID e) d"
    unfolding unique_forms_def by blast
  with d(2) e(2) show "\<not> blocks_insert (d_Kind e') (d_ParentID e') d'"
    by (auto simp: blocks_insert_def same_identity_def)
qed

lemma unique_forms_put:
  assumes "unique_forms m" and "\<forall>e \<in> ran (rows m). d_ParentID e \<noteq> d_ID n" and "d_ID n \<noteq> []"
    and "d_ParentID n \<noteq> [] \<and> signed_kind (d_Kind n) \<longrightarrow>
           (\<forall>d \<in> ran (rows m). \<not> blocks_insert (d_Kind n) (d_ParentID n) d)"
  shows "unique_forms (put_row n m)"
  unfolding unique_forms_def
proof (intro allI impI)
  fix k l d e
  assume h: "rows (put_row n m) k = Some d \<and> rows (put_row n m) l = Some e \<and> k \<noteq> l \<and>
      signed_kind (d_Kind e) \<and> d_ParentID e \<noteq> [] \<and> d_Status e \<noteq> ''deleted''"
  consider (new_e) "l = d_ID n" "e = n" "rows m k = Some d"
    | (new_d) "k = d_ID n" "d = n" "rows m l = Some e"
    | (old) "rows m k = Some d" "rows m l = Some e"
  proof -
    from h have "rows (put_row n m) k = Some d" and "rows (put_row n m) l = Some e" by blast+
    then have "if k = d_ID n then n = d else rows m k = Some d"
      and "if l = d_ID n then n = e else rows m l = Some e"
      by (simp_all split: if_splits)
    with h have "(l = d_ID n \<and> e = n \<and> rows m k = Some d) \<or> (k = d_ID n \<and> d = n \<and> rows m l = Some e) \<or>
        (rows m k = Some d \<and> rows m l = Some e)"
      by metis
    with that show ?thesis by blast
  qed
  then show "\<not> blocks_insert (d_Kind e) (d_ParentID e) d"
  proof cases
    case new_e
    with h assms(4) show ?thesis by (auto intro: ranI)
  next
    case new_d
    have er: "e \<in> ran (rows m)" using new_d by (auto intro: ranI)
    show ?thesis
    proof
      assume b: "blocks_insert (d_Kind e) (d_ParentID e) d"
      with new_d er assms(2) have "d_ParentID n = d_ParentID e" "d_Kind n = d_Kind e"
        by (auto simp: blocks_insert_def)
      with h assms(4) er show False by (auto simp: blocks_insert_def)
    qed
  next
    case old
    with h assms(1) show ?thesis unfolding unique_forms_def by blast
  qed
qed

lemma unique_forms_exec:
  assumes "wf_mem m" and "unique_forms m" and "op_ok op m" and "\<not> revives op m"
  shows "unique_forms (store_exec op m)"
proof (cases "added_row op")
  case None
  with assms show ?thesis by (blast intro: unique_forms_evolves evolves_exec)
next
  case (Some d)
  then show ?thesis
  proof (cases op)
    case (OpInsert ord k now inp)
    show ?thesis
    proof (cases "store_exec op m = m")
      case True
      with assms(2) show ?thesis by simp
    next
      case False
      let ?n = "insert_row k now inp"
      have "unique_forms (put_row ?n m)"
      proof (rule unique_forms_put [OF assms(2)])
        show "d_ParentID ?n \<noteq> [] \<and> signed_kind (d_Kind ?n) \<longrightarrow>
            (\<forall>d \<in> ran (rows m). \<not> blocks_insert (d_Kind ?n) (d_ParentID ?n) d)"
        proof (intro impI ballI notI)
          fix d assume "d_ParentID ?n \<noteq> [] \<and> signed_kind (d_Kind ?n)" and "d \<in> ran (rows m)"
            and "blocks_insert (d_Kind ?n) (d_ParentID ?n) d"
          with mem_Insert_refused [of ord m k now inp d] OpInsert assms(3) False
          show False by simp
        qed
      qed (use assms(3) OpInsert in \<open>auto simp: fresh_id_def\<close>)
      moreover have "evolves (put_row ?n m) (store_exec op m)"
        using snd_Insert [of ord k now inp m] False OpInsert by (auto intro: evolves_rows)
      ultimately show ?thesis by (rule unique_forms_evolves [rotated])
    qed
  next
    case (OpBundle k now inp)
    have "unique_forms (put_row (bundle_row k now inp) m)"
      using assms(3) OpBundle by (intro unique_forms_put [OF assms(2)]) (auto simp: fresh_id_def)
    with evolves_Bundle [of k now inp m] assms(2) OpBundle show ?thesis
      by (auto intro: unique_forms_evolves)
  qed simp_all
qed

lemma store_reachable_inv: "store_reachable m \<Longrightarrow> wf_mem m \<and> unique_forms m"
proof (induction rule: store_reachable.induct)
  case start
  show ?case by (simp add: wf_mem_def unique_forms_def NewMemory_def)
next
  case (step m op m')
  then show ?case by (auto elim!: store_stepE intro: wf_exec unique_forms_exec)
qed

end
