(* ===== verification/StoreSafety.thy ===== *)
theory StoreSafety
  imports StoreInv
begin

text \<open>
  Safety of single steps of the store: a row under legal hold keeps its bytes, access to a
  chain has an origin, and a row's bytes move only under the compare-and-set.
\<close>

section \<open>Legal hold\<close>

definition same_custody :: "document \<Rightarrow> document \<Rightarrow> bool" where
  "same_custody d d' \<longleftrightarrow>
     d_LegalHold d' = d_LegalHold d \<and> d_StorageRef d' = d_StorageRef d \<and>
     d_EncryptionKeyRef d' = d_EncryptionKeyRef d \<and> d_ContentHash d' = d_ContentHash d \<and>
     d_Status d' = d_Status d"

definition held_safe :: "memory \<Rightarrow> memory \<Rightarrow> bool" where
  "held_safe m m' \<longleftrightarrow>
     (\<forall>k d. rows m k = Some d \<longrightarrow> d_LegalHold d \<longrightarrow> (\<exists>d'. rows m' k = Some d' \<and> same_custody d d'))"

lemma same_custody_refl [simp]: "same_custody d d"
  by (simp add: same_custody_def)

lemma held_safe_rows: "rows m' = rows m \<Longrightarrow> held_safe m m'"
  by (simp add: held_safe_def)

lemma held_safe_trans: "held_safe m m1 \<Longrightarrow> held_safe m1 m2 \<Longrightarrow> held_safe m m2"
  unfolding held_safe_def same_custody_def by metis

lemma held_safe_put:
  "(\<And>d. rows m (d_ID n) = Some d \<Longrightarrow> d_LegalHold d \<Longrightarrow> same_custody d n) \<Longrightarrow> held_safe m (put_row n m)"
  by (simp add: held_safe_def)

lemma held_safe_restrict:
  "rows m' = rows m |` (- ks) \<Longrightarrow> (\<And>k d. k \<in> ks \<Longrightarrow> rows m k = Some d \<Longrightarrow> \<not> d_LegalHold d) \<Longrightarrow> held_safe m m'"
  by (auto simp: held_safe_def restrict_map_def)

lemma held_safe_purge:
  "(\<And>k d. k \<in> ks \<Longrightarrow> rows m k = Some d \<Longrightarrow> \<not> d_LegalHold d) \<Longrightarrow> held_safe m (purge_keys st clk ks m)"
  by (auto simp: held_safe_def rows_purge_keys)

lemma held_safe_refl [simp]: "held_safe m m"
  by (simp add: held_safe_rows)

lemma held_safe_absorb:
  assumes "wf_mem m" and "list_all2 (\<lambda>k d. absorbSource m0 k owner = Inr d) ks ds"
    and "\<And>k d. k \<in> set ks \<Longrightarrow> rows m0 k = Some d \<Longrightarrow> rows m k = Some d"
  shows "held_safe m (absorb_rows ds m)"
proof (rule held_safe_restrict [OF rows_absorb_rows])
  fix k d assume k: "k \<in> d_ID ` set ds" and d: "rows m k = Some d"
  from k obtain e where e: "e \<in> set ds" "k = d_ID e" by blast
  with absorbed_rows [OF assms(2)] obtain l where l: "l \<in> set ks" "rows m0 l = Some e" "\<not> d_LegalHold e"
    by blast
  then have "rows m l = Some e" by (blast intro: assms(3))
  with assms(1) e d have "d = e" by (simp add: wf_mem_def)
  with l show "\<not> d_LegalHold d" by simp
qed

lemma held_safe_Bundle:
  assumes "wf_mem m" and "fresh_id k m"
  shows "held_safe m (snd (mem_Bundle k now inp m))"
proof (cases "bundle_sources m (bi_Owner inp) [] (bi_SourceIDs inp)")
  case (Inl e)
  then show ?thesis by (simp add: mem_Bundle_def)
next
  case (Inr ds)
  let ?m1 = "put_row (bundle_row k now inp) m"
  let ?m2 = "?m1\<lparr>acl := acl m @ [bundle_grant k inp]\<rparr>"
  have wf: "wf_mem ?m2"
    using assms wf_put [OF assms(1), of "bundle_row k now inp"] by (simp add: fresh_id_def wf_mem_def)
  have all: "list_all2 (\<lambda>k d. absorbSource m k (bi_Owner inp) = Inr d) (bi_SourceIDs inp) ds"
    using bundle_sources_Inr [OF Inr] by blast
  have "held_safe ?m2 (absorb_rows ds ?m2)"
    using assms(2) by (intro held_safe_absorb [OF wf all]) (auto simp: fresh_id_def)
  moreover have "held_safe m ?m1" using assms(2) by (intro held_safe_put) (simp add: fresh_id_def)
  moreover have "held_safe ?m1 ?m2" by (rule held_safe_rows) simp
  ultimately have "held_safe m (absorb_rows ds ?m2)" by (blast intro: held_safe_trans)
  with Inr show ?thesis by (simp add: mem_Bundle_def Let_def)
qed

lemma mem_Rebundle_cases:
  assumes "mem_Rebundle now inp m = (r, m')"
  obtains (refused) e where "r = Inl e" and "m' = m"
  | (replaced) d ds where "rows m (rb_ID inp) = Some d" and "d_Owner d = rb_Owner inp" and "\<not> d_LegalHold d"
      and "d_Kind d = ''container''" and "d_Status d = ''received''"
      and "d_ContentHash d = rb_ExpectedHash inp"
      and "rebundle_sources m (rb_Owner inp) (rb_AbsorbSourceIDs inp) = Inr ds"
      and "r = Inr (rebundle_row now inp d, purged_of d, map purged_of ds)"
      and "m' = absorb_rows ds (put_row (rebundle_row now inp d) m)"
proof (cases "rows m (rb_ID inp)")
  case None
  with assms have "r = Inl ErrNotFound" and "m' = m" by (simp_all add: mem_Rebundle_def)
  then show ?thesis by (rule refused)
next
  case (Some d)
  define gone where "gone \<longleftrightarrow> d_Owner d \<noteq> rb_Owner inp \<or> d_Status d = ''deleted'' \<or> d_Status d = ''expired''"
  define other where "other \<longleftrightarrow> d_Kind d \<noteq> ''container'' \<or> d_Status d \<noteq> ''received''"
  define moved where "moved \<longleftrightarrow> d_ContentHash d \<noteq> rb_ExpectedHash inp"
  have eq: "(r, m') =
      (if gone then (Inl ErrNotFound, m) else if other then (Inl ErrNotBundleable, m)
       else if d_LegalHold d then (Inl ErrLegalHold, m) else if moved then (Inl ErrChainAdvanced, m)
       else case rebundle_sources m (rb_Owner inp) (rb_AbsorbSourceIDs inp) of
          Inl e \<Rightarrow> (Inl e, m)
        | Inr ds \<Rightarrow> (Inr (rebundle_row now inp d, purged_of d, map purged_of ds),
                    absorb_rows ds (put_row (rebundle_row now inp d) m)))"
    unfolding assms [symmetric] gone_def other_def moved_def using Some
    by (simp add: mem_Rebundle_def Let_def split: sum.split)
  show ?thesis
  proof (cases "gone \<or> other \<or> d_LegalHold d \<or> moved")
    case True
    with eq refused show ?thesis by (auto split: if_splits)
  next
    case ok: False
    show ?thesis
    proof (cases "rebundle_sources m (rb_Owner inp) (rb_AbsorbSourceIDs inp)")
      case (Inl e)
      with ok eq refused show ?thesis by simp
    next
      case (Inr ds)
      with ok eq have "r = Inr (rebundle_row now inp d, purged_of d, map purged_of ds)"
        and "m' = absorb_rows ds (put_row (rebundle_row now inp d) m)" by simp_all
      with Some ok Inr replaced show ?thesis unfolding gone_def other_def moved_def by blast
    qed
  qed
qed

lemma held_safe_Rebundle:
  assumes "wf_mem m"
  shows "held_safe m (snd (mem_Rebundle now inp m))"
proof -
  obtain r m' where eq: "mem_Rebundle now inp m = (r, m')" by fastforce
  then have "held_safe m m'"
  proof (cases rule: mem_Rebundle_cases)
    case (refused e)
    then show ?thesis by simp
  next
    case (replaced d ds)
    let ?m1 = "put_row (rebundle_row now inp d) m"
    have id: "d_ID d = rb_ID inp" using assms replaced(1) by (rule wf_mem_id)
    have wf: "wf_mem ?m1" using assms id replaced(1) by (intro wf_put) (auto simp: wf_mem_def)
    have all: "list_all2 (\<lambda>k d. absorbSource m k (rb_Owner inp) = Inr d) (rb_AbsorbSourceIDs inp) ds"
      using rebundle_sources_Inr [OF replaced(7)] .
    have "rows ?m1 k = Some e" if "k \<in> set (rb_AbsorbSourceIDs inp)" "rows m k = Some e" for k e
    proof -
      from list_all2_left [OF all that(1)] obtain e' where "absorbSource m k (rb_Owner inp) = Inr e'"
        by blast
      from absorbSource_Inr [OF this] that(2) have "Bundleable (d_Kind e) (d_Status e)" by simp
      then have "k \<noteq> rb_ID inp" using replaced(1,4,5) that(2) by (auto simp: Bundleable_def)
      with id that(2) show ?thesis by simp
    qed
    then have "held_safe ?m1 (absorb_rows ds ?m1)" by (rule held_safe_absorb [OF wf all])
    moreover have "held_safe m ?m1" using replaced id by (intro held_safe_put) simp
    ultimately show ?thesis unfolding replaced(9) by (blast intro: held_safe_trans)
  qed
  with eq show ?thesis by simp
qed

lemma held_safe_RemoveAccess:
  assumes "wf_mem m" and "visits ord1 (rows m)" and "visits ord2 (rows m)"
  shows "held_safe m (snd (mem_RemoveAccess ord1 ord2 clk k c m))"
proof -
  obtain r m' where eq: "mem_RemoveAccess ord1 ord2 clk k c m = (r, m')" by fastforce
  from assms eq have "held_safe m m'"
  proof (cases rule: mem_RemoveAccess_cases)
    case (refused e)
    then show ?thesis by simp
  next
    case (left d)
    then show ?thesis by (simp add: held_safe_rows)
  next
    case (last d)
    let ?ps = "purgeable (chainRootID d) ord2 m"
    let ?m1 = "m\<lparr>acl := kept_grants (chainRootID d) c m\<rparr>"
    have "\<not> d_LegalHold x" if "l \<in> d_ID ` set ?ps" "rows ?m1 l = Some x" for l x
    proof -
      have "x \<in> set ?ps"
        by (rule keys_of_vals [OF assms(1) _ that(1)]) (use that(2) in \<open>auto simp: purgeable_def\<close>)
      with last(4) assms(3) show ?thesis by (auto simp: purgeable_def visits_rows_set)
    qed
    then have "held_safe ?m1 m'" unfolding last(7) by (rule held_safe_purge)
    then show ?thesis by (blast intro: held_safe_trans held_safe_rows [of ?m1 m, simplified])
  qed
  with eq show ?thesis by simp
qed

lemma held_safe_SweepRetention:
  assumes "wf_mem m" and "visits ord (rows m)"
  shows "held_safe m (snd (mem_SweepRetention ord clk now limit m))"
proof -
  let ?ps = "take_limit limit 0 (filter (due now) (range_vals ord (rows m)))"
  have sub: "set ?ps \<subseteq> set (filter (due now) (range_vals ord (rows m)))"
    by (rule take_limit_subset)
  have "\<not> d_LegalHold d" if "l \<in> d_ID ` set ?ps" "rows m l = Some d" for l d
  proof -
    have "d \<in> set ?ps" using sub by (intro keys_of_vals [OF assms(1) _ that]) auto
    with sub show ?thesis by (auto simp: due_def)
  qed
  then have "held_safe m (purge_keys ''expired'' clk (d_ID ` set ?ps) m)" by (rule held_safe_purge)
  then show ?thesis
    using sweep_rows_eq [OF assms(1), of ord now clk limit "[]"] assms(2)
    by (simp add: mem_SweepRetention_def visits_def Let_def)
qed

lemma held_safe_drop_keys:
  assumes "wf_mem m" and "set ps \<subseteq> set (range_vals ord (rows m))" and "\<forall>d \<in> set ps. \<not> d_LegalHold d"
  shows "held_safe m (drop_keys (d_ID ` set ps) m)"
proof (rule held_safe_restrict [OF rows_drop_keys])
  fix k d assume "k \<in> d_ID ` set ps" and "rows m k = Some d"
  then have "d \<in> set ps" by (rule keys_of_vals [OF assms(1,2)])
  with assms(3) show "\<not> d_LegalHold d" by blast
qed

lemma held_safe_SweepHistory:
  assumes "wf_mem m" and "visits ord1 (rows m)"
  shows "held_safe m (snd (mem_SweepHistory ord1 ord2 before limit m))"
proof -
  let ?ps = "\<lambda>lim. take (nat lim) (filter (old_record before) (range_vals ord1 (rows m)))"
  have "held_safe m (drop_keys (d_ID ` set (?ps lim)) m)" for lim
    by (rule held_safe_drop_keys [OF assms(1)]) (auto simp: old_record_def dest: in_set_takeD)
  moreover have "held_safe x (drop_orphan_acl ord2 x)" for x by (rule held_safe_rows) simp
  ultimately have "held_safe m (drop_orphan_acl ord2 (drop_keys (d_ID ` set (?ps lim)) m))" for lim
    by (blast intro: held_safe_trans)
  then show ?thesis
    using history_rows_eq [OF assms(1), of ord1 before _ 0] assms(2)
    by (simp add: mem_SweepHistory_def visits_def Let_def)
qed

lemma held_safe_DeleteHistory:
  assumes "wf_mem m" and "visits ord1 (rows m)" and "visits ord2 (rows m)"
  shows "held_safe m (snd (mem_DeleteHistoryChain ord1 ord2 owner root m))"
proof (cases "\<exists>d \<in> ran (rows m). chainRootID d = root \<and> d_LegalHold d")
  case True
  then show ?thesis
    by (auto simp: mem_DeleteHistoryChain_def list_ex_set visits_rows_set [OF assms(2)])
next
  case False
  let ?ps = "filter (\<lambda>d. chainRootID d = root \<and> d_Owner d = owner) (range_vals ord2 (rows m))"
  have "held_safe m (drop_keys (d_ID ` set ?ps) m)"
    using False by (intro held_safe_drop_keys [OF assms(1), where ord = ord2]) (auto simp: visits_rows_set [OF assms(3)])
  moreover have "held_safe x (drop_chain_acl root x)" for x by (rule held_safe_rows) simp
  ultimately have "held_safe m (drop_keys (d_ID ` set ?ps) m)"
    and "held_safe m (drop_chain_acl root (drop_keys (d_ID ` set ?ps) m))"
    by (blast intro: held_safe_trans)+
  then show ?thesis
    using drop_owned_eq [OF assms(1), of ord2 owner root 0] assms(3)
    by (simp add: mem_DeleteHistoryChain_def visits_def Let_def)
qed

text \<open>
  The in-place replace is the one operation that does not consult the hold, and \<open>SetStatus\<close>
  writes whatever status it is given.
\<close>

primrec ignores_hold :: "store_op \<Rightarrow> bool" where
  "ignores_hold (OpInsert ord k now inp) = False"
| "ignores_hold (OpReplace now inp) = True"
| "ignores_hold (OpBundle k now inp) = False"
| "ignores_hold (OpRebundle now inp) = False"
| "ignores_hold (OpGrant inp) = False"
| "ignores_hold (OpSetStatus now k owner status) = True"
| "ignores_hold (OpSetResultFreeze now k frozen) = False"
| "ignores_hold (OpExtendRetention now k owner until) = False"
| "ignores_hold (OpRemoveAccess ord1 ord2 clk k c) = False"
| "ignores_hold (OpSweepRetention ord clk now limit) = False"
| "ignores_hold (OpSweepHistory ord1 ord2 before limit) = False"
| "ignores_hold (OpDeleteHistory ord1 ord2 owner root) = False"

lemma held_safe_exec:
  assumes "wf_mem m" and "op_ok op m" and "\<not> ignores_hold op"
  shows "held_safe m (store_exec op m)"
proof (cases op)
  case (OpInsert ord k now inp)
  have "held_safe m (put_row (insert_row k now inp) m)"
    using assms(2) OpInsert by (intro held_safe_put) (simp add: fresh_id_def)
  moreover have "rows (store_exec op m) = rows m \<or> rows (store_exec op m) = rows (put_row (insert_row k now inp) m)"
    using snd_Insert [of ord k now inp m] OpInsert by auto
  ultimately show ?thesis by (auto simp: held_safe_def)
next
  case (OpGrant inp)
  then show ?thesis
    by (auto simp: mem_Grant_def Let_def intro!: held_safe_rows split: option.split)
next
  case (OpSetResultFreeze now k frozen)
  with assms(1) show ?thesis
    by (auto simp: mem_SetResultFreeze_def same_custody_def wf_mem_id intro!: held_safe_put split: option.split)
next
  case (OpExtendRetention now k owner until)
  with assms(1) show ?thesis
    by (auto simp: mem_ExtendRetention_def same_custody_def wf_mem_id intro!: held_safe_put split: option.split)
qed (use assms in \<open>simp_all add: held_safe_Bundle held_safe_Rebundle held_safe_RemoveAccess
       held_safe_SweepRetention held_safe_SweepHistory held_safe_DeleteHistory\<close>)

text \<open>Runs: one call after another, in any order the requests happened to be served.\<close>

primrec run_ops :: "store_op list \<Rightarrow> memory \<Rightarrow> memory" where
  "run_ops [] m = m"
| "run_ops (op # ops) m = run_ops ops (store_exec op m)"

primrec run_ok :: "store_op list \<Rightarrow> memory \<Rightarrow> bool" where
  "run_ok [] m \<longleftrightarrow> True"
| "run_ok (op # ops) m \<longleftrightarrow> op_ok op m \<and> \<not> revives op m \<and> run_ok ops (store_exec op m)"

lemma held_safe_run:
  "wf_mem m \<Longrightarrow> run_ok ops m \<Longrightarrow> \<forall>op \<in> set ops. \<not> ignores_hold op \<Longrightarrow> held_safe m (run_ops ops m)"
proof (induction ops arbitrary: m)
  case (Cons op ops)
  then have "held_safe m (store_exec op m)" and "wf_mem (store_exec op m)"
    by (simp_all add: held_safe_exec wf_exec)
  moreover from this Cons have "held_safe (store_exec op m) (run_ops ops (store_exec op m))" by simp
  ultimately show ?case by (simp add: held_safe_trans [of m "store_exec op m"])
qed simp

section \<open>Where access comes from\<close>

lemma set_grant_entry:
  "g \<in> set (grant_entry root kind pid rights gs) \<Longrightarrow>
     g \<in> set gs \<or> g = \<lparr>g_ChainRoot = root, g_Kind = kind, g_Principal = pid, g_Rights = rights\<rparr>"
  by (induction gs) (auto split: if_splits)

lemma grant_entry_mem:
  "\<lparr>g_ChainRoot = root, g_Kind = kind, g_Principal = pid, g_Rights = rights\<rparr>
     \<in> set (grant_entry root kind pid rights gs)"
  by (induction gs) auto

lemma grant_entry_idem:
  "grant_entry root kind pid rights (grant_entry root kind pid rights gs) = grant_entry root kind pid rights gs"
  by (induction gs) auto

lemma allows_iff:
  "allows m root c right \<longleftrightarrow>
     (\<exists>g \<in> set (acl m). g_ChainRoot g = root \<and> hasRight (g_Rights g) right \<and> grant_names g c)"
  by (simp add: allows_def list_ex_set)

lemma acl_exec_origin:
  assumes "wf_mem m" and "op_ok op m" and "g \<in> set (acl (store_exec op m))" and "g \<notin> set (acl m)"
  shows "(\<exists>ord k now inp. op = OpInsert ord k now inp \<and> ii_ParentID inp = [] \<and> g = creator_grant k inp) \<or>
    (\<exists>k now inp. op = OpBundle k now inp \<and> g = bundle_grant k inp) \<or>
    (\<exists>inp d. op = OpGrant inp \<and> rows m (gi_DocID inp) = Some d \<and> g_ChainRoot g = chainRootID d \<and>
       g_Kind g = gi_PrincipalKind inp \<and>
       g_Principal g = (if gi_PrincipalKind inp = ''serial'' then NormalizeSerial (gi_PrincipalID inp)
                        else gi_PrincipalID inp) \<and>
       g_Rights g = (if gi_Rights inp = [] then [''read'', ''cosign''] else gi_Rights inp))"
proof (cases op)
  case (OpInsert ord k now inp)
  with assms show ?thesis by (auto simp: mem_Insert_def Let_def split: if_splits)
next
  case (OpBundle k now inp)
  with assms show ?thesis by (auto simp: mem_Bundle_def Let_def acl_absorb_rows split: if_splits sum.splits)
next
  case (OpGrant inp)
  with assms show ?thesis
    by (auto simp: mem_Grant_def Let_def dest!: set_grant_entry split: option.splits)
next
  case (OpRemoveAccess ord1 ord2 clk k c)
  obtain r m' where eq: "mem_RemoveAccess ord1 ord2 clk k c m = (r, m')" by fastforce
  have "visits ord1 (rows m)" "visits ord2 (rows m)" using assms(2) OpRemoveAccess by simp_all
  from assms(1) this eq have "set (acl m') \<subseteq> set (acl m)"
    by (rule mem_RemoveAccess_cases) (auto simp: kept_grants_def)
  with assms(3,4) OpRemoveAccess eq show ?thesis by auto
next
  case (OpSweepRetention ord clk now limit)
  with assms sweep_rows_eq [OF assms(1), of ord now clk limit "[]"] show ?thesis
    by (simp add: mem_SweepRetention_def visits_def Let_def)
next
  case (OpSweepHistory ord1 ord2 before limit)
  with assms history_rows_eq [OF assms(1), of ord1 before _ 0] show ?thesis
    by (simp add: mem_SweepHistory_def visits_def Let_def drop_orphan_acl_def)
next
  case (OpDeleteHistory ord1 ord2 owner root)
  with assms drop_owned_eq [OF assms(1), of ord2 owner root 0] show ?thesis
    by (auto simp: mem_DeleteHistoryChain_def visits_def Let_def split: if_splits)
next
  case (OpReplace now inp)
  with assms(3,4) show ?thesis
    by (auto simp: mem_ReplaceContainerBlob_def Let_def split: if_splits option.splits)
next
  case (OpRebundle now inp)
  with assms(3,4) show ?thesis
    by (auto simp: mem_Rebundle_def Let_def acl_absorb_rows split: if_splits option.splits sum.splits)
next
  case (OpSetStatus now k owner status)
  with assms(3,4) show ?thesis by (auto simp: mem_SetStatus_def split: if_splits option.splits)
next
  case (OpSetResultFreeze now k frozen)
  with assms(3,4) show ?thesis by (auto simp: mem_SetResultFreeze_def split: option.splits)
next
  case (OpExtendRetention now k owner until)
  with assms(3,4) show ?thesis by (auto simp: mem_ExtendRetention_def split: if_splits option.splits)
qed

end
