(* ===== verification/StoreSample.thy ===== *)
theory StoreSample
  imports StoreInv
begin

text \<open>
  A small store used to apply the properties at concrete values: Ana's source document \<open>01\<close>
  with a signed container \<open>02\<close>, and Bea's source \<open>03\<close> in a chain of its own, reached from
  the empty store by three inserts.
\<close>

definition sample_input :: "string \<Rightarrow> string \<Rightarrow> string \<Rightarrow> string \<Rightarrow> time \<Rightarrow> insert_input" where
  "sample_input owner kind parent status until =
     \<lparr>ii_Owner = owner, ii_TenantID = [], ii_Kind = kind, ii_ParentID = parent,
      ii_Filename = ''f'', ii_StorageRef = kind, ii_ContentHash = ''h'', ii_Mime = ''m'', ii_Size = 1,
      ii_Status = status, ii_EncryptionKeyRef = ''k'', ii_PreservationClass = [], ii_OwnerKind = [],
      ii_RetentionClass = [], ii_RetentionUntil = Some until, ii_InnerFiles = []\<rparr>"

definition sample_ops :: "store_op list" where
  "sample_ops =
     [OpInsert [] ''01'' 10 (sample_input ''ana'' ''source'' [] ''received'' 100),
      OpInsert [''01''] ''02'' 20 (sample_input ''ana'' ''container'' ''01'' ''signed'' 200),
      OpInsert [''02'', ''01''] ''03'' 30 (sample_input ''bea'' ''source'' [] ''received'' 50)]"

definition sample_doc :: "string \<Rightarrow> string \<Rightarrow> string \<Rightarrow> string \<Rightarrow> string \<Rightarrow> time \<Rightarrow> time \<Rightarrow> document" where
  "sample_doc k owner kind parent status until now = insert_row k now (sample_input owner kind parent status until)"

definition sample_store :: memory where
  "sample_store =
     \<lparr>rows = [''01'' \<mapsto> sample_doc ''01'' ''ana'' ''source'' [] ''received'' 100 10,
              ''02'' \<mapsto> sample_doc ''02'' ''ana'' ''container'' ''01'' ''signed'' 200 20,
              ''03'' \<mapsto> sample_doc ''03'' ''bea'' ''source'' [] ''received'' 50 30],
      acl = [\<lparr>g_ChainRoot = ''01'', g_Kind = ''sub'', g_Principal = ''ana'', g_Rights = [''read'', ''cosign'']\<rparr>,
             \<lparr>g_ChainRoot = ''03'', g_Kind = ''sub'', g_Principal = ''bea'', g_Rights = [''read'', ''cosign'']\<rparr>]\<rparr>"

definition sample_caller :: "string \<Rightarrow> caller" where
  "sample_caller sub = \<lparr>cl_Sub = sub, cl_Serial = [], cl_Product = [], cl_Tenant = []\<rparr>"

lemma sample_doc_simps [simp]:
  "d_ID (sample_doc k owner kind parent status until now) = k"
  "d_Owner (sample_doc k owner kind parent status until now) = owner"
  "d_TenantID (sample_doc k owner kind parent status until now) = []"
  "d_Kind (sample_doc k owner kind parent status until now) = or_default kind ''source''"
  "d_ParentID (sample_doc k owner kind parent status until now) = parent"
  "d_Status (sample_doc k owner kind parent status until now) = or_default status ''received''"
  "d_RetentionUntil (sample_doc k owner kind parent status until now) = Some until"
  "d_LegalHold (sample_doc k owner kind parent status until now) = False"
  "d_ResultFrozen (sample_doc k owner kind parent status until now) = False"
  "d_StorageRef (sample_doc k owner kind parent status until now) = kind"
  "d_EncryptionKeyRef (sample_doc k owner kind parent status until now) = ''k''"
  "d_ContentHash (sample_doc k owner kind parent status until now) = ''h''"
  "d_InnerFiles (sample_doc k owner kind parent status until now) = []"
  "d_SignedAt (sample_doc k owner kind parent status until now) = None"
  "d_CreatedAt (sample_doc k owner kind parent status until now) = now"
  "d_UpdatedAt (sample_doc k owner kind parent status until now) = now"
  by (simp_all add: sample_doc_def sample_input_def insert_row_def)

lemma sample_caller_simps [simp]:
  "cl_Sub (sample_caller s) = s" "cl_Serial (sample_caller s) = []"
  "cl_Product (sample_caller s) = []" "cl_Tenant (sample_caller s) = []"
  by (simp_all add: sample_caller_def)

lemma rows_sample_store:
  "rows sample_store =
     [''01'' \<mapsto> sample_doc ''01'' ''ana'' ''source'' [] ''received'' 100 10,
      ''02'' \<mapsto> sample_doc ''02'' ''ana'' ''container'' ''01'' ''signed'' 200 20,
      ''03'' \<mapsto> sample_doc ''03'' ''bea'' ''source'' [] ''received'' 50 30]"
  by (simp add: sample_store_def)

lemma acl_sample_store:
  "acl sample_store =
     [\<lparr>g_ChainRoot = ''01'', g_Kind = ''sub'', g_Principal = ''ana'', g_Rights = [''read'', ''cosign'']\<rparr>,
      \<lparr>g_ChainRoot = ''03'', g_Kind = ''sub'', g_Principal = ''bea'', g_Rights = [''read'', ''cosign'']\<rparr>]"
  by (simp add: sample_store_def)

lemma visits_sample_store: "visits [''03'', ''01'', ''02''] (rows sample_store)"
  by (auto simp: visits_def rows_sample_store)

lemma visits_sample_store': "visits [''01'', ''02'', ''03''] (rows sample_store)"
  by (auto simp: visits_def rows_sample_store)

lemma wf_sample_store: "wf_mem sample_store"
  by (simp add: wf_mem_def rows_sample_store)

lemma allows_sample [simp]:
  "allows sample_store root c right \<longleftrightarrow>
     (right = ''read'' \<or> right = ''cosign'') \<and>
     (root = ''01'' \<and> cl_Sub c = ''ana'' \<or> root = ''03'' \<and> cl_Sub c = ''bea'')"
  by (auto simp: allows_def acl_sample_store hasRight_def grant_names_def)

text \<open>A personal serial as two clients might spell it.\<close>

lemmas serial_eval = NormalizeSerial_def trim_space_def trim_left_def trim_right_def strip_left_id
  leading_rune_def space_runes_def has_prefix_def char_of_def to_upper_def upper_char_def bit_Suc_0_iff

lemma NormalizeSerial_sample:
  "NormalizeSerial '' pno1'' = ''PNO1''" "NormalizeSerial ''Pno1'' = ''PNO1''"
proof -
  have lead: "leading_rune space_runes '' pno1'' = Some '' ''"
    by (simp add: leading_rune_def space_runes_def has_prefix_def char_of_def bit_Suc_0_iff)
  have stop: "leading_rune space_runes ''pno1'' = None"
    by (simp add: leading_rune_def space_runes_def has_prefix_def char_of_def)
  have "trim_left '' pno1'' = ''pno1''"
    unfolding trim_left_def by (subst strip_left.simps) (simp add: lead stop strip_left_id)
  moreover have "to_upper (trim_right ''pno1'') = ''PNO1''" by (simp add: serial_eval)
  ultimately show "NormalizeSerial '' pno1'' = ''PNO1''"
    by (simp only: NormalizeSerial_def trim_space_def)
  show "NormalizeSerial ''Pno1'' = ''PNO1''" by (simp add: serial_eval)
qed

lemma sample_store_run: "foldl (\<lambda>m op. store_exec op m) NewMemory sample_ops = sample_store"
  by (simp add: sample_ops_def sample_store_def sample_doc_def NewMemory_def mem_Insert_def Let_def
      blocks_insert_def creator_grant_def put_row_def sample_input_def insert_row_def)

lemma reachable_sample_store: "store_reachable sample_store"
proof -
  let ?a = "store_exec (sample_ops ! 0) NewMemory"
  let ?b = "store_exec (sample_ops ! 1) ?a"
  note defs = sample_ops_def NewMemory_def mem_Insert_def Let_def blocks_insert_def creator_grant_def
    put_row_def sample_input_def insert_row_def
  have "store_reachable ?a"
    by (rule store_reachable.step [OF store_reachable.start])
       (rule store_step.call, simp_all add: sample_ops_def revives_def fresh_id_def visits_def NewMemory_def sample_input_def)
  then have "store_reachable ?b"
    by (rule store_reachable.step)
       (rule store_step.call, simp_all add: revives_def fresh_id_def visits_def defs)
  then have "store_reachable (store_exec (sample_ops ! 2) ?b)"
    by (rule store_reachable.step)
       (rule store_step.call, auto simp add: revives_def fresh_id_def visits_def defs)
  moreover have "store_exec (sample_ops ! 2) ?b = sample_store"
    using sample_store_run by (simp add: sample_ops_def)
  ultimately show ?thesis by simp
qed

end
