(* ===== verification/ViewLemmas.thy ===== *)
theory ViewLemmas
  imports MemoryViews
begin

text \<open>
  What the listings compute: the head maps in closed form, independence of every answer from
  the order the row map was visited in, agreement of the chain projections with one another,
  and completeness of keyset pagination.
\<close>

section \<open>Head maps in closed form\<close>

definition chain_shown :: "memory \<Rightarrow> caller \<Rightarrow> document \<Rightarrow> bool" where
  "chain_shown m c d \<longleftrightarrow> d_Status d \<noteq> ''deleted'' \<and> allows m (chainRootID d) c ''read''"

lemma add_head_apply:
  "add_head r d heads root =
     (if root = r then pick_best headOutranks (heads root) [d] else heads root)"
  by (simp add: add_head_def split: option.split)

lemma chain_heads_eq:
  "chain_heads m c ds heads root =
     pick_best headOutranks (heads root) (filter (\<lambda>d. chain_shown m c d \<and> chainRootID d = root) ds)"
  by (induction ds arbitrary: heads) (auto simp: chain_shown_def add_head_apply)

definition history_shown :: "string list \<Rightarrow> memory \<Rightarrow> string \<Rightarrow> string \<Rightarrow> document \<Rightarrow> bool" where
  "history_shown ord m owner after d \<longleftrightarrow>
     d_Owner d = owner \<and> terminal d \<and> terminalChain ord m (chainRootID d) \<and>
     \<not> (after \<noteq> [] \<and> chainRootID d \<ge> after)"

lemma history_heads_eq:
  "history_heads ord m owner after ds heads root =
     pick_best headOutranks (heads root)
       (filter (\<lambda>d. history_shown ord m owner after d \<and> chainRootID d = root) ds)"
  by (induction ds arbitrary: heads) (auto simp: history_shown_def terminal_def add_head_apply)

section \<open>Independence of the visiting order\<close>

lemma pick_best_rows:
  assumes "wf_mem m" and "visits ord (rows m)" and "visits ord' (rows m)"
  shows "pick_best headOutranks None (filter P (range_vals ord (rows m)))
       = pick_best headOutranks None (filter P (range_vals ord' (rows m)))"
proof (rule head_order.pick_best_set)
  show "set (filter P (range_vals ord (rows m))) = set (filter P (range_vals ord' (rows m)))"
    using assms(2,3) by (simp add: visits_rows_set)
  show "inj_on head_key (set (filter P (range_vals ord (rows m))))"
    using wf_mem_inj [OF assms(1)] assms(2)
    by (intro inj_head_key) (auto simp: visits_rows_set inj_on_def)
qed

lemma sort_docs_order:
  assumes "wf_mem m" and "visits ord (rows m)" and "visits ord' (rows m)"
  shows "sort_slice newer_id (filter P (range_vals ord (rows m)))
       = sort_slice newer_id (filter P (range_vals ord' (rows m)))"
proof (rule pdf_order.sort_slice_set)
  show "inj_on d_ID (set (filter P (range_vals ord (rows m))))"
    using wf_mem_inj [OF assms(1)] assms(2) by (auto simp: visits_rows_set inj_on_def)
qed (use assms in \<open>auto simp: visits_rows_set intro: distinct_filter distinct_rows\<close>)

lemma chain_heads_order:
  assumes "wf_mem m" and "visits ord (rows m)" and "visits ord' (rows m)"
  shows "chain_heads m c (range_vals ord (rows m)) Map.empty
       = chain_heads m c (range_vals ord' (rows m)) Map.empty"
  by (rule ext) (simp add: chain_heads_eq pick_best_rows [OF assms])

lemma terminalChain_order:
  "visits ord (rows m) \<Longrightarrow> visits ord' (rows m) \<Longrightarrow> terminalChain ord m root = terminalChain ord' m root"
  by (simp add: terminalChain_def list_ex_set visits_rows_set)

lemma history_heads_order:
  assumes "wf_mem m" and "visits ord (rows m)" and "visits ord' (rows m)"
  shows "history_heads ord m owner after (range_vals ord (rows m)) Map.empty
       = history_heads ord' m owner after (range_vals ord' (rows m)) Map.empty"
proof -
  have "history_shown ord m owner after = history_shown ord' m owner after"
    using terminalChain_order [OF assms(2,3)] by (auto simp: history_shown_def fun_eq_iff)
  then show ?thesis by (intro ext) (simp add: history_heads_eq pick_best_rows [OF assms])
qed

text \<open>Ranging over a head map and keeping some roots, each with its own key.\<close>

lemma set_map_filter: "set (List.map_filter f xs) = {y. \<exists>x \<in> set xs. f x = Some y}"
  by (induction xs) (auto simp: List.map_filter_simps split: option.splits)

lemma distinct_map_filter:
  assumes "\<And>x y. f x = Some y \<Longrightarrow> g y = x" and "distinct xs"
  shows "distinct (List.map_filter f xs)"
  using assms(2)
proof (induction xs)
  case Nil
  then show ?case by (simp add: List.map_filter_simps)
next
  case (Cons x xs)
  then show ?case
    using assms(1) by (auto simp: List.map_filter_simps set_map_filter split: option.splits)
qed

lemma set_map_filter_visits:
  assumes "visits ord2 heads" and "\<And>x. heads x = None \<Longrightarrow> f x = None"
  shows "set (List.map_filter f ord2) = {y. \<exists>x. f x = Some y}"
  using assms by (force simp: set_map_filter visits_def)

lemma chain_row_root [simp]: "c_ChainRootID (chain_row m root h inner) = root"
  by (simp add: chain_row_def)

lemma history_row_root [simp]: "h_ChainRootID (history_row m root h) = root"
  by (simp add: history_row_def)

definition chain_pick :: "memory \<Rightarrow> time \<times> string \<Rightarrow> bool \<Rightarrow> (string \<rightharpoonup> document) \<Rightarrow> string \<Rightarrow> chain option" where
  "chain_pick m cursor incl heads root =
     (case heads root of None \<Rightarrow> None
      | Some h \<Rightarrow> if (\<not> incl \<and> d_Status h = ''expired'') \<or> \<not> before_cursor (fst cursor) (snd cursor) root h
                  then None else Some (chain_row m root h []))"

lemma chain_pick_Some_iff:
  "chain_pick m cursor incl heads root = Some y \<longleftrightarrow>
     (\<exists>h. heads root = Some h \<and> (incl \<or> d_Status h \<noteq> ''expired'') \<and>
          before_cursor (fst cursor) (snd cursor) root h \<and> y = chain_row m root h [])"
  by (auto simp: chain_pick_def split: option.splits)

lemma list_chain_rows_pick:
  "list_chain_rows m cursor incl ord2 heads = List.map_filter (chain_pick m cursor incl heads) ord2"
  by (simp add: list_chain_rows_def chain_pick_def [abs_def])

lemma chain_pick_root: "chain_pick m cursor incl heads root = Some y \<Longrightarrow> c_ChainRootID y = root"
  by (auto simp: chain_pick_def split: option.splits if_splits)

lemma set_list_chain_rows:
  "visits ord2 heads \<Longrightarrow>
     set (list_chain_rows m cursor incl ord2 heads) = {y. \<exists>root. chain_pick m cursor incl heads root = Some y}"
  unfolding list_chain_rows_pick by (erule set_map_filter_visits) (simp add: chain_pick_def)

lemma sort_chains_order:
  assumes "visits ord2 heads" and "visits ord2' heads"
  shows "sort_slice chain_newer (list_chain_rows m cursor incl ord2 heads)
       = sort_slice chain_newer (list_chain_rows m cursor incl ord2' heads)"
proof (rule chain_order.sort_slice_set)
  have "distinct (list_chain_rows m cursor incl o2 heads)" if "visits o2 heads" for o2
    unfolding list_chain_rows_pick using chain_pick_root that
    by (intro distinct_map_filter [where g = c_ChainRootID]) (auto simp: visits_def)
  with assms show "distinct (list_chain_rows m cursor incl ord2 heads)"
    and "distinct (list_chain_rows m cursor incl ord2' heads)" by simp_all
  show "set (list_chain_rows m cursor incl ord2 heads) = set (list_chain_rows m cursor incl ord2' heads)"
    using assms by (simp add: set_list_chain_rows)
  show "inj_on chain_key (set (list_chain_rows m cursor incl ord2 heads))"
  proof (rule inj_onI)
    fix x y
    assume "x \<in> set (list_chain_rows m cursor incl ord2 heads)"
      and "y \<in> set (list_chain_rows m cursor incl ord2 heads)" and "chain_key x = chain_key y"
    moreover from this(3) have "c_ChainRootID x = c_ChainRootID y" by (simp add: chain_key_def)
    ultimately show "x = y"
      using assms(1) by (auto simp: set_list_chain_rows) (metis chain_pick_root option.inject)
  qed
qed

lemma sort_history_order:
  assumes "visits ord2 heads" and "visits ord2' heads"
  shows "sort_slice history_newer (List.map_filter (\<lambda>root. map_option (history_row m root) (heads root)) ord2)
       = sort_slice history_newer (List.map_filter (\<lambda>root. map_option (history_row m root) (heads root)) ord2')"
    (is "sort_slice _ (?l ord2) = _")
proof (rule history_order.sort_slice_set)
  let ?f = "\<lambda>root. map_option (history_row m root) (heads root)"
  have root: "?f x = Some y \<Longrightarrow> h_ChainRootID y = x" for x y by auto
  have "distinct (?l o2)" if "visits o2 heads" for o2
    by (rule distinct_map_filter [where f = ?f and g = h_ChainRootID, OF root])
       (use that in \<open>simp_all add: visits_def\<close>)
  with assms show "distinct (?l ord2)" and "distinct (?l ord2')" by simp_all
  have "set (?l o2) = {y. \<exists>x. ?f x = Some y}" if "visits o2 heads" for o2
    using that by (rule set_map_filter_visits) simp
  with assms show "set (?l ord2) = set (?l ord2')" by simp
  show "inj_on h_ChainRootID (set (?l ord2))"
    by (rule inj_onI) (auto simp: set_map_filter)
qed

section \<open>The chain projections agree\<close>

text \<open>
  The head of a chain in the sense of the code's comment: among the chain's rows that are not
  deleted, a signed form outranks the source, and between equals the newest identifier wins.
\<close>

definition is_head :: "memory \<Rightarrow> string \<Rightarrow> document \<Rightarrow> bool" where
  "is_head m root h \<longleftrightarrow>
     h \<in> ran (rows m) \<and> chainRootID h = root \<and> d_Status h \<noteq> ''deleted'' \<and>
     (\<forall>d \<in> ran (rows m). chainRootID d = root \<and> d_Status d \<noteq> ''deleted'' \<longrightarrow>
        d = h \<or> headOutranks h d)"

lemma pick_head_iff:
  assumes "wf_mem m" and "visits ord (rows m)"
  shows "pick_best headOutranks None
           (filter (\<lambda>d. chainRootID d = root \<and> d_Status d \<noteq> ''deleted'') (range_vals ord (rows m))) = Some h
         \<longleftrightarrow> is_head m root h"
proof -
  let ?xs = "filter (\<lambda>d. chainRootID d = root \<and> d_Status d \<noteq> ''deleted'') (range_vals ord (rows m))"
  have inj: "inj_on head_key (ran (rows m))"
    using wf_mem_inj [OF assms(1)] by (rule inj_head_key)
  then have "inj_on head_key (set ?xs)"
    using assms(2) by (auto simp: visits_rows_set inj_on_def)
  then have "pick_best headOutranks None ?xs = Some h
      \<longleftrightarrow> h \<in> set ?xs \<and> (\<forall>x \<in> set ?xs. head_key x \<le> head_key h)"
    by (rule head_order.pick_best_iff)
  also have "\<dots> \<longleftrightarrow> h \<in> set ?xs \<and> (\<forall>d \<in> set ?xs. d = h \<or> headOutranks h d)"
  proof -
    have "head_key d \<le> head_key h \<longleftrightarrow> d = h \<or> headOutranks h d" if "d \<in> set ?xs" "h \<in> set ?xs" for d
      using that assms(2) inj_on_eq_iff [OF inj, of d h]
      by (auto simp: head_order.outranks_key visits_rows_set order.order_iff_strict)
    then show ?thesis by blast
  qed
  also have "\<dots> \<longleftrightarrow> is_head m root h"
    using assms(2) by (auto simp: is_head_def visits_rows_set)
  finally show ?thesis .
qed

lemma is_head_unique: "is_head m root h \<Longrightarrow> is_head m root h' \<Longrightarrow> h = h'"
  unfolding is_head_def head_order.outranks_key by (metis less_asym)

lemma mem_GetChain_iff:
  assumes "wf_mem m" and "visits ord (rows m)"
  shows "mem_GetChain ord m c k = Inr x \<longleftrightarrow>
    (\<exists>d h. rows m k = Some d \<and> allows m (chainRootID d) c ''read'' \<and> is_head m (chainRootID d) h \<and>
       x = chain_row m (chainRootID d) h (d_InnerFiles h))"
  using pick_head_iff [OF assms]
  by (auto simp: mem_GetChain_def Let_def split: option.splits dest: is_head_unique) (force dest: is_head_unique)+

lemma chain_heads_is_head:
  assumes "wf_mem m" and "visits ord (rows m)"
  shows "chain_heads m c (range_vals ord (rows m)) Map.empty root = Some h \<longleftrightarrow>
    allows m root c ''read'' \<and> is_head m root h"
proof (cases "allows m root c ''read''")
  case True
  then have "(\<lambda>d. chain_shown m c d \<and> chainRootID d = root)
      = (\<lambda>d. chainRootID d = root \<and> d_Status d \<noteq> ''deleted'')"
    by (auto simp: chain_shown_def)
  with True show ?thesis by (simp add: chain_heads_eq pick_head_iff [OF assms])
next
  case False
  then have "filter (\<lambda>d. chain_shown m c d \<and> chainRootID d = root) (range_vals ord (rows m)) = []"
    by (auto simp: chain_shown_def filter_empty_conv)
  with False show ?thesis by (simp add: chain_heads_eq)
qed

lemma is_head_row: "wf_mem m \<Longrightarrow> is_head m root h \<Longrightarrow> rows m (d_ID h) = Some h \<and> chainRootID h = root"
  by (simp add: is_head_def wf_mem_ran)

lemma set_page: "set (page dflt limit xs) \<subseteq> set xs"
  unfolding page_def by (rule set_take_subset)

lemma page_all: "int (length xs) \<le> limit \<Longrightarrow> 0 < limit \<Longrightarrow> page dflt limit xs = xs"
  by (simp add: page_def)

lemma set_list_chains:
  assumes "wf_mem m" and "visits ord (rows m)"
    and "visits ord2 (chain_heads m c (range_vals ord (rows m)) Map.empty)"
  shows "set (list_chain_rows m cursor incl ord2 (chain_heads m c (range_vals ord (rows m)) Map.empty))
    = {chain_row m root h [] | root h. allows m root c ''read'' \<and> is_head m root h \<and>
         (incl \<or> d_Status h \<noteq> ''expired'') \<and> before_cursor (fst cursor) (snd cursor) root h}"
  using assms(3)
  by (auto simp: set_list_chain_rows chain_pick_Some_iff chain_heads_is_head [OF assms(1,2)])

section \<open>Keyset pagination of the document listing\<close>

definition all_docs :: "string list \<Rightarrow> memory \<Rightarrow> caller \<Rightarrow> document list" where
  "all_docs ord m c = sort_slice newer_id (filter (doc_listed m c []) (range_vals ord (rows m)))"

lemma all_docs_sorted:
  assumes "wf_mem m" and "visits ord (rows m)"
  shows "sorted_wrt (\<lambda>x y. d_ID y < d_ID x) (all_docs ord m c)"
  unfolding all_docs_def
proof (rule pdf_order.strict_sort_slice)
  show "inj_on d_ID (set (filter (doc_listed m c []) (range_vals ord (rows m))))"
    using wf_mem_inj [OF assms(1)] assms(2) by (auto simp: visits_rows_set inj_on_def)
qed (use assms in \<open>simp add: distinct_rows\<close>)

lemma set_all_docs: "visits ord (rows m) \<Longrightarrow> set (all_docs ord m c) = {d \<in> ran (rows m). doc_listed m c [] d}"
  by (auto simp: all_docs_def visits_rows_set)

lemma distinct_all_docs: "wf_mem m \<Longrightarrow> visits ord (rows m) \<Longrightarrow> distinct (all_docs ord m c)"
  by (simp add: all_docs_def distinct_rows)

lemma mem_List_after:
  assumes "wf_mem m" and "visits ord (rows m)"
  shows "mem_List ord m c limit after =
    page 100 limit (if after = [] then all_docs ord m c else filter (\<lambda>d. d_ID d < after) (all_docs ord m c))"
proof (cases "after = []")
  case True
  then show ?thesis by (simp add: mem_List_def all_docs_def)
next
  case False
  have "sort_slice newer_id (filter (doc_listed m c after) (range_vals ord (rows m)))
      = filter (\<lambda>d. d_ID d < after) (all_docs ord m c)"
  proof (rule pdf_order.strict_sorted_unique)
    show "sorted_wrt (\<lambda>x y. d_ID y < d_ID x)
        (sort_slice newer_id (filter (doc_listed m c after) (range_vals ord (rows m))))"
    proof (rule pdf_order.strict_sort_slice)
      show "inj_on d_ID (set (filter (doc_listed m c after) (range_vals ord (rows m))))"
        using wf_mem_inj [OF assms(1)] assms(2) by (auto simp: visits_rows_set inj_on_def)
    qed (use assms in \<open>simp add: distinct_rows\<close>)
    show "sorted_wrt (\<lambda>x y. d_ID y < d_ID x) (filter (\<lambda>d. d_ID d < after) (all_docs ord m c))"
      using all_docs_sorted [OF assms] by (rule sorted_wrt_filter)
    show "set (sort_slice newer_id (filter (doc_listed m c after) (range_vals ord (rows m))))
        = set (filter (\<lambda>d. d_ID d < after) (all_docs ord m c))"
      using False by (auto simp: all_docs_def doc_listed_def not_le)
  qed
  with False show ?thesis by (simp add: mem_List_def)
qed

end
