(* ===== verification/ReadConfinement.thy ===== *)
theory ReadConfinement
  imports ViewLemmas StoreInv
begin

text \<open>
  What a caller's reads depend on.  Two stores that agree on the access list and on the rows
  of the chains a caller may read answer every read of that caller alike, whatever else they
  hold and in whatever order their rows are visited: no read reveals that a foreign row exists.
\<close>

section \<open>Stores that agree for a caller\<close>

definition visible :: "memory \<Rightarrow> caller \<Rightarrow> document \<Rightarrow> bool" where
  "visible m c d \<longleftrightarrow> allows m (chainRootID d) c ''read'' \<or> allows m (d_ID d) c ''read''"

definition agree_for :: "caller \<Rightarrow> memory \<Rightarrow> memory \<Rightarrow> bool" where
  "agree_for c m m' \<longleftrightarrow>
     acl m' = acl m \<and> (\<forall>k d. visible m c d \<longrightarrow> (rows m' k = Some d \<longleftrightarrow> rows m k = Some d))"

lemma allows_acl: "acl m' = acl m \<Longrightarrow> allows m' = allows m"
  by (intro ext) (simp add: allows_def)

lemma agree_allows: "agree_for c m m' \<Longrightarrow> allows m' = allows m"
  unfolding agree_for_def by (blast intro: allows_acl)

lemma agree_row: "agree_for c m m' \<Longrightarrow> visible m c d \<Longrightarrow> rows m' k = Some d \<longleftrightarrow> rows m k = Some d"
  by (simp add: agree_for_def)

lemma agree_ran: "agree_for c m m' \<Longrightarrow> visible m c d \<Longrightarrow> d \<in> ran (rows m') \<longleftrightarrow> d \<in> ran (rows m)"
  by (auto simp: ran_def agree_row)

lemma agree_sym: "agree_for c m m' \<Longrightarrow> agree_for c m' m"
  unfolding agree_for_def visible_def by (metis allows_acl)

lemma agree_refl: "agree_for c m m"
  by (simp add: agree_for_def)

text \<open>Selected rows of two agreeing stores: the same set, hence the same best row and the same sorted list.\<close>

lemma agree_filter:
  assumes "agree_for c m m'" and "visits ord (rows m)" and "visits ord' (rows m')"
    and "\<And>d. P d \<Longrightarrow> visible m c d"
  shows "set (filter P (range_vals ord (rows m))) = set (filter P (range_vals ord' (rows m')))"
  using assms agree_ran by (auto simp: visits_rows_set)

lemma inj_on_filter:
  "wf_mem m \<Longrightarrow> visits ord (rows m) \<Longrightarrow> inj_on d_ID (set (filter P (range_vals ord (rows m))))"
  using wf_mem_inj by (fastforce simp: visits_rows_set inj_on_def)

lemma agree_sort:
  assumes "wf_mem m" and "wf_mem m'" and "agree_for c m m'" and "visits ord (rows m)"
    and "visits ord' (rows m')" and "\<And>d. P d \<Longrightarrow> visible m c d"
  shows "sort_slice newer_id (filter P (range_vals ord (rows m)))
       = sort_slice newer_id (filter P (range_vals ord' (rows m')))"
  using assms
  by (intro pdf_order.sort_slice_set) (simp_all only: agree_filter inj_on_filter distinct_filter distinct_rows)

lemma agree_best:
  assumes "wf_mem m" and "agree_for c m m'" and "visits ord (rows m)"
    and "visits ord' (rows m')" and "\<And>d. P d \<Longrightarrow> visible m c d"
  shows "pick_best headOutranks None (filter P (range_vals ord (rows m)))
       = pick_best headOutranks None (filter P (range_vals ord' (rows m')))"
  using assms
  by (intro head_order.pick_best_set [OF agree_filter] inj_head_key inj_on_filter)

lemma agree_newest:
  assumes "wf_mem m" and "agree_for c m m'" and "visits ord (rows m)"
    and "visits ord' (rows m')" and "\<And>d. P d \<Longrightarrow> visible m c d"
  shows "pick_best newer_id None (filter P (range_vals ord (rows m)))
       = pick_best newer_id None (filter P (range_vals ord' (rows m')))"
  using assms
  by (intro pdf_order.pick_best_set [OF agree_filter] inj_on_filter)

lemma find_unique:
  assumes "set (filter P xs) = set (filter P ys)" and "\<And>x y. x \<in> set xs \<Longrightarrow> y \<in> set xs \<Longrightarrow> P x \<Longrightarrow> P y \<Longrightarrow> x = y"
  shows "find P xs = find P ys"
proof (cases "find P xs")
  case None
  then have "filter P ys = []" using assms(1) by (auto simp: find_None_iff filter_empty_conv)
  then have "find P ys = None" by (auto simp: find_None_iff filter_empty_conv)
  with None show ?thesis by simp
next
  case (Some x)
  then have x: "x \<in> set xs" "P x" by (auto simp: find_Some_iff)
  with assms(1) have "find P ys \<noteq> None" by (auto simp: find_None_iff)
  then obtain y where y: "find P ys = Some y" by blast
  then have "y \<in> set ys" "P y" by (auto simp: find_Some_iff)
  with assms(1) have "y \<in> set xs" by auto
  with x \<open>P y\<close> assms(2) have "x = y" by blast
  with Some y show ?thesis by simp
qed

section \<open>The reads\<close>

lemma agree_root_row:
  assumes "wf_mem m" and "wf_mem m'" and "agree_for c m m'" and "allows m root c ''read''"
  shows "rows m' root = rows m root"
proof -
  have "rows m' root = Some d \<longleftrightarrow> rows m root = Some d" for d
  proof
    assume d: "rows m' root = Some d"
    with assms(2,4) have "visible m c d" by (simp add: visible_def wf_mem_id)
    with d assms(3) show "rows m root = Some d" by (simp add: agree_row)
  next
    assume d: "rows m root = Some d"
    with assms(1,4) have "visible m c d" by (simp add: visible_def wf_mem_id)
    with d assms(3) show "rows m' root = Some d" by (simp add: agree_row)
  qed
  then show ?thesis by (cases "rows m root"; cases "rows m' root") auto
qed

lemma agree_project:
  "wf_mem m \<Longrightarrow> wf_mem m' \<Longrightarrow> agree_for c m m' \<Longrightarrow> allows m (chainRootID d) c ''read'' \<Longrightarrow>
     project_freeze m' d = project_freeze m d"
  by (simp add: project_freeze_def agree_root_row)

lemma agree_chain_row:
  "wf_mem m \<Longrightarrow> wf_mem m' \<Longrightarrow> agree_for c m m' \<Longrightarrow> allows m root c ''read'' \<Longrightarrow>
     chain_row m' root h = chain_row m root h"
  by (intro ext) (simp add: chain_row_def chain_frozen_def chain_created_def agree_root_row)

text \<open>A readable row at a key of one store is the row at that key of the other.\<close>

lemma agree_lookup:
  assumes "agree_for c m m'"
  obtains (same) d where "rows m k = Some d" and "rows m' k = Some d" and "allows m (chainRootID d) c ''read''"
  | (hidden) "\<And>d. rows m k = Some d \<Longrightarrow> \<not> allows m (chainRootID d) c ''read''"
      and "\<And>d. rows m' k = Some d \<Longrightarrow> \<not> allows m (chainRootID d) c ''read''"
proof (cases "\<exists>d. (rows m k = Some d \<or> rows m' k = Some d) \<and> allows m (chainRootID d) c ''read''")
  case True
  then obtain d where d: "rows m k = Some d \<or> rows m' k = Some d" "allows m (chainRootID d) c ''read''"
    by blast
  then have "visible m c d" by (simp add: visible_def)
  with d assms have "rows m k = Some d" "rows m' k = Some d" by (auto simp: agree_row)
  with d(2) show ?thesis by (rule same [rotated 2])
next
  case False
  then show ?thesis by (intro hidden) blast+
qed

lemma agree_Get:
  assumes "wf_mem m" and "wf_mem m'" and "agree_for c m m'"
  shows "mem_Get m' k c = mem_Get m k c"
proof -
  note al = agree_allows [OF assms(3)]
  from assms(3) show ?thesis
  proof (cases rule: agree_lookup [where k = k])
    case (same d)
    with agree_project [OF assms] show ?thesis by (simp add: mem_Get_def al)
  next
    case hidden
    then show ?thesis by (simp add: mem_Get_def al split: option.split)
  qed
qed

lemma agree_List:
  assumes "wf_mem m" and "wf_mem m'" and "agree_for c m m'"
    and "visits ord (rows m)" and "visits ord' (rows m')"
  shows "mem_List ord' m' c limit after = mem_List ord m c limit after"
proof -
  have "doc_listed m' c after = doc_listed m c after"
    by (intro ext) (simp add: doc_listed_def agree_allows [OF assms(3)])
  then show ?thesis
    using agree_sort [OF assms, of "doc_listed m c after"]
    by (simp add: mem_List_def doc_listed_def visible_def)
qed

lemma agree_GetChain:
  assumes "wf_mem m" and "wf_mem m'" and "agree_for c m m'"
    and "visits ord (rows m)" and "visits ord' (rows m')"
  shows "mem_GetChain ord' m' c k = mem_GetChain ord m c k"
proof -
  note al = agree_allows [OF assms(3)]
  from assms(3) show ?thesis
  proof (cases rule: agree_lookup [where k = k])
    case (same d)
    have "pick_best headOutranks None (filter (\<lambda>x. chainRootID x = chainRootID d \<and> d_Status x \<noteq> ''deleted'')
             (range_vals ord (rows m)))
        = pick_best headOutranks None (filter (\<lambda>x. chainRootID x = chainRootID d \<and> d_Status x \<noteq> ''deleted'')
             (range_vals ord' (rows m')))"
      using same(3) by (intro agree_best [OF assms(1,3,4,5)]) (simp add: visible_def)
    with same agree_chain_row [OF assms(1-3)] show ?thesis
      by (simp add: mem_GetChain_def Let_def al cong: option.case_cong)
  next
    case hidden
    then show ?thesis by (simp add: mem_GetChain_def Let_def al split: option.split)
  qed
qed

lemma agree_chain_heads:
  assumes "wf_mem m" and "agree_for c m m'" and "visits ord (rows m)" and "visits ord' (rows m')"
  shows "chain_heads m' c (range_vals ord' (rows m')) Map.empty = chain_heads m c (range_vals ord (rows m)) Map.empty"
proof
  fix root
  have "chain_shown m' c = chain_shown m c"
    by (intro ext) (simp add: chain_shown_def agree_allows [OF assms(2)])
  moreover have "pick_best headOutranks None (filter (\<lambda>d. chain_shown m c d \<and> chainRootID d = root) (range_vals ord (rows m)))
      = pick_best headOutranks None (filter (\<lambda>d. chain_shown m c d \<and> chainRootID d = root) (range_vals ord' (rows m')))"
    by (rule agree_best [OF assms]) (auto simp: chain_shown_def visible_def)
  ultimately show "chain_heads m' c (range_vals ord' (rows m')) Map.empty root
      = chain_heads m c (range_vals ord (rows m)) Map.empty root"
    by (simp add: chain_heads_eq)
qed

lemma agree_chain_pick:
  assumes "wf_mem m" and "wf_mem m'" and "agree_for c m m'" and "visits ord (rows m)"
  shows "chain_pick m' cursor incl (chain_heads m c (range_vals ord (rows m)) Map.empty)
       = chain_pick m cursor incl (chain_heads m c (range_vals ord (rows m)) Map.empty)"
proof
  fix root
  let ?heads = "chain_heads m c (range_vals ord (rows m)) Map.empty"
  show "chain_pick m' cursor incl ?heads root = chain_pick m cursor incl ?heads root"
  proof (cases "?heads root")
    case None
    then show ?thesis by (simp add: chain_pick_def)
  next
    case (Some h)
    then have "allows m root c ''read''" using chain_heads_is_head [OF assms(1,4)] by blast
    with Some agree_chain_row [OF assms(1-3)] show ?thesis by (simp add: chain_pick_def)
  qed
qed

lemma agree_ListChains:
  assumes "wf_mem m" and "wf_mem m'" and "agree_for c m m'"
    and "visits ord (rows m)" and "visits ord' (rows m')"
    and "visits ord2 (chain_heads m c (range_vals ord (rows m)) Map.empty)"
    and "visits ord2' (chain_heads m' c (range_vals ord' (rows m')) Map.empty)"
  shows "mem_ListChains ord' ord2' m' c limit after incl = mem_ListChains ord ord2 m c limit after incl"
proof -
  note heads = agree_chain_heads [OF assms(1,3,4,5)]
  show ?thesis
    using sort_chains_order [OF assms(6), of ord2' m "parse_cursor after" incl] assms(7)
    unfolding mem_ListChains_def heads
    by (simp add: list_chain_rows_pick agree_chain_pick [OF assms(1-4)])
qed

lemma container_unique:
  assumes "wf_mem m" and "unique_forms m" and "parent \<noteq> []"
    and "x \<in> ran (rows m)" and "y \<in> ran (rows m)"
    and "d_Kind x = ''container''" "d_ParentID x = parent" "d_Status x \<noteq> ''deleted''"
    and "d_Kind y = ''container''" "d_ParentID y = parent" "d_Status y \<noteq> ''deleted''"
  shows "x = y"
proof (rule ccontr)
  assume "x \<noteq> y"
  from assms(1,4,5) have r: "rows m (d_ID x) = Some x" "rows m (d_ID y) = Some y" by (simp_all add: wf_mem_ran)
  with \<open>x \<noteq> y\<close> have "d_ID x \<noteq> d_ID y" by auto
  with r assms(2,3,9-11) have "\<not> blocks_insert (d_Kind y) (d_ParentID y) x"
    unfolding unique_forms_def signed_kind_def by blast
  with assms show False by (simp add: blocks_insert_def)
qed

lemma agree_GetContainerByParent:
  assumes "wf_mem m" and "unique_forms m" and "agree_for c m m'"
    and "visits ord (rows m)" and "visits ord' (rows m')"
  shows "mem_GetContainerByParent ord' m' parent c = mem_GetContainerByParent ord m parent c"
proof (cases "parent = [] \<or> \<not> allows m parent c ''read''")
  case True
  then show ?thesis by (simp add: mem_GetContainerByParent_def agree_allows [OF assms(3)])
next
  case False
  let ?P = "\<lambda>d. d_Kind d = ''container'' \<and> d_ParentID d = parent \<and> d_Status d \<noteq> ''deleted''"
  have "find ?P (range_vals ord (rows m)) = find ?P (range_vals ord' (rows m'))"
  proof (rule find_unique)
    show "set (filter ?P (range_vals ord (rows m))) = set (filter ?P (range_vals ord' (rows m')))"
      using False by (intro agree_filter [OF assms(3-5)]) (auto simp: visible_def chainRootID_def)
    show "x = y" if "x \<in> set (range_vals ord (rows m))" "y \<in> set (range_vals ord (rows m))" "?P x" "?P y" for x y
      using False that assms(4) by (intro container_unique [OF assms(1,2)]) (auto simp: visits_rows_set)
  qed
  with False show ?thesis by (simp add: mem_GetContainerByParent_def agree_allows [OF assms(3)])
qed

lemma agree_GetLatestSignedPdf:
  assumes "wf_mem m" and "agree_for c m m'" and "visits ord (rows m)" and "visits ord' (rows m')"
  shows "mem_GetLatestSignedPdfByChain ord' m' parent c = mem_GetLatestSignedPdfByChain ord m parent c"
proof (cases "parent = [] \<or> \<not> allows m parent c ''read''")
  case True
  then show ?thesis by (simp add: mem_GetLatestSignedPdfByChain_def agree_allows [OF assms(2)])
next
  case False
  have "pick_best newer_id None (filter (live_pdf_of parent) (range_vals ord (rows m)))
      = pick_best newer_id None (filter (live_pdf_of parent) (range_vals ord' (rows m')))"
    using False by (intro agree_newest [OF assms]) (auto simp: visible_def live_pdf_of_def chainRootID_def)
  with False show ?thesis by (simp add: mem_GetLatestSignedPdfByChain_def agree_allows [OF assms(2)])
qed

end
