(* ===== verification/StoreProps.thy ===== *)
theory StoreProps
  imports StoreSafety StoreSample ReadConfinement
begin

text \<open>
  The correctness properties of the metadata store, stated over its operations and reads, each
  applied at a concrete store where it has hypotheses.
\<close>

section \<open>One live signed form per chain\<close>

text \<open>C7: in every state reachable by any interleaving of store operations, two different live
  rows are never both the signed container of the same parent, nor both the signed PDF of the
  same chain tree (the chain root counted in).\<close>

theorem one_live_signed_form:
  assumes "store_reachable m" and "rows m k = Some d" and "rows m l = Some e" and "k \<noteq> l"
    and "d_Status d \<noteq> ''deleted''" and "d_Status e \<noteq> ''deleted''" and "d_ParentID e \<noteq> []"
  shows "\<not> (d_Kind d = ''container'' \<and> d_Kind e = ''container'' \<and> d_ParentID d = d_ParentID e) \<and>
    \<not> (d_Kind d = ''pdf'' \<and> d_Kind e = ''pdf'' \<and> chainRootID d = chainRootID e)"
proof -
  from store_reachable_inv [OF assms(1)] have "unique_forms m" by blast
  then have "signed_kind (d_Kind e) \<Longrightarrow> \<not> blocks_insert (d_Kind e) (d_ParentID e) d"
    using assms unfolding unique_forms_def by blast
  with assms show ?thesis by (auto simp: blocks_insert_def signed_kind_def chainRootID_def split: if_splits)
qed

lemma one_live_signed_form_witness:
  "\<not> (d_Kind (the (rows sample_store ''01'')) = ''container'' \<and>
       d_ParentID (the (rows sample_store ''01'')) = ''01'')"
  using one_live_signed_form [OF reachable_sample_store, of "''01''" _ "''02''"]
  by (simp add: rows_sample_store)

section \<open>Legal hold\<close>

text \<open>C8: whatever sequence of deletes, sweeps, bundles, rebundles, grants, inserts, freezes and
  retention changes is served, a row under legal hold is still there afterwards, with the hold,
  its storage reference, its wrapped key, its content hash and its status.\<close>

theorem held_row_survives:
  assumes "wf_mem m" and "run_ok ops m" and "\<forall>op \<in> set ops. \<not> ignores_hold op"
    and "rows m k = Some d" and "d_LegalHold d"
  shows "\<exists>d'. rows (run_ops ops m) k = Some d' \<and> d_LegalHold d' \<and> d_StorageRef d' = d_StorageRef d \<and>
    d_EncryptionKeyRef d' = d_EncryptionKeyRef d \<and> d_ContentHash d' = d_ContentHash d \<and>
    d_Status d' = d_Status d"
  using held_safe_run [OF assms(1-3)] assms(4,5) unfolding held_safe_def same_custody_def by metis

definition sample_held :: memory where
  "sample_held = put_row ((sample_doc ''03'' ''bea'' ''source'' [] ''received'' 50 30)\<lparr>d_LegalHold := True\<rparr>) sample_store"

lemma held_row_survives_witness:
  "\<exists>d'. rows (run_ops [OpRemoveAccess [''01'', ''02'', ''03''] [''01'', ''02'', ''03''] (\<lambda>_. 900) ''03'' (sample_caller ''bea''),
                       OpSweepRetention [''01'', ''02'', ''03''] (\<lambda>_. 1000) 1000 0] sample_held) ''03'' = Some d' \<and>
        d_LegalHold d' \<and> d_StorageRef d' = ''source'' \<and> d_EncryptionKeyRef d' = ''k'' \<and>
        d_ContentHash d' = ''h'' \<and> d_Status d' = ''received''"
proof -
  let ?ops = "[OpRemoveAccess [''01'', ''02'', ''03''] [''01'', ''02'', ''03''] (\<lambda>_. 900) ''03'' (sample_caller ''bea''),
               OpSweepRetention [''01'', ''02'', ''03''] (\<lambda>_. 1000) 1000 0]"
  have row: "rows sample_held ''03'' =
      Some ((sample_doc ''03'' ''bea'' ''source'' [] ''received'' 50 30)\<lparr>d_LegalHold := True\<rparr>)"
    by (simp add: sample_held_def)
  have wf: "wf_mem sample_held"
    using wf_sample_store by (simp add: sample_held_def wf_put)
  have vis: "visits [''01'', ''02'', ''03''] (rows sample_held)"
    by (auto simp: visits_def sample_held_def rows_sample_store)
  have ok: "run_ok ?ops sample_held"
    using vis by (simp add: revives_def mem_RemoveAccess_def row Let_def in_chain_def
        sample_held_def rows_sample_store tenantMatches_def chainRootID_def allows_def acl_sample_store
        hasRight_def grant_names_def)
  show ?thesis using held_row_survives [OF wf ok _ row] by simp
qed

section \<open>Access\<close>

text \<open>C10: no operation confers access except three: inserting a chain root (to its creator, on
  that new chain), bundling (to the bundle's owner, on the new container) and granting (to
  callers the grant's principal names, the rights it names, on the chain of the document it
  names).  In particular deletes, sweeps, replacements and chained inserts confer none.\<close>

theorem access_has_origin:
  assumes "wf_mem m" and "op_ok op m" and "allows (store_exec op m) root c right" and "\<not> allows m root c right"
  shows "(\<exists>ord now inp. op = OpInsert ord root now inp \<and> ii_ParentID inp = [] \<and> grant_names (creator_grant root inp) c) \<or>
    (\<exists>now inp. op = OpBundle root now inp \<and> cl_Sub c = bi_Owner inp) \<or>
    (\<exists>inp d. op = OpGrant inp \<and> rows m (gi_DocID inp) = Some d \<and> root = chainRootID d \<and>
       (right \<in> set (gi_Rights inp) \<or> gi_Rights inp = [] \<and> right \<in> {''read'', ''cosign''}) \<and>
       (gi_PrincipalKind inp = ''sub'' \<and> gi_PrincipalID inp = cl_Sub c \<or>
        gi_PrincipalKind inp = ''serial'' \<and> NormalizeSerial (gi_PrincipalID inp) = NormalizeSerial (cl_Serial c) \<or>
        gi_PrincipalKind inp = ''product'' \<and> gi_PrincipalID inp = cl_Product c))"
proof -
  from assms(3) obtain g where g: "g \<in> set (acl (store_exec op m))" "g_ChainRoot g = root"
      "hasRight (g_Rights g) right" "grant_names g c"
    unfolding allows_iff by blast
  with assms(4) have "g \<notin> set (acl m)" unfolding allows_iff by blast
  from acl_exec_origin [OF assms(1,2) g(1) this] show ?thesis
  proof (elim disjE exE conjE)
    fix ord k now inp
    assume "op = OpInsert ord k now inp" "ii_ParentID inp = []" "g = creator_grant k inp"
    with g show ?thesis by (simp add: creator_grant_def Let_def)
  next
    fix k now inp
    assume "op = OpBundle k now inp" "g = bundle_grant k inp"
    with g show ?thesis by (simp add: bundle_grant_def grant_names_def)
  next
    fix inp d
    assume h: "op = OpGrant inp" "rows m (gi_DocID inp) = Some d" "g_ChainRoot g = chainRootID d"
      "g_Kind g = gi_PrincipalKind inp"
      "g_Principal g = (if gi_PrincipalKind inp = ''serial'' then NormalizeSerial (gi_PrincipalID inp) else gi_PrincipalID inp)"
      "g_Rights g = (if gi_Rights inp = [] then [''read'', ''cosign''] else gi_Rights inp)"
    have "right \<in> set (gi_Rights inp) \<or> gi_Rights inp = [] \<and> right \<in> {''read'', ''cosign''}"
      using g(3) h(6) by (auto simp: hasRight_def list_ex_set split: if_splits)
    moreover have "gi_PrincipalKind inp = ''sub'' \<and> gi_PrincipalID inp = cl_Sub c \<or>
        gi_PrincipalKind inp = ''serial'' \<and> NormalizeSerial (gi_PrincipalID inp) = NormalizeSerial (cl_Serial c) \<or>
        gi_PrincipalKind inp = ''product'' \<and> gi_PrincipalID inp = cl_Product c"
      using g(4) h(4,5) by (auto simp: grant_names_def split: if_splits)
    ultimately show ?thesis using h g(2) by blast
  qed
qed

definition sample_grant :: grant_input where
  "sample_grant = \<lparr>gi_DocID = ''02'', gi_PrincipalKind = ''serial'', gi_PrincipalID = '' pno1'',
     gi_Rights = [], gi_TenantID = [], gi_GrantedBy = ''ana''\<rparr>"

lemma access_has_origin_witness:
  "\<exists>inp d. OpGrant sample_grant = OpGrant inp \<and> rows sample_store (gi_DocID inp) = Some d \<and> chainRootID d = ''01''"
proof -
  let ?c = "(sample_caller ''cid'')\<lparr>cl_Serial := ''Pno1''\<rparr>"
  have "allows (store_exec (OpGrant sample_grant) sample_store) ''01'' ?c ''cosign''"
    by (simp add: mem_Grant_def sample_grant_def rows_sample_store acl_sample_store Let_def chainRootID_def
        allows_def hasRight_def grant_names_def NormalizeSerial_sample)
  then show ?thesis
    using access_has_origin [OF wf_sample_store, of "OpGrant sample_grant" "''01''" ?c "''cosign''"] by auto
qed

text \<open>Granting a right to a personal serial lets in every caller whose serial differs from it
  only in letter case and surrounding white space, on the whole chain of the document named;
  and granting twice is granting once.\<close>

theorem grant_reaches_serial:
  assumes "rows m (gi_DocID inp) = Some d" and "gi_PrincipalKind inp = ''serial''"
    and "NormalizeSerial (cl_Serial c) = NormalizeSerial (gi_PrincipalID inp)"
    and "NormalizeSerial (cl_Serial c) \<noteq> []"
    and "right \<in> set (gi_Rights inp) \<or> gi_Rights inp = [] \<and> right \<in> {''read'', ''cosign''}"
  shows "\<exists>m'. mem_Grant inp m = (Inr (), m') \<and> rows m' = rows m \<and> allows m' (chainRootID d) c right \<and>
    mem_Grant inp m' = (Inr (), m')"
proof -
  let ?rights = "if gi_Rights inp = [] then [''read'', ''cosign''] else gi_Rights inp"
  let ?acl = "grant_entry (chainRootID d) ''serial'' (NormalizeSerial (gi_PrincipalID inp)) ?rights (acl m)"
  have "mem_Grant inp m = (Inr (), m\<lparr>acl := ?acl\<rparr>)"
    using assms(1,2) by (simp add: mem_Grant_def Let_def)
  moreover have "mem_Grant inp (m\<lparr>acl := ?acl\<rparr>) = (Inr (), m\<lparr>acl := ?acl\<rparr>)"
    using assms(1,2) by (simp add: mem_Grant_def Let_def grant_entry_idem)
  moreover have "allows (m\<lparr>acl := ?acl\<rparr>) (chainRootID d) c right"
  proof -
    let ?g = "\<lparr>g_ChainRoot = chainRootID d, g_Kind = ''serial'',
        g_Principal = NormalizeSerial (gi_PrincipalID inp), g_Rights = ?rights\<rparr>"
    have "?g \<in> set ?acl" by (rule grant_entry_mem)
    moreover have "hasRight ?rights right" using assms(5) by (auto simp: hasRight_def list_ex_set)
    moreover have "grant_names ?g c" using assms(3,4) by (simp add: grant_names_def)
    ultimately show ?thesis unfolding allows_iff by (intro bexI [of _ ?g]) simp_all
  qed
  ultimately show ?thesis by auto
qed

lemma grant_reaches_serial_witness:
  "\<exists>m'. mem_Grant sample_grant sample_store = (Inr (), m') \<and>
     allows m' ''01'' ((sample_caller ''cid'')\<lparr>cl_Serial := ''Pno1''\<rparr>) ''read''"
proof -
  let ?c = "(sample_caller ''cid'')\<lparr>cl_Serial := ''Pno1''\<rparr>"
  have n: "NormalizeSerial (cl_Serial ?c) = NormalizeSerial (gi_PrincipalID sample_grant)"
    and n': "NormalizeSerial (cl_Serial ?c) \<noteq> []"
    by (simp_all add: sample_grant_def NormalizeSerial_sample)
  show ?thesis
    using grant_reaches_serial [of sample_store sample_grant _ ?c "''read''", OF _ _ n n']
    by (auto simp: sample_grant_def rows_sample_store chainRootID_def)
qed

section \<open>Leaving a chain\<close>

text \<open>C13: a successful delete takes exactly the caller's own entries off the chain's access list,
  so the caller holds no right on it any more and everyone else's access, here and on every other
  chain, is as before.  If somebody is left, no row changes and nothing is to be shredded; if the
  caller was the last, exactly the chain's not yet deleted rows are stripped of storage reference
  and key, and the references returned for shredding are exactly theirs.\<close>

theorem leave_chain:
  assumes "wf_mem m" and "visits ord1 (rows m)" and "visits ord2 (rows m)"
    and "mem_RemoveAccess ord1 ord2 clk k c m = (Inr refs, m')" and "rows m k = Some d"
  shows "(\<forall>right. \<not> allows m' (chainRootID d) c right) \<and>
    acl m' = filter (\<lambda>g. \<not> (g_ChainRoot g = chainRootID d \<and> grant_names g c)) (acl m) \<and>
    (if \<exists>g \<in> set (acl m'). g_ChainRoot g = chainRootID d then refs = [] \<and> rows m' = rows m
     else set refs = purged_of ` {x \<in> ran (rows m). in_chain (chainRootID d) x \<and> d_Status x \<noteq> ''deleted''} \<and>
       (\<forall>l x. rows m l = Some x \<longrightarrow> rows m' l =
          Some (if in_chain (chainRootID d) x \<and> d_Status x \<noteq> ''deleted'' then purge_row ''deleted'' (clk l) x else x)))"
  using assms(1-4)
proof (cases rule: mem_RemoveAccess_cases)
  case (refused e)
  then show ?thesis by simp
next
  case (left d')
  with assms(5) show ?thesis by (auto simp: allows_iff kept_grants_def)
next
  case (last d')
  then have d: "d' = d" using assms(5) by simp
  let ?ps = "purgeable (chainRootID d) ord2 m"
  have ps: "set ?ps = {x \<in> ran (rows m). in_chain (chainRootID d) x \<and> d_Status x \<noteq> ''deleted''}"
    using assms(3) by (auto simp: purgeable_def visits_rows_set)
  have mem: "l \<in> d_ID ` set ?ps \<longleftrightarrow> in_chain (chainRootID d) x \<and> d_Status x \<noteq> ''deleted''"
    if "rows m l = Some x" for l x
    using wf_mem_key [OF assms(1) that, of "set ?ps"] that by (auto simp: ps intro: ranI)
  have "rows m' l = Some (if in_chain (chainRootID d) x \<and> d_Status x \<noteq> ''deleted'' then purge_row ''deleted'' (clk l) x else x)"
    if "rows m l = Some x" for l x
    using last(7) mem [OF that] that unfolding d by (simp add: rows_purge_keys)
  moreover have "acl m' = kept_grants (chainRootID d) c m" using last(7) d by simp
  ultimately show ?thesis using last(5,6) d by (auto simp: allows_iff kept_grants_def ps)
qed

lemma leave_chain_witness:
  "\<exists>refs m'. mem_RemoveAccess [''03'', ''01'', ''02''] [''01'', ''02'', ''03''] (\<lambda>_. 99) ''02'' (sample_caller ''ana'') sample_store
       = (Inr refs, m') \<and> \<not> allows m' ''01'' (sample_caller ''ana'') ''read'' \<and>
     p_StorageRef ` set refs = {''source'', ''container''}"
proof -
  let ?r = "mem_RemoveAccess [''03'', ''01'', ''02''] [''01'', ''02'', ''03''] (\<lambda>_. 99) ''02'' (sample_caller ''ana'') sample_store"
  obtain refs m' where eq: "?r = (Inr refs, m')" and a: "p_StorageRef ` set refs = {''source'', ''container''}"
    by (auto simp: mem_RemoveAccess_def rows_sample_store chainRootID_def tenantMatches_def in_chain_def Let_def
        kept_grants_def acl_sample_store grant_names_def)
  then show ?thesis
    using leave_chain [OF wf_sample_store visits_sample_store visits_sample_store' eq, of "sample_doc ''02'' ''ana'' ''container'' ''01'' ''signed'' 200 20"]
    by (auto simp: rows_sample_store chainRootID_def)
qed

section \<open>Concurrent signing\<close>

text \<open>C12: the compare-and-set of the in-place replace loses no update.  A successful replace ran
  against the hash it expected, changes that one row and hands back the references it replaced;
  any other replace prepared against the same bytes is then refused and changes nothing.\<close>

theorem replace_loses_no_update:
  assumes "wf_mem m" and "mem_ReplaceContainerBlob now inp m = (Inr (d', old), m1)"
    and "ri_ContentHash inp \<noteq> ri_ExpectedHash inp"
    and "ri_ID inp2 = ri_ID inp" and "ri_ExpectedHash inp2 = ri_ExpectedHash inp"
    and "ri_PreservationClass inp2 \<in> {[], ''none'', ''b_lt'', ''preservation''}"
  shows "\<exists>d. rows m (ri_ID inp) = Some d \<and> d_ContentHash d = ri_ExpectedHash inp \<and> old = purged_of d \<and>
    rows m1 = (rows m)(ri_ID inp \<mapsto> d') \<and> acl m1 = acl m \<and>
    d_StorageRef d' = ri_StorageRef inp \<and> d_ContentHash d' = ri_ContentHash inp \<and>
    mem_ReplaceContainerBlob now2 inp2 m1 = (Inl ErrChainAdvanced, m1)"
proof -
  from assms(2) obtain d where d: "rows m (ri_ID inp) = Some d" "d_ContentHash d = ri_ExpectedHash inp"
      "d_Kind d \<noteq> ''source''" "d' = replace_row now inp d" "old = purged_of d" "m1 = put_row d' m"
    by (auto simp: mem_ReplaceContainerBlob_def Let_def split: if_splits option.splits)
  moreover have "d_ID d' = ri_ID inp" using d assms(1) by (simp add: wf_mem_id)
  moreover have "mem_ReplaceContainerBlob now2 inp2 m1 = (Inl ErrChainAdvanced, m1)"
    using calculation assms(3-6) by (auto simp: mem_ReplaceContainerBlob_def)
  ultimately show ?thesis by (intro exI [of _ d]) simp
qed

definition sample_replace :: "string \<Rightarrow> replace_input" where
  "sample_replace ref =
     \<lparr>ri_ID = ''02'', ri_ExpectedHash = ''h'', ri_StorageRef = ref, ri_ContentHash = ''g'', ri_Size = 2,
      ri_EncryptionKeyRef = ''k2'', ri_PreservationClass = ''b_lt''\<rparr>"

lemma replace_loses_no_update_witness:
  "\<exists>m1. snd (mem_ReplaceContainerBlob 40 (sample_replace ''a'') sample_store) = m1 \<and>
     mem_ReplaceContainerBlob 41 (sample_replace ''b'') m1 = (Inl ErrChainAdvanced, m1)"
proof -
  obtain d' old m1 where eq: "mem_ReplaceContainerBlob 40 (sample_replace ''a'') sample_store = (Inr (d', old), m1)"
    by (auto simp: mem_ReplaceContainerBlob_def sample_replace_def rows_sample_store Let_def)
  then show ?thesis
    using replace_loses_no_update [OF wf_sample_store eq, of "sample_replace ''b''" 41]
    by (auto simp: sample_replace_def)
qed

text \<open>Of two inserts of the same signed form for the same parent, the second loses: it is
  refused as \<open>ErrChainAdvanced\<close> and changes nothing, whatever its other fields.\<close>

theorem second_signed_form_refused:
  assumes "mem_Insert ord k now inp m = (Inr k', m1)" and "visits ord' (rows m1)"
    and "ii_Kind inp = ''container'' \<or> ii_Kind inp = ''pdf''" and "ii_Status inp \<noteq> ''deleted''"
    and "ii_Kind inp2 = ii_Kind inp" and "ii_ParentID inp2 = ii_ParentID inp" and "ii_ParentID inp \<noteq> []"
  shows "mem_Insert ord' k2 now2 inp2 m1 = (Inl ErrChainAdvanced, m1)"
proof (rule mem_Insert_refused [OF assms(2), where d = "insert_row k now inp"])
  have rows: "rows m1 = (rows m)(k \<mapsto> insert_row k now inp)"
    using assms(1,3,7) by (auto simp: mem_Insert_def Let_def split: if_splits)
  then show "insert_row k now inp \<in> ran (rows m1)" by (intro ranI [of _ k]) simp
  show "signed_kind (d_Kind (insert_row k2 now2 inp2))"
    and "blocks_insert (d_Kind (insert_row k2 now2 inp2)) (ii_ParentID inp2) (insert_row k now inp)"
    using assms(3-7) by (auto simp: signed_kind_def blocks_insert_def or_default_def)
qed (use assms(6,7) in simp)

lemma second_signed_form_refused_witness:
  "\<exists>m1. mem_Insert [''03'', ''01'', ''02''] ''04'' 40 (sample_input ''bea'' ''pdf'' ''03'' ''signed'' 70) sample_store = (Inr ''04'', m1) \<and>
     mem_Insert [''04'', ''01'', ''02'', ''03''] ''05'' 41 (sample_input ''ana'' ''pdf'' ''03'' ''signed'' 80) m1 = (Inl ErrChainAdvanced, m1)"
proof -
  obtain m1 where eq: "mem_Insert [''03'', ''01'', ''02''] ''04'' 40 (sample_input ''bea'' ''pdf'' ''03'' ''signed'' 70) sample_store = (Inr ''04'', m1)"
    and m1: "rows m1 = (rows sample_store)(''04'' \<mapsto> insert_row ''04'' 40 (sample_input ''bea'' ''pdf'' ''03'' ''signed'' 70))"
    by (auto simp: mem_Insert_def Let_def rows_sample_store blocks_insert_def sample_input_def)
  have "visits [''04'', ''01'', ''02'', ''03''] (rows m1)"
    by (auto simp: m1 rows_sample_store visits_def)
  then show ?thesis
    using second_signed_form_refused [OF eq] eq by (simp add: sample_input_def)
qed

end
