(* ===== verification/LifecycleProps.thy ===== *)
theory LifecycleProps
  imports StoreSafety StoreSample ViewLemmas
begin

text \<open>
  The properties of the life of a row: retention sweeps, bundling, retention dates, and the
  history of chains whose content is gone.
\<close>

section \<open>The retention sweep\<close>

text \<open>C34: a retention sweep expires exactly a set of rows that are due (dated before now, not under
  hold, not already expired or deleted), at most as many as its limit and, unless it filled its
  batch, all of them; a row with no date is never touched.  Expired rows lose storage reference
  and key, the old ones being returned for shredding; every other row and all access is kept.\<close>

theorem sweep_expires_due_rows:
  assumes "wf_mem m" and "visits ord (rows m)"
  shows "\<exists>ps m'. mem_SweepRetention ord clk now limit m = (Inr (map purged_of ps), m') \<and> distinct ps \<and>
    set ps \<subseteq> {d \<in> ran (rows m). due now d} \<and>
    (0 < limit \<longrightarrow> int (length ps) \<le> limit) \<and>
    (limit \<le> 0 \<or> int (length ps) < limit \<longrightarrow> set ps = {d \<in> ran (rows m). due now d}) \<and>
    acl m' = acl m \<and>
    (\<forall>k. rows m' k = (case rows m k of None \<Rightarrow> None
                      | Some d \<Rightarrow> Some (if d \<in> set ps then purge_row ''expired'' (clk k) d else d)))"
proof -
  let ?xs = "filter (due now) (range_vals ord (rows m))"
  let ?ps = "take_limit limit 0 ?xs"
  have xs: "set ?xs = {d \<in> ran (rows m). due now d}" using assms(2) by (auto simp: visits_rows_set)
  have "set ?ps \<subseteq> set ?xs" by (rule take_limit_subset)
  then have sub: "set ?ps \<subseteq> ran (rows m)" using xs by auto
  have eq: "mem_SweepRetention ord clk now limit m
      = (Inr (map purged_of ?ps), purge_keys ''expired'' clk (d_ID ` set ?ps) m)"
    using sweep_rows_eq [OF assms(1), of ord now clk limit "[]"] assms(2)
    by (simp add: mem_SweepRetention_def visits_def Let_def)
  have "rows (purge_keys ''expired'' clk (d_ID ` set ?ps) m) k = (case rows m k of None \<Rightarrow> None
      | Some d \<Rightarrow> Some (if d \<in> set ?ps then purge_row ''expired'' (clk k) d else d))" for k
    using wf_mem_key [OF assms(1) _ sub, of k] by (auto simp: rows_purge_keys split: option.split)
  moreover have "distinct ?ps"
    using distinct_rows [OF assms] by (simp add: take_limit_def)
  moreover have "0 < limit \<longrightarrow> int (length ?ps) \<le> limit" by (auto simp: take_limit_def min_def)
  moreover have "limit \<le> 0 \<or> int (length ?ps) < limit \<longrightarrow> set ?ps = set ?xs"
    by (auto simp: take_limit_def min_def split: if_splits)
  ultimately show ?thesis using eq \<open>set ?ps \<subseteq> set ?xs\<close> unfolding xs by (intro exI conjI) (assumption | simp)+
qed

lemma sweep_expires_due_rows_witness:
  "\<exists>ps m'. mem_SweepRetention [''03'', ''01'', ''02''] (\<lambda>_. 80) 80 0 sample_store = (Inr (map purged_of ps), m') \<and>
     d_ID ` set ps = {''03''}"
proof -
  have "{d \<in> ran (rows sample_store). due 80 d} = {sample_doc ''03'' ''bea'' ''source'' [] ''received'' 50 30}"
    by (auto simp: rows_sample_store due_def terminal_def)
  then show ?thesis
    using sweep_expires_due_rows [OF wf_sample_store visits_sample_store, of "\<lambda>_. 80" 80 0] by auto
qed

section \<open>Bundling\<close>

text \<open>C37: bundling conserves documents.  If it succeeds, the sources were pairwise different,
  owned by the caller, absorbable and not under hold; their rows and access entries are gone,
  their references are returned in order, and one new container row stands for them, readable by
  the owner; every other row is as it was.  If it fails, nothing has changed.\<close>

theorem bundle_conserves:
  assumes "wf_mem m" and "fresh_id k m" and "mem_Bundle k now inp m = (r, m')"
  shows "case r of Inl e \<Rightarrow> m' = m
    | Inr (k', refs) \<Rightarrow> k' = k \<and> bi_SourceIDs inp \<noteq> [] \<and> distinct (bi_SourceIDs inp) \<and>
        (\<exists>ds. map (rows m) (bi_SourceIDs inp) = map Some ds \<and> refs = map purged_of ds \<and>
           (\<forall>d \<in> set ds. d_Owner d = bi_Owner inp \<and> Bundleable (d_Kind d) (d_Status d) \<and> \<not> d_LegalHold d)) \<and>
        (\<forall>l. rows m' l = (if l = k then Some (bundle_row k now inp)
                          else if l \<in> set (bi_SourceIDs inp) then None else rows m l)) \<and>
        (\<forall>g \<in> set (acl m'). g_ChainRoot g \<notin> set (bi_SourceIDs inp)) \<and>
        (bi_Owner inp \<noteq> [] \<longrightarrow>
           allows m' k \<lparr>cl_Sub = bi_Owner inp, cl_Serial = [], cl_Product = [], cl_Tenant = []\<rparr> ''read'')"
proof (cases "bi_SourceIDs inp = []")
  case True
  with assms(3) show ?thesis by (auto simp: mem_Bundle_def)
next
  case ne: False
  then have len: "\<not> length (bi_SourceIDs inp) < 1" by simp
  show ?thesis
  proof (cases "bundle_sources m (bi_Owner inp) [] (bi_SourceIDs inp)")
    case (Inl e)
    with assms(3) len show ?thesis by (auto simp: mem_Bundle_def)
  next
    case (Inr ds)
    let ?m1 = "put_row (bundle_row k now inp) m"
    let ?m2 = "?m1\<lparr>acl := acl m @ [bundle_grant k inp]\<rparr>"
    from bundle_sources_Inr [OF Inr] have
      all: "list_all2 (\<lambda>k d. absorbSource m k (bi_Owner inp) = Inr d) (bi_SourceIDs inp) ds"
      and dist: "distinct (bi_SourceIDs inp)" by simp_all
    have keys: "d_ID ` set ds = set (bi_SourceIDs inp)" by (rule absorbed_keys [OF assms(1) all])
    have rows: "map (rows m) (bi_SourceIDs inp) = map Some ds" by (rule absorbed_map [OF all])
    have props: "d_Owner d = bi_Owner inp \<and> Bundleable (d_Kind d) (d_Status d) \<and> \<not> d_LegalHold d"
      if "d \<in> set ds" for d using absorbed_rows [OF all that] by blast
    have k: "k \<notin> set (bi_SourceIDs inp)"
    proof
      assume "k \<in> set (bi_SourceIDs inp)"
      from list_all2_left [OF all this] obtain d where "absorbSource m k (bi_Owner inp) = Inr d" by blast
      from absorbSource_Inr [OF this] assms(2) show False by (simp add: fresh_id_def)
    qed
    have eq: "r = Inr (k, map purged_of ds)" "m' = absorb_rows ds ?m2"
      using assms(3) Inr len by (simp_all add: mem_Bundle_def Let_def)
    have rm: "rows m' l = (if l = k then Some (bundle_row k now inp)
        else if l \<in> set (bi_SourceIDs inp) then None else rows m l)" for l
      unfolding eq rows_absorb_rows keys using k by (simp add: restrict_map_def)
    have am: "acl m' = filter (\<lambda>g. g_ChainRoot g \<notin> set (bi_SourceIDs inp)) (acl m @ [bundle_grant k inp])"
      unfolding eq acl_absorb_rows keys by simp
    have "allows m' k \<lparr>cl_Sub = bi_Owner inp, cl_Serial = [], cl_Product = [], cl_Tenant = []\<rparr> ''read''"
      if "bi_Owner inp \<noteq> []"
      unfolding allows_iff am using k that
      by (intro bexI [of _ "bundle_grant k inp"]) (simp_all add: bundle_grant_def hasRight_def grant_names_def)
    with ne dist rows props rm am eq show ?thesis by auto
  qed
qed

definition sample_bundle :: bundle_input where
  "sample_bundle =
     \<lparr>bi_Owner = ''bea'', bi_TenantID = [], bi_SourceIDs = [''03''], bi_Filename = ''b.asice'',
      bi_StorageRef = ''r'', bi_ContentHash = ''hh'', bi_Mime = ''m'', bi_Size = 9,
      bi_EncryptionKeyRef = ''kk'', bi_PreservationClass = [], bi_RetentionUntil = 500, bi_InnerFiles = []\<rparr>"

lemma bundle_conserves_witness:
  "\<exists>m'. mem_Bundle ''04'' 60 sample_bundle sample_store = (Inr (''04'', [\<lparr>p_ID = ''03'', p_StorageRef = ''source'', p_EncryptionKeyRef = ''k''\<rparr>]), m') \<and>
     rows m' ''03'' = None"
proof -
  have fresh: "fresh_id ''04'' sample_store"
    by (auto simp: fresh_id_def rows_sample_store acl_sample_store)
  obtain m' where eq: "mem_Bundle ''04'' 60 sample_bundle sample_store
      = (Inr (''04'', [\<lparr>p_ID = ''03'', p_StorageRef = ''source'', p_EncryptionKeyRef = ''k''\<rparr>]), m')"
    by (auto simp: mem_Bundle_def sample_bundle_def absorbSource_def rows_sample_store Bundleable_def Let_def purged_of_def)
  from bundle_conserves [OF wf_sample_store fresh eq] have "rows m' ''03'' = None"
    by (simp add: sample_bundle_def)
  with eq show ?thesis by blast
qed

section \<open>Retention dates\<close>

text \<open>Extending retention only ever moves a row's date later: afterwards the date is the later
  of the old one and the one asked for, an undated (durable) row stays undated, and nothing but
  that row's date and update time has changed.\<close>

theorem extend_never_shortens:
  assumes "wf_mem m" and "mem_ExtendRetention now k owner until m = (Inr (), m')"
  shows "\<exists>d. rows m k = Some d \<and> d_Owner d = owner \<and> acl m' = acl m \<and>
    rows m' = (rows m)(k \<mapsto> d\<lparr>d_RetentionUntil := map_option (max until) (d_RetentionUntil d), d_UpdatedAt := now\<rparr>)"
proof (cases "rows m k")
  case None
  with assms(2) show ?thesis by (simp add: mem_ExtendRetention_def)
next
  case (Some d)
  have max: "(case d_RetentionUntil d of None \<Rightarrow> None | Some u \<Rightarrow> if until > u then Some until else Some u)
      = map_option (max until) (d_RetentionUntil d)"
    by (simp add: max_def split: option.split)
  have owner: "d_Owner d = owner" using Some assms(2) by (simp add: mem_ExtendRetention_def split: if_splits)
  then have "m' = put_row (d\<lparr>d_RetentionUntil := map_option (max until) (d_RetentionUntil d), d_UpdatedAt := now\<rparr>) m"
    using Some assms(2) by (simp add: mem_ExtendRetention_def max)
  with Some owner wf_mem_id [OF assms(1) Some] show ?thesis by simp
qed

lemma extend_never_shortens_witness:
  "\<exists>m'. mem_ExtendRetention 60 ''03'' ''bea'' 40 sample_store = (Inr (), m') \<and>
     d_RetentionUntil (the (rows m' ''03'')) = Some 50"
proof -
  obtain m' where eq: "mem_ExtendRetention 60 ''03'' ''bea'' 40 sample_store = (Inr (), m')"
    by (auto simp: mem_ExtendRetention_def rows_sample_store)
  from extend_never_shortens [OF wf_sample_store eq] eq show ?thesis by (auto simp: rows_sample_store)
qed

lemma Max_insert_max: "finite S \<Longrightarrow> Max (insert (max t u) S) = Max (insert t (insert (u :: int) S))"
  by (cases "S = {}") (simp_all add: max.assoc)

lemma retention_loop_eq:
  "retention_loop root ds (t, n) =
     (Max (insert t {u. \<exists>d \<in> set ds. chainRootID d = root \<and> d_StorageRef d \<noteq> [] \<and> d_RetentionUntil d = Some u}),
      n + int (length (filter (\<lambda>d. chainRootID d = root \<and> d_StorageRef d \<noteq> []) ds)))"
proof (induction ds arbitrary: t n)
  case Nil
  then show ?case by simp
next
  case (Cons d ds)
  let ?S = "\<lambda>ds. {u. \<exists>d \<in> set ds. chainRootID d = root \<and> d_StorageRef d \<noteq> [] \<and> d_RetentionUntil d = Some u}"
  have fin: "finite (?S xs)" for xs
    by (rule finite_subset [of _ "(\<lambda>d. the (d_RetentionUntil d)) ` set xs"]) force+
  define mine where "mine \<longleftrightarrow> chainRootID d = root \<and> d_StorageRef d \<noteq> []"
  have S: "?S (d # ds) = (if mine then set_option (d_RetentionUntil d) else {}) \<union> ?S ds"
    by (auto simp: mine_def)
  show ?case
  proof (cases mine)
    case False
    then show ?thesis using Cons.IH [of t n] unfolding S by (auto simp: mine_def)
  next
    case True
    show ?thesis
    proof (cases "d_RetentionUntil d")
      case None
      with True show ?thesis using Cons.IH [of t "n + 1"] unfolding S by (simp add: mine_def)
    next
      case (Some u)
      have "Max (insert (max t u) (?S ds)) = Max (insert t (insert u (?S ds)))"
        by (rule Max_insert_max [OF fin])
      moreover have "retention_loop root (d # ds) (t, n) = retention_loop root ds (max t u, n + 1)"
        using True Some by (auto simp: mine_def max_def)
      ultimately show ?thesis using True Some Cons.IH [of "max t u" "n + 1"] unfolding S
        by (simp add: mine_def del: retention_loop.simps)
    qed
  qed
qed

text \<open>The retention reported for a chain is the latest date of any of its rows that still hold
  storage (the zero instant when none is dated) with the number of those rows, whatever the order
  the rows were visited in.\<close>

theorem chain_retention_is_latest:
  assumes "wf_mem m" and "visits ord (rows m)" and "rows m k = Some d"
  shows "mem_ChainRetention ord m k =
    Inr (Max (insert 0 {u. \<exists>x \<in> ran (rows m). chainRootID x = chainRootID d \<and> d_StorageRef x \<noteq> [] \<and>
                              d_RetentionUntil x = Some u}),
         int (card {x \<in> ran (rows m). chainRootID x = chainRootID d \<and> d_StorageRef x \<noteq> []}))"
proof -
  let ?P = "\<lambda>x. chainRootID x = chainRootID d \<and> d_StorageRef x \<noteq> []"
  have "length (filter ?P (range_vals ord (rows m))) = card (set (filter ?P (range_vals ord (rows m))))"
    by (rule distinct_card [symmetric]) (simp add: distinct_rows [OF assms(1,2)])
  also have "set (filter ?P (range_vals ord (rows m))) = {x \<in> ran (rows m). ?P x}"
    using assms(2) by (auto simp: visits_rows_set)
  finally show ?thesis
    using assms(3) by (simp add: mem_ChainRetention_def retention_loop_eq visits_rows_set [OF assms(2)])
qed

lemma chain_retention_is_latest_witness:
  "mem_ChainRetention [''03'', ''01'', ''02''] sample_store ''01'' = Inr (200, 2)"
proof -
  let ?a = "sample_doc ''01'' ''ana'' ''source'' [] ''received'' 100 10"
  let ?b = "sample_doc ''02'' ''ana'' ''container'' ''01'' ''signed'' 200 20"
  have "{x \<in> ran (rows sample_store). chainRootID x = ''01'' \<and> d_StorageRef x \<noteq> []} = {?a, ?b}"
    by (auto simp: rows_sample_store chainRootID_def split: if_splits)
  moreover have "?a \<noteq> ?b"
    by (rule contrapos_nn [where Q = "d_ID ?a = d_ID ?b"]) simp_all
  moreover have "{u. \<exists>x \<in> ran (rows sample_store). chainRootID x = ''01'' \<and> d_StorageRef x \<noteq> [] \<and> d_RetentionUntil x = Some u}
      = {100, 200}"
    by (auto simp: rows_sample_store chainRootID_def split: if_splits)
  ultimately show ?thesis
    using chain_retention_is_latest [OF wf_sample_store visits_sample_store, of "''01''" ?a]
    by (simp add: rows_sample_store chainRootID_def)
qed

section \<open>History\<close>

text \<open>C38: erasing a chain from the history removes only records of content that is gone.  It
  succeeds exactly when every row of the chain is expired or deleted and unheld and the caller
  owns one of them; then the caller's rows of the chain and its access entries go and nothing
  else.  Otherwise it reports the chain live, or not found, and changes nothing.\<close>

theorem delete_history_only_terminal:
  assumes "wf_mem m" and "visits ord1 (rows m)" and "visits ord2 (rows m)"
  shows "mem_DeleteHistoryChain ord1 ord2 owner root m =
    (if \<exists>d \<in> ran (rows m). chainRootID d = root \<and> \<not> (terminal d \<and> \<not> d_LegalHold d)
     then (Inl ErrChainLive, m)
     else if \<not> (\<exists>d \<in> ran (rows m). chainRootID d = root \<and> d_Owner d = owner)
     then (Inl ErrNotFound, m)
     else (Inr (), \<lparr>rows = (\<lambda>k. case rows m k of None \<Rightarrow> None
                              | Some d \<Rightarrow> if chainRootID d = root \<and> d_Owner d = owner then None else Some d),
                    acl = filter (\<lambda>g. g_ChainRoot g \<noteq> root) (acl m)\<rparr>))"
proof -
  let ?P = "\<lambda>d. chainRootID d = root \<and> d_Owner d = owner"
  let ?ps = "filter ?P (range_vals ord2 (rows m))"
  have ps: "set ?ps = {d \<in> ran (rows m). ?P d}" using assms(3) by (auto simp: visits_rows_set)
  have live: "list_ex (\<lambda>d. chainRootID d = root \<and>
        ((d_Status d \<noteq> ''expired'' \<and> d_Status d \<noteq> ''deleted'') \<or> d_LegalHold d)) (range_vals ord1 (rows m))
      \<longleftrightarrow> (\<exists>d \<in> ran (rows m). chainRootID d = root \<and> \<not> (terminal d \<and> \<not> d_LegalHold d))"
    using assms(2) by (auto simp: list_ex_set visits_rows_set terminal_def)
  have own: "drop_owned owner root ord2 0 m = (int (length ?ps), drop_keys (d_ID ` set ?ps) m)"
    using drop_owned_eq [OF assms(1), of ord2 owner root 0] assms(3) by (simp add: visits_def Let_def)
  have none: "int (length ?ps) = 0 \<longleftrightarrow> \<not> (\<exists>d \<in> ran (rows m). ?P d)"
  proof -
    have "?ps = [] \<longleftrightarrow> {d \<in> ran (rows m). ?P d} = {}" by (simp only: ps [symmetric] set_empty)
    then show ?thesis by auto
  qed
  have rows: "rows (drop_keys (d_ID ` set ?ps) m)
      = (\<lambda>k. case rows m k of None \<Rightarrow> None | Some d \<Rightarrow> if ?P d then None else Some d)"
  proof
    fix k
    show "rows (drop_keys (d_ID ` set ?ps) m) k
        = (case rows m k of None \<Rightarrow> None | Some d \<Rightarrow> if ?P d then None else Some d)"
    proof (cases "rows m k")
      case (Some d)
      with wf_mem_key [OF assms(1) Some, of "set ?ps"] have "k \<in> d_ID ` set ?ps \<longleftrightarrow> ?P d"
        unfolding ps by (auto intro: ranI)
      with Some show ?thesis by (simp add: restrict_map_def)
    qed (simp add: restrict_map_def)
  qed
  show ?thesis
  proof (cases "\<exists>d \<in> ran (rows m). ?P d")
    case True
    then have "drop_chain_acl root (drop_keys (d_ID ` set ?ps) m)
        = \<lparr>rows = (\<lambda>k. case rows m k of None \<Rightarrow> None | Some d \<Rightarrow> if ?P d then None else Some d),
           acl = filter (\<lambda>g. g_ChainRoot g \<noteq> root) (acl m)\<rparr>"
      by (intro memory.equality) (simp_all add: rows drop_chain_acl_def del: rows_drop_keys set_filter)
    with True none show ?thesis unfolding mem_DeleteHistoryChain_def live own by simp
  next
    case False
    then have "?ps = []" using none by simp
    with False show ?thesis unfolding mem_DeleteHistoryChain_def live own by simp
  qed
qed

lemma delete_history_only_terminal_witness:
  "mem_DeleteHistoryChain [''03'', ''01'', ''02''] [''01'', ''02'', ''03''] ''bea'' ''03'' sample_store
     = (Inl ErrChainLive, sample_store)"
  using delete_history_only_terminal [OF wf_sample_store visits_sample_store visits_sample_store', of "''bea''" "''03''"]
  by (auto simp: rows_sample_store chainRootID_def terminal_def)

end
