(* ===== verification/ReadProps.thy ===== *)
theory ReadProps
  imports ReadConfinement StoreSample
begin

text \<open>
  The properties of the store's reads: confinement to what the caller may read, agreement of the
  chain projections, completeness of pagination.
\<close>

section \<open>Confinement\<close>

text \<open>C31: a caller's document reads depend on nothing but the rows of chains the caller may read.
  Any two stores with the same access list that agree on those rows give the same answer to
  \<open>Get\<close> and \<open>List\<close>, whatever foreign rows they hold and in whatever order rows are visited;
  so a foreign row cannot be told from a missing one.\<close>

theorem document_reads_confined:
  assumes "wf_mem m" and "wf_mem m'" and "agree_for c m m'"
    and "visits ord (rows m)" and "visits ord' (rows m')"
  shows "mem_Get m' k c = mem_Get m k c \<and> mem_List ord' m' c limit after = mem_List ord m c limit after"
  using agree_Get [OF assms(1-3)] agree_List [OF assms] by blast

text \<open>The sample store without Bea's row: for Ana nothing has changed.\<close>

definition sample_without :: memory where
  "sample_without = drop_row ''03'' sample_store"

lemma wf_sample_without: "wf_mem sample_without"
  using wf_sample_store by (simp add: sample_without_def wf_mem_drop_row)

lemma visits_sample_without: "visits [''02'', ''01''] (rows sample_without)"
  by (auto simp: visits_def sample_without_def rows_sample_store)

lemma agree_sample: "agree_for (sample_caller ''ana'') sample_store sample_without"
  by (auto simp: agree_for_def sample_without_def drop_row_def visible_def rows_sample_store chainRootID_def
      split: if_splits)

lemma rows_sample_without:
  "rows sample_without =
     [''01'' \<mapsto> sample_doc ''01'' ''ana'' ''source'' [] ''received'' 100 10,
      ''02'' \<mapsto> sample_doc ''02'' ''ana'' ''container'' ''01'' ''signed'' 200 20]"
  by (auto simp: sample_without_def rows_sample_store fun_eq_iff)

lemma allows_sample_without: "allows sample_without = allows sample_store"
  by (rule allows_acl) (simp add: sample_without_def)

lemma document_reads_confined_witness:
  "mem_Get sample_store ''03'' (sample_caller ''ana'') = Inl ErrNotFound \<and>
   mem_List [''03'', ''01'', ''02''] sample_store (sample_caller ''ana'') 0 []
     = mem_List [''02'', ''01''] sample_without (sample_caller ''ana'') 0 []"
proof -
  have "mem_Get sample_without ''03'' (sample_caller ''ana'') = Inl ErrNotFound"
    by (simp add: mem_Get_def sample_without_def)
  then show ?thesis
    using document_reads_confined [OF wf_sample_store wf_sample_without agree_sample visits_sample_store visits_sample_without]
    by metis
qed

text \<open>C32: the same confinement for the chain listing and for the projection of one chain; with the
  two stores equal, it says that neither answer depends on the order in which the code ranges
  over its row map and its map of heads.\<close>

theorem chain_reads_confined:
  assumes "wf_mem m" and "wf_mem m'" and "agree_for c m m'"
    and "visits ord (rows m)" and "visits ord' (rows m')"
    and "visits ord2 (chain_heads m c (range_vals ord (rows m)) Map.empty)"
    and "visits ord2' (chain_heads m' c (range_vals ord' (rows m')) Map.empty)"
  shows "mem_GetChain ord' m' c k = mem_GetChain ord m c k \<and>
    mem_ListChains ord' ord2' m' c limit after incl = mem_ListChains ord ord2 m c limit after incl"
  using agree_GetChain [OF assms(1-5)] agree_ListChains [OF assms] by blast

lemma sample_heads:
  "chain_heads sample_store (sample_caller ''ana'') (range_vals [''03'', ''01'', ''02''] (rows sample_store)) Map.empty
     = [''01'' \<mapsto> sample_doc ''02'' ''ana'' ''container'' ''01'' ''signed'' 200 20]"
  "chain_heads sample_without (sample_caller ''ana'') (range_vals [''02'', ''01''] (rows sample_without)) Map.empty
     = [''01'' \<mapsto> sample_doc ''02'' ''ana'' ''container'' ''01'' ''signed'' 200 20]"
  by (simp_all add: rows_sample_store rows_sample_without allows_sample_without chainRootID_def add_head_def
      headOutranks_def Let_def)

lemma visits_sample_heads:
  "visits [''01''] (chain_heads sample_store (sample_caller ''ana'') (range_vals [''03'', ''01'', ''02''] (rows sample_store)) Map.empty)"
  "visits [''01''] (chain_heads sample_without (sample_caller ''ana'') (range_vals [''02'', ''01''] (rows sample_without)) Map.empty)"
  unfolding sample_heads by (simp_all add: visits_def)

lemma chain_reads_confined_witness:
  "mem_ListChains [''03'', ''01'', ''02''] [''01''] sample_store (sample_caller ''ana'') 10 [] False
     = mem_ListChains [''02'', ''01''] [''01''] sample_without (sample_caller ''ana'') 10 [] False"
  using chain_reads_confined [OF wf_sample_store wf_sample_without agree_sample visits_sample_store
      visits_sample_without visits_sample_heads] by simp

text \<open>C33: the same confinement for the two lookups of a chain's signed form, in every reachable
  store: the container found for a parent and the newest signed PDF of a chain are determined by
  the readable rows alone, not by which row a loop met first.\<close>

theorem signed_form_reads_confined:
  assumes "store_reachable m" and "agree_for c m m'" and "visits ord (rows m)" and "visits ord' (rows m')"
  shows "mem_GetContainerByParent ord' m' parent c = mem_GetContainerByParent ord m parent c \<and>
    mem_GetLatestSignedPdfByChain ord' m' parent c = mem_GetLatestSignedPdfByChain ord m parent c"
proof -
  from store_reachable_inv [OF assms(1)] have "wf_mem m" and "unique_forms m" by simp_all
  then show ?thesis using agree_GetContainerByParent agree_GetLatestSignedPdf assms(2-4) by blast
qed

lemma signed_form_reads_confined_witness:
  "mem_GetContainerByParent [''02'', ''01''] sample_without ''01'' (sample_caller ''ana'')
     = mem_GetContainerByParent [''03'', ''01'', ''02''] sample_store ''01'' (sample_caller ''ana'')"
  using signed_form_reads_confined [OF reachable_sample_store agree_sample visits_sample_store visits_sample_without]
  by simp

section \<open>The chain projections agree\<close>

text \<open>C35: the two views of a chain agree.  Every entry of any page of the chain listing is what
  \<open>GetChain\<close> answers for it, but for the inner-file list the listing leaves out; and a chain
  \<open>GetChain\<close> shows is in the first page when that is large enough, unless its head is expired
  and expired chains were not asked for.\<close>

theorem listing_agrees_with_getchain:
  assumes "wf_mem m" and "visits ord (rows m)"
    and "visits ord2 (chain_heads m c (range_vals ord (rows m)) Map.empty)"
  shows "(\<forall>x \<in> set (mem_ListChains ord ord2 m c limit after incl).
            \<exists>inner. mem_GetChain ord m c (c_ID x) = Inr (x\<lparr>c_InnerFiles := inner\<rparr>)) \<and>
    (\<forall>k x. mem_GetChain ord m c k = Inr x \<longrightarrow> incl \<or> c_Status x \<noteq> ''expired'' \<longrightarrow>
       int (length ord2) \<le> limit \<longrightarrow>
       x\<lparr>c_InnerFiles := []\<rparr> \<in> set (mem_ListChains ord ord2 m c limit [] incl))"
proof (intro conjI ballI allI impI)
  fix x assume "x \<in> set (mem_ListChains ord ord2 m c limit after incl)"
  then have "x \<in> set (list_chain_rows m (parse_cursor after) incl ord2 (chain_heads m c (range_vals ord (rows m)) Map.empty))"
    unfolding mem_ListChains_def using set_page by fastforce
  then obtain root h where x: "x = chain_row m root h []" "allows m root c ''read''" "is_head m root h"
    unfolding set_list_chains [OF assms] by blast
  have h: "rows m (d_ID h) = Some h" "chainRootID h = root" using is_head_row [OF assms(1) x(3)] by simp_all
  have "mem_GetChain ord m c (c_ID x) = Inr (chain_row m root h (d_InnerFiles h))"
    unfolding mem_GetChain_iff [OF assms(1,2)]
    by (rule exI [of _ h], rule exI [of _ h]) (use x h in \<open>simp add: chain_row_def\<close>)
  then show "\<exists>inner. mem_GetChain ord m c (c_ID x) = Inr (x\<lparr>c_InnerFiles := inner\<rparr>)"
    by (auto simp: x chain_row_def)
next
  fix k x assume g: "mem_GetChain ord m c k = Inr x" and incl: "incl \<or> c_Status x \<noteq> ''expired''"
    and lim: "int (length ord2) \<le> limit"
  let ?heads = "chain_heads m c (range_vals ord (rows m)) Map.empty"
  let ?l = "list_chain_rows m (parse_cursor []) incl ord2 ?heads"
  from g obtain d h where x: "x = chain_row m (chainRootID d) h (d_InnerFiles h)"
      "allows m (chainRootID d) c ''read''" "is_head m (chainRootID d) h"
    unfolding mem_GetChain_iff [OF assms(1,2)] by blast
  have "x\<lparr>c_InnerFiles := []\<rparr> = chain_row m (chainRootID d) h []" by (simp add: x chain_row_def)
  moreover have "c_Status x = d_Status h" by (simp add: x chain_row_def)
  ultimately have "x\<lparr>c_InnerFiles := []\<rparr> \<in> set ?l"
    unfolding set_list_chains [OF assms] using x(2,3) incl by (auto simp: parse_cursor_def before_cursor_def)
  moreover have "length ?l \<le> length ord2"
    by (simp add: list_chain_rows_pick List.map_filter_def)
  moreover from calculation(1) have "0 < length ?l" by (rule length_pos_if_in_set)
  moreover from calculation(2,3) lim have "0 < limit" by linarith
  ultimately have "page 100 limit (sort_slice chain_newer ?l) = sort_slice chain_newer ?l"
    and "x\<lparr>c_InnerFiles := []\<rparr> \<in> set (sort_slice chain_newer ?l)"
    using lim by (auto intro!: page_all)
  then show "x\<lparr>c_InnerFiles := []\<rparr> \<in> set (mem_ListChains ord ord2 m c limit [] incl)"
    by (simp add: mem_ListChains_def)
qed

lemma listing_agrees_with_getchain_witness:
  "\<exists>x inner. x \<in> set (mem_ListChains [''03'', ''01'', ''02''] [''01''] sample_store (sample_caller ''ana'') 10 [] False) \<and>
     c_ID x = ''02'' \<and>
     mem_GetChain [''03'', ''01'', ''02''] sample_store (sample_caller ''ana'') (c_ID x) = Inr (x\<lparr>c_InnerFiles := inner\<rparr>)"
proof -
  let ?h = "sample_doc ''02'' ''ana'' ''container'' ''01'' ''signed'' 200 20"
  have "chain_row sample_store ''01'' ?h [] \<in> set (mem_ListChains [''03'', ''01'', ''02''] [''01''] sample_store (sample_caller ''ana'') 10 [] False)"
    unfolding mem_ListChains_def sample_heads
    by (simp add: list_chain_rows_def List.map_filter_def page_def parse_cursor_def before_cursor_def)
  moreover have "c_ID (chain_row sample_store ''01'' ?h []) = ''02''" by (simp add: chain_row_def)
  ultimately show ?thesis
    using listing_agrees_with_getchain [OF wf_sample_store visits_sample_store visits_sample_heads(1), of 10 "[]" False] by blast
qed

section \<open>Pagination\<close>

text \<open>C36: a client that pages through the document listing, passing the last identifier of each page
  back as the cursor until a page comes back empty, receives every readable, not deleted document
  exactly once, newest first, for any page size and whatever order the rows are visited in for
  each page.\<close>

theorem document_pages_complete:
  assumes "wf_mem m" and "\<forall>a. visits (ords a) (rows m)" and "0 < n" and "card (dom (rows m)) < fuel"
  shows "let got = walk fuel d_ID (\<lambda>after. mem_List (ords after) m c n after) [] in
    distinct got \<and> sorted_wrt (\<lambda>x y. d_ID y < d_ID x) got \<and>
    set got = {d \<in> ran (rows m). d_Status d \<noteq> ''deleted'' \<and> allows m (chainRootID d) c ''read'' \<and> tenantMatches d c}"
proof -
  let ?all = "all_docs (ords []) m c"
  have v: "visits (ords a) (rows m)" for a using assms(2) by blast
  have same: "all_docs (ords a) m c = ?all" for a
    unfolding all_docs_def by (rule sort_docs_order [OF assms(1) v v])
  have "walk fuel d_ID (\<lambda>after. mem_List (ords after) m c n after) [] = ?all"
  proof (rule pdf_order.walk_complete)
    show "sorted_wrt (\<lambda>x y. d_ID y < d_ID x) ?all" by (rule all_docs_sorted [OF assms(1) v])
    show "\<forall>x \<in> set ?all. d_ID x \<noteq> []"
      using assms(1) by (auto simp: set_all_docs [OF v] ran_def wf_mem_def)
    show "0 < nat n" using assms(3) by simp
    show "mem_List (ords a) m c n a = take (nat n) (if a = [] then ?all else filter (\<lambda>x. d_ID x < a) ?all)" for a
      unfolding mem_List_after [OF assms(1) v] same [of a] page_def using assms(3) by simp
    have "length ?all = card (set ?all)"
      using distinct_all_docs [OF assms(1) v, of _ c] by (simp add: distinct_card)
    also have "\<dots> \<le> card (ran (rows m))"
      using finite_ran [OF wf_mem_finite [OF assms(1)]] by (rule card_mono) (auto simp: set_all_docs [OF v])
    also have "\<dots> \<le> card (dom (rows m))"
      using card_image_le [OF wf_mem_finite [OF assms(1)], of "the \<circ> rows m"] by (simp only: ran_the_image)
    finally show "length ?all < fuel" using assms(4) by simp
  qed
  then show ?thesis
    using all_docs_sorted [OF assms(1) v, of "[]" c] distinct_all_docs [OF assms(1) v, of "[]" c]
    by (auto simp: Let_def set_all_docs [OF v] doc_listed_def)
qed

lemma document_pages_complete_witness:
  "d_ID ` set (walk 4 d_ID (\<lambda>after. mem_List [''03'', ''01'', ''02''] sample_store (sample_caller ''ana'') 1 after) [])
     = {''01'', ''02''}"
proof -
  have "card (dom (rows sample_store)) < 4" by (simp add: rows_sample_store)
  then have "set (walk 4 d_ID (\<lambda>after. mem_List [''03'', ''01'', ''02''] sample_store (sample_caller ''ana'') 1 after) [])
      = {d \<in> ran (rows sample_store). d_Status d \<noteq> ''deleted'' \<and>
           allows sample_store (chainRootID d) (sample_caller ''ana'') ''read'' \<and> tenantMatches d (sample_caller ''ana'')}"
    using document_pages_complete [OF wf_sample_store, of "\<lambda>_. [''03'', ''01'', ''02'']" 1 4 "sample_caller ''ana''"]
      visits_sample_store by (simp add: Let_def)
  also have "\<dots> = {sample_doc ''01'' ''ana'' ''source'' [] ''received'' 100 10,
      sample_doc ''02'' ''ana'' ''container'' ''01'' ''signed'' 200 20}"
    by (auto simp: rows_sample_store chainRootID_def tenantMatches_def)
  finally show ?thesis by simp
qed

end
