(* ===== verification/StoreMoves.thy ===== *)
theory StoreMoves
  imports StoreSafety
begin

text \<open>
  How the store's operations move references to sealed bytes.  Each operation carries a row's
  reference, key, hash and size along unchanged, clears the reference, drops the row, or writes
  the one new reference it was given; and the references it hands back for destruction are
  pointed at by no row any more, provided no two rows shared one before.
\<close>

section \<open>Moves\<close>

definition same_bytes :: "document \<Rightarrow> document \<Rightarrow> bool" where
  "same_bytes d d' \<longleftrightarrow>
     d_StorageRef d' = d_StorageRef d \<and> d_EncryptionKeyRef d' = d_EncryptionKeyRef d \<and>
     d_ContentHash d' = d_ContentHash d \<and> d_Size d' = d_Size d"

text \<open>The new bytes an operation writes: row, reference, key reference, hash and size.\<close>

record new_bytes =
  nb_row :: string
  nb_ref :: string
  nb_key :: string
  nb_hash :: string
  nb_size :: int

definition holds_new :: "new_bytes \<Rightarrow> string \<Rightarrow> document \<Rightarrow> bool" where
  "holds_new n k d \<longleftrightarrow>
     k = nb_row n \<and> d_StorageRef d = nb_ref n \<and> d_EncryptionKeyRef d = nb_key n \<and>
     d_ContentHash d = nb_hash n \<and> d_Size d = nb_size n"

definition moves :: "new_bytes option \<Rightarrow> memory \<Rightarrow> memory \<Rightarrow> bool" where
  "moves new m m' \<longleftrightarrow>
     (\<forall>k d'. rows m' k = Some d' \<longrightarrow>
        d_StorageRef d' = [] \<or> (\<exists>d. rows m k = Some d \<and> same_bytes d d') \<or>
        (\<exists>n. new = Some n \<and> holds_new n k d'))"

definition refs_distinct :: "memory \<Rightarrow> bool" where
  "refs_distinct m \<longleftrightarrow>
     (\<forall>k l d e. rows m k = Some d \<and> rows m l = Some e \<and> d_StorageRef d = d_StorageRef e \<and> d_StorageRef d \<noteq> []
        \<longrightarrow> k = l)"

lemma refs_distinct_ran:
  assumes "refs_distinct m" and "d \<in> ran (rows m)" and "e \<in> ran (rows m)"
    and "d_StorageRef d = d_StorageRef e" and "d_StorageRef d \<noteq> []"
  shows "d = e"
proof -
  from assms(2,3) obtain k l where k: "rows m k = Some d" and l: "rows m l = Some e" by (auto simp: ran_def)
  with assms(1,4,5) have "k = l" unfolding refs_distinct_def by blast
  with k l show ?thesis by simp
qed

text \<open>No row points at the reference.\<close>

definition unref :: "string \<Rightarrow> memory \<Rightarrow> bool" where
  "unref r m \<longleftrightarrow> (\<forall>d \<in> ran (rows m). d_StorageRef d \<noteq> r)"

lemma unref_iff: "unref r m \<longleftrightarrow> (\<forall>k d. rows m k = Some d \<longrightarrow> d_StorageRef d \<noteq> r)"
  by (auto simp: unref_def ran_def)

lemma same_bytes_refl [simp]: "same_bytes d d"
  by (simp add: same_bytes_def)

lemma moves_rows: "rows m' = rows m \<Longrightarrow> moves new m m'"
  by (auto simp: moves_def)

lemma moves_refl [simp]: "moves new m m"
  by (rule moves_rows) simp

lemma moves_put:
  "(d_StorageRef d' = [] \<or> (\<exists>d. rows m (d_ID d') = Some d \<and> same_bytes d d') \<or> (\<exists>n. new = Some n \<and> holds_new n (d_ID d') d'))
     \<Longrightarrow> moves new m (put_row d' m)"
  by (auto simp: moves_def)

lemma moves_restrict: "moves new m m1 \<Longrightarrow> rows m' = rows m1 |` A \<Longrightarrow> moves new m m'"
  by (auto simp: moves_def restrict_map_def)

lemma moves_purge: "moves new m m1 \<Longrightarrow> moves new m (purge_keys st clk ks m1)"
  by (auto simp: moves_def rows_purge_keys split: if_splits)

lemma moves_acl: "moves new m (m1\<lparr>acl := a\<rparr>) \<longleftrightarrow> moves new m m1"
  by (simp add: moves_def)

lemma refs_distinct_moves:
  assumes "refs_distinct m" and "moves new m m'" and "\<And>n. new = Some n \<Longrightarrow> unref (nb_ref n) m"
  shows "refs_distinct m'"
  unfolding refs_distinct_def
proof (intro allI impI)
  fix k l d' e'
  assume h: "rows m' k = Some d' \<and> rows m' l = Some e' \<and> d_StorageRef d' = d_StorageRef e' \<and> d_StorageRef d' \<noteq> []"
  then have "(\<exists>d. rows m k = Some d \<and> same_bytes d d') \<or> (\<exists>n. new = Some n \<and> holds_new n k d')"
    and "(\<exists>e. rows m l = Some e \<and> same_bytes e e') \<or> (\<exists>n. new = Some n \<and> holds_new n l e')"
    using assms(2) unfolding moves_def by metis+
  then show "k = l"
  proof (elim disjE exE conjE)
    fix d e assume "rows m k = Some d" "same_bytes d d'" "rows m l = Some e" "same_bytes e e'"
    with h assms(1) show ?thesis unfolding refs_distinct_def same_bytes_def by metis
  next
    fix d n assume "rows m k = Some d" "same_bytes d d'" "new = Some n" "holds_new n l e'"
    with h assms(3) show ?thesis by (auto simp: unref_iff same_bytes_def holds_new_def)
  next
    fix n e assume "new = Some n" "holds_new n k d'" "rows m l = Some e" "same_bytes e e'"
    with h assms(3) show ?thesis by (auto simp: unref_iff same_bytes_def holds_new_def)
  next
    fix n n' assume "new = Some n" "holds_new n k d'" "new = Some n'" "holds_new n' l e'"
    then show ?thesis by (simp add: holds_new_def)
  qed
qed

text \<open>A reference whose row has let go of it is free.\<close>

lemma unref_released:
  assumes "refs_distinct m" and "moves new m m'" and "\<And>n. new = Some n \<Longrightarrow> nb_ref n \<noteq> d_StorageRef d"
    and "rows m k = Some d" and "d_StorageRef d \<noteq> []"
    and "\<And>d'. rows m' k = Some d' \<Longrightarrow> d_StorageRef d' \<noteq> d_StorageRef d"
  shows "unref (d_StorageRef d) m'"
  unfolding unref_iff
proof (intro allI impI notI)
  fix l e' assume e': "rows m' l = Some e'" and eq: "d_StorageRef e' = d_StorageRef d"
  with assms(5) have ne: "d_StorageRef e' \<noteq> []" by simp
  from assms(2) e' ne have "(\<exists>e. rows m l = Some e \<and> same_bytes e e') \<or> (\<exists>n. new = Some n \<and> holds_new n l e')"
    unfolding moves_def by metis
  then show False
  proof (elim disjE exE conjE)
    fix e assume e: "rows m l = Some e" "same_bytes e e'"
    with eq ne assms(1,4) have "l = k" unfolding refs_distinct_def same_bytes_def by metis
    with e' eq assms(6) show False by blast
  next
    fix n assume "new = Some n" "holds_new n l e'"
    with eq assms(3) show False by (simp add: holds_new_def)
  qed
qed

lemma unref_moves: "moves None m m' \<Longrightarrow> unref r m \<Longrightarrow> r \<noteq> [] \<Longrightarrow> unref r m'"
  unfolding unref_iff moves_def same_bytes_def by (metis option.distinct(1))

section \<open>The operations that hand references back\<close>

text \<open>All references returned are free in the new state.\<close>

definition frees :: "purged_ref list \<Rightarrow> memory \<Rightarrow> bool" where
  "frees refs m \<longleftrightarrow> (\<forall>p \<in> set refs. p_StorageRef p \<noteq> [] \<longrightarrow> unref (p_StorageRef p) m)"

lemma frees_purged:
  assumes "refs_distinct m" and "moves new m m'" and "\<And>n. new = Some n \<Longrightarrow> unref (nb_ref n) m"
    and "\<And>d. d \<in> set ds \<Longrightarrow> \<exists>k. rows m k = Some d \<and>
           (\<forall>d'. rows m' k = Some d' \<longrightarrow> d_StorageRef d' = [] \<or> (\<exists>n. new = Some n \<and> holds_new n k d'))"
  shows "frees (map purged_of ds) m'"
  unfolding frees_def
proof (intro ballI impI)
  fix p assume p: "p \<in> set (map purged_of ds)" and ne: "p_StorageRef p \<noteq> []"
  then obtain d where d: "d \<in> set ds" "p = purged_of d" by auto
  with assms(4) obtain k where k: "rows m k = Some d"
    "\<forall>d'. rows m' k = Some d' \<longrightarrow> d_StorageRef d' = [] \<or> (\<exists>n. new = Some n \<and> holds_new n k d')" by blast
  have new: "nb_ref n \<noteq> d_StorageRef d" if "new = Some n" for n
    using assms(3) [OF that] k(1) unfolding unref_iff by metis
  have "d_StorageRef d' \<noteq> d_StorageRef d" if "rows m' k = Some d'" for d'
    using k(2) that new ne d(2) unfolding holds_new_def by (metis purged_of_simps(2))
  then show "unref (p_StorageRef p) m'"
    using unref_released [OF assms(1,2) new k(1)] ne d(2) by simp
qed

lemma Insert_cases:
  assumes "mem_Insert ord k now inp m = (r, m')"
  obtains (refused) e where "r = Inl e" and "m' = m"
  | (inserted) "r = Inr k" and "rows m' = (rows m)(k \<mapsto> insert_row k now inp)"
  using assms by (auto simp: mem_Insert_def Let_def split: if_splits)

lemma Replace_cases:
  assumes "mem_ReplaceContainerBlob now inp m = (r, m')" and "wf_mem m"
  obtains (refused) e where "r = Inl e" and "m' = m"
  | (replaced) d where "rows m (ri_ID inp) = Some d" and "d_ContentHash d = ri_ExpectedHash inp"
      and "r = Inr (replace_row now inp d, purged_of d)" and "m' = put_row (replace_row now inp d) m"
proof (cases "rows m (ri_ID inp)")
  case None
  then have "\<exists>e. mem_ReplaceContainerBlob now inp m = (Inl e, m)"
    by (simp add: mem_ReplaceContainerBlob_def)
  with assms(1) refused show ?thesis by auto
next
  case (Some d)
  define bad where "bad \<longleftrightarrow> ri_PreservationClass inp \<notin> set [[], ''none'', ''b_lt'', ''preservation'']"
  define gone where "gone \<longleftrightarrow> d_Status d = ''deleted'' \<or> d_Kind d = ''source''"
  have eq: "(r, m') = (if bad then (Inl (ErrOther ''document: invalid preservation class''), m)
      else if gone then (Inl ErrNotFound, m)
      else if d_ContentHash d \<noteq> ri_ExpectedHash inp then (Inl ErrChainAdvanced, m)
      else (Inr (replace_row now inp d, purged_of d), put_row (replace_row now inp d) m))"
    unfolding assms(1) [symmetric] bad_def gone_def using Some by (simp add: mem_ReplaceContainerBlob_def Let_def)
  show ?thesis
  proof (cases "bad \<or> gone \<or> d_ContentHash d \<noteq> ri_ExpectedHash inp")
    case True
    with eq refused show ?thesis by (auto split: if_splits)
  next
    case False
    with eq have "r = Inr (replace_row now inp d, purged_of d)" and "m' = put_row (replace_row now inp d) m"
      by simp_all
    with Some False show ?thesis by (intro replaced) simp_all
  qed
qed

lemma Bundle_cases:
  assumes "mem_Bundle k now inp m = (r, m')"
  obtains (refused) e where "r = Inl e" and "m' = m"
  | (bundled) ds where "list_all2 (\<lambda>k d. absorbSource m k (bi_Owner inp) = Inr d) (bi_SourceIDs inp) ds"
      and "r = Inr (k, map purged_of ds)"
      and "m' = absorb_rows ds (put_row (bundle_row k now inp) m\<lparr>acl := acl m @ [bundle_grant k inp]\<rparr>)"
proof (cases "length (bi_SourceIDs inp) < 1")
  case True
  with assms have "r = Inl ErrNotBundleable" and "m' = m" by (simp_all add: mem_Bundle_def)
  then show ?thesis by (rule refused)
next
  case False
  show ?thesis
  proof (cases "bundle_sources m (bi_Owner inp) [] (bi_SourceIDs inp)")
    case (Inl e)
    with False assms have "r = Inl e" and "m' = m" by (simp_all add: mem_Bundle_def)
    then show ?thesis by (rule refused)
  next
    case (Inr ds)
    with False assms have "r = Inr (k, map purged_of ds)"
      and "m' = absorb_rows ds (put_row (bundle_row k now inp) m\<lparr>acl := acl m @ [bundle_grant k inp]\<rparr>)"
      by (simp_all add: mem_Bundle_def Let_def)
    with bundle_sources_Inr [OF Inr] show ?thesis by (intro bundled) simp_all
  qed
qed

lemma moves_Insert:
  assumes "mem_Insert ord k now inp m = (r, m')"
  shows "moves (Some \<lparr>nb_row = k, nb_ref = ii_StorageRef inp, nb_key = ii_EncryptionKeyRef inp,
    nb_hash = ii_ContentHash inp, nb_size = ii_Size inp\<rparr>) m m'"
  using assms
proof (cases rule: Insert_cases)
  case inserted
  then show ?thesis by (auto simp: moves_def holds_new_def)
qed simp

lemma moves_Replace:
  assumes "wf_mem m" and "mem_ReplaceContainerBlob now inp m = (r, m')"
  shows "moves (Some \<lparr>nb_row = ri_ID inp, nb_ref = ri_StorageRef inp, nb_key = ri_EncryptionKeyRef inp,
    nb_hash = ri_ContentHash inp, nb_size = ri_Size inp\<rparr>) m m'"
  using assms(2,1)
proof (cases rule: Replace_cases)
  case (replaced d)
  then show ?thesis using assms(1)
    by (auto simp: holds_new_def wf_mem_id intro!: moves_put)
qed simp

lemma frees_Replace:
  assumes "wf_mem m" and "refs_distinct m" and "unref (ri_StorageRef inp) m"
    and "mem_ReplaceContainerBlob now inp m = (Inr (d', old), m')"
  shows "frees [old] m'"
  using assms(4,1)
proof (cases rule: Replace_cases)
  case (replaced d)
  have id: "d_ID d = ri_ID inp" using assms(1) replaced(1) by (rule wf_mem_id)
  have "frees (map purged_of [d]) m'"
  proof (rule frees_purged [OF assms(2) moves_Replace [OF assms(1,4)]])
    fix x assume "x \<in> set [d]"
    then have "rows m (ri_ID inp) = Some x" using replaced(1) by simp
    moreover have "rows m' (ri_ID inp) = Some (replace_row now inp d)" using replaced(4) id by simp
    ultimately show "\<exists>k. rows m k = Some x \<and> (\<forall>d'. rows m' k = Some d' \<longrightarrow> d_StorageRef d' = [] \<or>
        (\<exists>n. Some \<lparr>nb_row = ri_ID inp, nb_ref = ri_StorageRef inp, nb_key = ri_EncryptionKeyRef inp,
          nb_hash = ri_ContentHash inp, nb_size = ri_Size inp\<rparr> = Some n \<and> holds_new n k d'))"
      by (intro exI [of _ "ri_ID inp"]) (simp add: holds_new_def)
  qed (use assms(3) in simp)
  with replaced show ?thesis by simp
qed simp

lemma absorbed_gone:
  assumes "wf_mem m" and "list_all2 (\<lambda>k d. absorbSource m k owner = Inr d) ks ds" and "d \<in> set ds"
  shows "\<exists>k. rows m k = Some d \<and> rows (absorb_rows ds m1) k = None"
proof -
  from absorbed_rows [OF assms(2,3)] obtain k where k: "rows m k = Some d" by blast
  with assms(1) have "d_ID d = k" by (simp add: wf_mem_id)
  with assms(3) have "rows (absorb_rows ds m1) k = None" by (auto simp: rows_absorb_rows restrict_map_def)
  with k show ?thesis by blast
qed

lemma moves_Bundle:
  assumes "mem_Bundle k now inp m = (r, m')"
  shows "moves (Some \<lparr>nb_row = k, nb_ref = bi_StorageRef inp, nb_key = bi_EncryptionKeyRef inp,
    nb_hash = bi_ContentHash inp, nb_size = bi_Size inp\<rparr>) m m'"
  using assms
proof (cases rule: Bundle_cases)
  case (bundled ds)
  show ?thesis unfolding bundled(3)
    by (rule moves_restrict [OF _ rows_absorb_rows])
       (simp add: moves_acl, rule moves_put, simp add: holds_new_def)
qed simp

lemma frees_Bundle:
  assumes "wf_mem m" and "refs_distinct m" and "unref (bi_StorageRef inp) m"
    and "mem_Bundle k now inp m = (Inr (k', refs), m')"
  shows "frees refs m'"
  using assms(4)
proof (cases rule: Bundle_cases)
  case (bundled ds)
  have "frees (map purged_of ds) m'"
  proof (rule frees_purged [OF assms(2) moves_Bundle [OF assms(4)]])
    fix d assume "d \<in> set ds"
    from absorbed_gone [OF assms(1) bundled(1) this] show "\<exists>l. rows m l = Some d \<and> (\<forall>d'. rows m' l = Some d' \<longrightarrow>
        d_StorageRef d' = [] \<or> (\<exists>n. Some \<lparr>nb_row = k, nb_ref = bi_StorageRef inp, nb_key = bi_EncryptionKeyRef inp,
          nb_hash = bi_ContentHash inp, nb_size = bi_Size inp\<rparr> = Some n \<and> holds_new n l d'))"
      unfolding bundled(3) by (metis option.distinct(1))
  qed (use assms(3) in simp)
  with bundled show ?thesis by simp
qed simp

lemma moves_Rebundle:
  assumes "wf_mem m" and "mem_Rebundle now inp m = (r, m')"
  shows "moves (Some \<lparr>nb_row = rb_ID inp, nb_ref = rb_StorageRef inp, nb_key = rb_EncryptionKeyRef inp,
    nb_hash = rb_ContentHash inp, nb_size = rb_Size inp\<rparr>) m m'"
  using assms(2)
proof (cases rule: mem_Rebundle_cases)
  case (replaced d ds)
  have "d_ID d = rb_ID inp" using assms(1) replaced(1) by (rule wf_mem_id)
  then show ?thesis unfolding replaced(9)
    by (intro moves_restrict [OF _ rows_absorb_rows] moves_put) (simp add: holds_new_def)
qed simp

lemma frees_Rebundle:
  assumes "wf_mem m" and "refs_distinct m" and "unref (rb_StorageRef inp) m"
    and "mem_Rebundle now inp m = (Inr (d', old, absorbed), m')"
  shows "frees (old # absorbed) m'"
  using assms(4)
proof (cases rule: mem_Rebundle_cases)
  case (replaced d ds)
  have id: "d_ID d = rb_ID inp" using assms(1) replaced(1) by (rule wf_mem_id)
  let ?n = "\<lparr>nb_row = rb_ID inp, nb_ref = rb_StorageRef inp, nb_key = rb_EncryptionKeyRef inp,
    nb_hash = rb_ContentHash inp, nb_size = rb_Size inp\<rparr>"
  have "frees (map purged_of (d # ds)) m'"
  proof (rule frees_purged [OF assms(2) moves_Rebundle [OF assms(1,4)]])
    fix x assume "x \<in> set (d # ds)"
    then show "\<exists>l. rows m l = Some x \<and> (\<forall>d'. rows m' l = Some d' \<longrightarrow>
        d_StorageRef d' = [] \<or> (\<exists>n. Some ?n = Some n \<and> holds_new n l d'))"
    proof (elim set_ConsD [elim_format] disjE)
      assume "x = d"
      moreover have "rows m' (rb_ID inp) = Some d' \<Longrightarrow> holds_new ?n (rb_ID inp) d'" for d'
        unfolding replaced(9) rows_absorb_rows using id by (auto simp: restrict_map_def holds_new_def split: if_splits)
      ultimately show ?thesis using replaced(1) by (intro exI [of _ "rb_ID inp"]) simp
    next
      assume "x \<in> set ds"
      from absorbed_gone [OF assms(1) rebundle_sources_Inr [OF replaced(7)] this]
      show ?thesis unfolding replaced(9) by (metis option.distinct(1))
    qed
  qed (use assms(3) in simp)
  with replaced show ?thesis by simp
qed simp

lemma purged_cleared:
  assumes "wf_mem m" and "set ds \<subseteq> ran (rows m)" and "d \<in> set ds" and "rows m1 = rows m"
  shows "\<exists>k. rows m k = Some d \<and>
    (\<forall>d'. rows (purge_keys st clk (d_ID ` set ds) m1) k = Some d' \<longrightarrow> d_StorageRef d' = [])"
proof -
  from assms(2,3) have "rows m (d_ID d) = Some d" using assms(1) by (auto simp: wf_mem_ran)
  then show ?thesis using assms(3,4) by (intro exI [of _ "d_ID d"]) (auto simp: rows_purge_keys)
qed

lemma RemoveAccess_moves:
  assumes "wf_mem m" and "visits ord1 (rows m)" and "visits ord2 (rows m)" and "refs_distinct m"
    and "mem_RemoveAccess ord1 ord2 clk k c m = (r, m')"
  shows "moves None m m' \<and> (\<forall>refs. r = Inr refs \<longrightarrow> frees refs m')"
  using assms(1-3,5)
proof (cases rule: mem_RemoveAccess_cases)
  case (refused e)
  then show ?thesis by simp
next
  case (left d)
  then show ?thesis by (simp add: moves_acl frees_def)
next
  case (last d)
  let ?ds = "purgeable (chainRootID d) ord2 m"
  have mv: "moves None m m'" unfolding last(7) by (rule moves_purge) (simp add: moves_acl)
  have "set ?ds \<subseteq> ran (rows m)" using assms(3) by (auto simp: purgeable_def visits_rows_set)
  from purged_cleared [OF assms(1) this] have "frees (map purged_of ?ds) m'"
    unfolding last(7) by (intro frees_purged [OF assms(4) mv [unfolded last(7)]]) fastforce+
  with mv last(6) show ?thesis by simp
qed

lemma SweepRetention_moves:
  assumes "wf_mem m" and "visits ord (rows m)" and "refs_distinct m"
    and "mem_SweepRetention ord clk now limit m = (r, m')"
  shows "moves None m m' \<and> (\<forall>refs. r = Inr refs \<longrightarrow> frees refs m')"
proof -
  let ?ds = "take_limit limit 0 (filter (due now) (range_vals ord (rows m)))"
  have eq: "r = Inr (map purged_of ?ds)" "m' = purge_keys ''expired'' clk (d_ID ` set ?ds) m"
    using sweep_rows_eq [OF assms(1), of ord now clk limit "[]"] assms(2,4)
    by (simp_all add: mem_SweepRetention_def visits_def Let_def)
  have mv: "moves None m m'" unfolding eq by (rule moves_purge) simp
  have "set ?ds \<subseteq> ran (rows m)"
    using take_limit_subset [of limit 0 "filter (due now) (range_vals ord (rows m))"] assms(2)
    by (auto simp: visits_rows_set)
  from purged_cleared [OF assms(1) this] have "frees (map purged_of ?ds) m'"
    unfolding eq by (intro frees_purged [OF assms(3) mv [unfolded eq]]) fastforce+
  with mv eq(1) show ?thesis by simp
qed

section \<open>The operations that only edit or drop rows\<close>

lemma moves_quiet:
  "wf_mem m \<Longrightarrow> mem_SetResultFreeze now k frozen m = (r, m') \<Longrightarrow> moves None m m'"
  "wf_mem m \<Longrightarrow> mem_ExtendRetention now k owner until m = (r2, m') \<Longrightarrow> moves None m m'"
  "mem_Grant inp m = (r2, m') \<Longrightarrow> moves None m m'"
  by (auto simp: mem_SetResultFreeze_def mem_ExtendRetention_def mem_Grant_def Let_def same_bytes_def wf_mem_id moves_acl
      intro!: moves_put split: option.splits if_splits)

lemma moves_SweepHistory:
  assumes "wf_mem m" and "visits ord1 (rows m)" and "mem_SweepHistory ord1 ord2 before limit m = (r, m')"
  shows "moves None m m'"
proof -
  have "moves None m (drop_keys ks m)" for ks by (rule moves_restrict [OF moves_refl rows_drop_keys])
  moreover have "moves None m (drop_orphan_acl ord2 m1) \<longleftrightarrow> moves None m m1" for m1 by (simp add: moves_def)
  ultimately show ?thesis
    using history_rows_eq [OF assms(1), of ord1 before _ 0] assms(2,3)
    by (auto simp: mem_SweepHistory_def visits_def Let_def)
qed

lemma moves_DeleteHistory:
  assumes "wf_mem m" and "visits ord2 (rows m)" and "mem_DeleteHistoryChain ord1 ord2 owner root m = (r, m')"
  shows "moves None m m'"
proof -
  have "moves None m (drop_keys ks m)" for ks by (rule moves_restrict [OF moves_refl rows_drop_keys])
  moreover have "moves None m (drop_chain_acl root m1) \<longleftrightarrow> moves None m m1" for m1 by (simp add: moves_def)
  ultimately show ?thesis
    using drop_owned_eq [OF assms(1), of ord2 owner root 0] assms(2,3)
    by (auto simp: mem_DeleteHistoryChain_def visits_def Let_def split: if_splits)
qed

section \<open>No reference is forgotten\<close>

text \<open>
  The other half: a reference some row held is, after an operation, still held or among those
  handed back.  It rests on expired and deleted rows holding none, which is kept as well.
\<close>

definition keeps :: "purged_ref list \<Rightarrow> memory \<Rightarrow> memory \<Rightarrow> bool" where
  "keeps refs m m' \<longleftrightarrow>
     (\<forall>r. r \<noteq> [] \<longrightarrow> \<not> unref r m \<longrightarrow> \<not> unref r m' \<or> r \<in> p_StorageRef ` set refs)"

definition purged_clean :: "memory \<Rightarrow> bool" where
  "purged_clean m \<longleftrightarrow> (\<forall>k d. rows m k = Some d \<longrightarrow> terminal d \<longrightarrow> d_StorageRef d = [])"

lemma keepsI:
  assumes "\<And>k d. rows m k = Some d \<Longrightarrow> d_StorageRef d \<noteq> [] \<Longrightarrow>
    (\<exists>d'. rows m' k = Some d' \<and> d_StorageRef d' = d_StorageRef d) \<or> d_StorageRef d \<in> p_StorageRef ` set refs"
  shows "keeps refs m m'"
  unfolding keeps_def unref_iff using assms by metis

lemma keeps_refl [simp]: "keeps refs m m"
  by (simp add: keeps_def)

lemma keeps_Insert:
  assumes "mem_Insert ord k now inp m = (Inr k', m')" and "rows m k = None"
  shows "keeps [] m m' \<and> \<not> unref (ii_StorageRef inp) m'"
  using assms(1)
proof (cases rule: Insert_cases)
  case inserted
  with assms(2) have "keeps [] m m'" by (intro keepsI) auto
  moreover have "rows m' k = Some (insert_row k now inp)" using inserted by simp
  ultimately show ?thesis unfolding unref_iff by (metis insert_row_simps(5))
qed simp

lemma keeps_Replace:
  assumes "wf_mem m" and "mem_ReplaceContainerBlob now inp m = (Inr (d', old), m')"
  shows "keeps [old] m m' \<and> \<not> unref (ri_StorageRef inp) m'"
  using assms(2,1)
proof (cases rule: Replace_cases)
  case (replaced d)
  have id: "d_ID d = ri_ID inp" using assms(1) replaced(1) by (rule wf_mem_id)
  have old: "old = purged_of d" using replaced(3) by simp
  have "rows m' (ri_ID inp) = Some (replace_row now inp d)" using replaced(4) id by simp
  moreover have "keeps [old] m m'"
    unfolding old using replaced(1,4) id by (intro keepsI) auto
  ultimately show ?thesis unfolding unref_iff by (metis replace_row_simps(7))
qed simp

lemma absorbed_kept:
  assumes "wf_mem m" and "list_all2 (\<lambda>k d. absorbSource m k owner = Inr d) ks ds" and "rows m k = Some d"
  shows "rows (absorb_rows ds m1) k = rows m1 k \<or> d_StorageRef d \<in> p_StorageRef ` set (map purged_of ds)"
proof (cases "k \<in> d_ID ` set ds")
  case True
  have "set ds \<subseteq> ran (rows m)" using absorbed_rows [OF assms(2)] by (auto intro: ranI)
  with wf_mem_key [OF assms(1,3)] True have "d \<in> set ds" by blast
  then show ?thesis by (force simp: image_image)
qed (simp add: rows_absorb_rows restrict_map_def)

lemma keeps_Bundle:
  assumes "wf_mem m" and "fresh_id k m" and "mem_Bundle k now inp m = (Inr (k', refs), m')"
  shows "keeps refs m m' \<and> \<not> unref (bi_StorageRef inp) m'"
  using assms(3)
proof (cases rule: Bundle_cases)
  case (bundled ds)
  let ?m1 = "put_row (bundle_row k now inp) m\<lparr>acl := acl m @ [bundle_grant k inp]\<rparr>"
  have "keeps refs m m'"
  proof (rule keepsI)
    fix l d assume d: "rows m l = Some d"
    then have "l \<noteq> k" using assms(2) by (auto simp: fresh_id_def)
    then have "rows ?m1 l = Some d" using d by simp
    with absorbed_kept [OF assms(1) bundled(1) d, of ?m1] bundled(2,3)
    show "(\<exists>d'. rows m' l = Some d' \<and> d_StorageRef d' = d_StorageRef d) \<or> d_StorageRef d \<in> p_StorageRef ` set refs"
      by auto
  qed
  moreover have "rows m' k = Some (bundle_row k now inp)"
  proof -
    have "k \<notin> d_ID ` set ds"
      using absorbed_keys [OF assms(1) bundled(1)] list_all2_left [OF bundled(1), of k] absorbSource_Inr assms(2)
      by (fastforce simp: fresh_id_def)
    then show ?thesis unfolding bundled(3) by (simp add: rows_absorb_rows restrict_map_def)
  qed
  ultimately show ?thesis unfolding unref_iff by (metis bundle_row_simps(5))
qed simp

lemma keeps_Rebundle:
  assumes "wf_mem m" and "mem_Rebundle now inp m = (Inr (d', old, absorbed), m')"
  shows "keeps (old # absorbed) m m' \<and> \<not> unref (rb_StorageRef inp) m'"
  using assms(2)
proof (cases rule: mem_Rebundle_cases)
  case (replaced d ds)
  have id: "d_ID d = rb_ID inp" using assms(1) replaced(1) by (rule wf_mem_id)
  let ?m1 = "put_row (rebundle_row now inp d) m"
  note all = rebundle_sources_Inr [OF replaced(7)]
  have refs: "old = purged_of d" "absorbed = map purged_of ds" using replaced(8) by simp_all
  have "rb_ID inp \<notin> d_ID ` set ds"
  proof
    assume "rb_ID inp \<in> d_ID ` set ds"
    then have "rb_ID inp \<in> set (rb_AbsorbSourceIDs inp)" using absorbed_keys [OF assms(1) all] by simp
    from list_all2_left [OF all this] obtain e where "absorbSource m (rb_ID inp) (rb_Owner inp) = Inr e" by blast
    from absorbSource_Inr [OF this] replaced(1,4,5) show False by (simp add: Bundleable_def)
  qed
  then have row: "rows m' (rb_ID inp) = Some (rebundle_row now inp d)"
    unfolding replaced(9) using id by (simp add: rows_absorb_rows restrict_map_def)
  have "keeps (old # absorbed) m m'"
  proof (rule keepsI)
    fix l x assume x: "rows m l = Some x"
    show "(\<exists>d'. rows m' l = Some d' \<and> d_StorageRef d' = d_StorageRef x) \<or> d_StorageRef x \<in> p_StorageRef ` set (old # absorbed)"
    proof (cases "l = rb_ID inp")
      case True
      with x replaced(1) refs show ?thesis by simp
    next
      case False
      with x id have "rows ?m1 l = Some x" by simp
      with absorbed_kept [OF assms(1) all x, of ?m1] refs replaced(9) show ?thesis by auto
    qed
  qed
  with row show ?thesis unfolding unref_iff by (metis rebundle_row_simps(7))
qed simp

lemma keeps_purge:
  assumes "wf_mem m" and "set ds \<subseteq> ran (rows m)" and "rows m1 = rows m"
  shows "keeps (map purged_of ds) m (purge_keys st clk (d_ID ` set ds) m1)"
proof (rule keepsI)
  fix k d assume d: "rows m k = Some d"
  show "(\<exists>d'. rows (purge_keys st clk (d_ID ` set ds) m1) k = Some d' \<and> d_StorageRef d' = d_StorageRef d) \<or>
      d_StorageRef d \<in> p_StorageRef ` set (map purged_of ds)"
  proof (cases "k \<in> d_ID ` set ds")
    case True
    with wf_mem_key [OF assms(1) d assms(2)] have "d \<in> set ds" by blast
    then show ?thesis by (force simp: image_image)
  next
    case False
    with d assms(3) show ?thesis by (simp add: rows_purge_keys)
  qed
qed

lemma keeps_RemoveAccess:
  assumes "wf_mem m" and "visits ord1 (rows m)" and "visits ord2 (rows m)"
    and "mem_RemoveAccess ord1 ord2 clk k c m = (r, m')"
  shows "keeps (case r of Inl e \<Rightarrow> [] | Inr refs \<Rightarrow> refs) m m'"
  using assms
proof (cases rule: mem_RemoveAccess_cases)
  case (refused e)
  then show ?thesis by simp
next
  case (left d)
  then show ?thesis by (simp add: keeps_def unref_iff)
next
  case (last d)
  have "set (purgeable (chainRootID d) ord2 m) \<subseteq> ran (rows m)"
    using assms(3) by (auto simp: purgeable_def visits_rows_set)
  with last show ?thesis by (simp add: keeps_purge [OF assms(1)])
qed

lemma keeps_SweepRetention:
  assumes "wf_mem m" and "visits ord (rows m)" and "mem_SweepRetention ord clk now limit m = (r, m')"
  shows "keeps (case r of Inl e \<Rightarrow> [] | Inr refs \<Rightarrow> refs) m m'"
proof -
  let ?ds = "take_limit limit 0 (filter (due now) (range_vals ord (rows m)))"
  have eq: "r = Inr (map purged_of ?ds)" "m' = purge_keys ''expired'' clk (d_ID ` set ?ds) m"
    using sweep_rows_eq [OF assms(1), of ord now clk limit "[]"] assms(2,3)
    by (simp_all add: mem_SweepRetention_def visits_def Let_def)
  have "set ?ds \<subseteq> ran (rows m)"
    using take_limit_subset [of limit 0 "filter (due now) (range_vals ord (rows m))"] assms(2)
    by (auto simp: visits_rows_set)
  then show ?thesis unfolding eq by (simp add: keeps_purge [OF assms(1)])
qed

lemma keeps_drop_keys:
  assumes "wf_mem m" and "purged_clean m" and "set ds \<subseteq> ran (rows m)" and "\<forall>d \<in> set ds. terminal d"
  shows "keeps [] m (drop_keys (d_ID ` set ds) m)"
proof (rule keepsI)
  fix k d assume d: "rows m k = Some d" and ne: "d_StorageRef d \<noteq> []"
  then have "\<not> terminal d" using assms(2) by (auto simp: purged_clean_def)
  with wf_mem_key [OF assms(1) d assms(3)] assms(4) have "k \<notin> d_ID ` set ds" by blast
  with d show "(\<exists>d'. rows (drop_keys (d_ID ` set ds) m) k = Some d' \<and> d_StorageRef d' = d_StorageRef d) \<or>
      d_StorageRef d \<in> p_StorageRef ` set []"
    by (simp add: restrict_map_def)
qed

lemma keeps_SweepHistory:
  assumes "wf_mem m" and "purged_clean m" and "visits ord1 (rows m)"
    and "mem_SweepHistory ord1 ord2 before limit m = (r, m')"
  shows "keeps [] m m'"
proof -
  let ?ds = "\<lambda>lim. take (nat lim) (filter (old_record before) (range_vals ord1 (rows m)))"
  have "keeps [] m (drop_keys (d_ID ` set (?ds lim)) m)" for lim
    using assms(3)
    by (intro keeps_drop_keys [OF assms(1,2)]) (auto simp: old_record_def visits_rows_set dest!: in_set_takeD)
  moreover have "keeps [] m (drop_orphan_acl ord2 m1) \<longleftrightarrow> keeps [] m m1" for m1 by (simp add: keeps_def unref_iff)
  ultimately show ?thesis
    using history_rows_eq [OF assms(1), of ord1 before _ 0] assms(3,4)
    by (auto simp: mem_SweepHistory_def visits_def Let_def)
qed

lemma keeps_DeleteHistory:
  assumes "wf_mem m" and "purged_clean m" and "visits ord1 (rows m)" and "visits ord2 (rows m)"
    and "mem_DeleteHistoryChain ord1 ord2 owner root m = (r, m')"
  shows "keeps [] m m'"
proof (cases "\<exists>d \<in> ran (rows m). chainRootID d = root \<and> \<not> terminal d")
  case True
  then have "m' = m"
    using assms(5) by (auto simp: mem_DeleteHistoryChain_def list_ex_set visits_rows_set [OF assms(3)] terminal_def split: if_splits)
  then show ?thesis by simp
next
  case False
  let ?ds = "filter (\<lambda>d. chainRootID d = root \<and> d_Owner d = owner) (range_vals ord2 (rows m))"
  have k: "keeps [] m (drop_keys (d_ID ` set ?ds) m)"
    using False by (intro keeps_drop_keys [OF assms(1,2)]) (auto simp: visits_rows_set [OF assms(4)])
  have c: "keeps [] m (drop_chain_acl root m1) \<longleftrightarrow> keeps [] m m1" for m1 by (simp add: keeps_def unref_iff)
  have own: "drop_owned owner root ord2 0 m = (int (length ?ds), drop_keys (d_ID ` set ?ds) m)"
    using drop_owned_eq [OF assms(1), of ord2 owner root 0] assms(4) by (simp add: visits_def Let_def)
  consider "m' = m" | "m' = drop_keys (d_ID ` set ?ds) m" | "m' = drop_chain_acl root (drop_keys (d_ID ` set ?ds) m)"
    using assms(5) unfolding mem_DeleteHistoryChain_def own by (auto split: if_splits)
  then show ?thesis using k c by cases (simp_all only: keeps_refl)
qed

lemma keeps_quiet:
  "wf_mem m \<Longrightarrow> mem_SetResultFreeze now k frozen m = (r, m') \<Longrightarrow> keeps [] m m'"
  "wf_mem m \<Longrightarrow> mem_ExtendRetention now k owner until m = (r2, m') \<Longrightarrow> keeps [] m m'"
  "mem_Grant inp m = (r2, m') \<Longrightarrow> keeps [] m m'"
  by (auto simp: mem_SetResultFreeze_def mem_ExtendRetention_def mem_Grant_def Let_def wf_mem_id
      intro!: keepsI split: option.splits if_splits)

section \<open>Expired and deleted rows hold no reference\<close>

text \<open>Each row of the new state is live, or purged, or was there before with its status and reference.\<close>

lemma purged_cleanI:
  assumes "purged_clean m"
    and "\<And>k d'. rows m' k = Some d' \<Longrightarrow> \<not> terminal d' \<or> d_StorageRef d' = [] \<or>
           (\<exists>l d. rows m l = Some d \<and> d_Status d' = d_Status d \<and> d_StorageRef d' = d_StorageRef d)"
  shows "purged_clean m'"
  using assms unfolding purged_clean_def terminal_def by metis

lemma purged_clean_restrict: "purged_clean m \<Longrightarrow> rows m' = rows m |` A \<Longrightarrow> purged_clean m'"
  by (auto simp: purged_clean_def restrict_map_def split: if_splits)

lemma purged_clean_rows: "rows m' = rows m \<Longrightarrow> purged_clean m' = purged_clean m"
  by (simp add: purged_clean_def)

lemma purged_clean_put:
  "purged_clean m \<Longrightarrow> \<not> terminal d \<or> d_StorageRef d = [] \<Longrightarrow> purged_clean (put_row d m)"
  by (auto simp: purged_clean_def)

lemma purged_clean_purge: "purged_clean m \<Longrightarrow> purged_clean (purge_keys st clk ks m)"
  by (auto simp: purged_clean_def rows_purge_keys split: if_splits)

text \<open>The operations as the service calls them: not \<open>SetStatus\<close>, and no insert as expired or deleted.\<close>

primrec service_call :: "store_op \<Rightarrow> bool" where
  "service_call (OpInsert ord k now inp) \<longleftrightarrow> ii_Status inp \<noteq> ''expired'' \<and> ii_Status inp \<noteq> ''deleted''"
| "service_call (OpReplace now inp) \<longleftrightarrow> True"
| "service_call (OpBundle k now inp) \<longleftrightarrow> True"
| "service_call (OpRebundle now inp) \<longleftrightarrow> True"
| "service_call (OpGrant inp) \<longleftrightarrow> True"
| "service_call (OpSetStatus now k owner status) \<longleftrightarrow> False"
| "service_call (OpSetResultFreeze now k frozen) \<longleftrightarrow> True"
| "service_call (OpExtendRetention now k owner until) \<longleftrightarrow> True"
| "service_call (OpRemoveAccess ord1 ord2 clk k c) \<longleftrightarrow> True"
| "service_call (OpSweepRetention ord clk now limit) \<longleftrightarrow> True"
| "service_call (OpSweepHistory ord1 ord2 before limit) \<longleftrightarrow> True"
| "service_call (OpDeleteHistory ord1 ord2 owner root) \<longleftrightarrow> True"

lemma purged_clean_edit:
  assumes "purged_clean m" and "rows m k = Some d" and "d_Status d' = d_Status d" and "d_StorageRef d' = d_StorageRef d"
  shows "purged_clean (put_row d' m)"
proof (rule purged_clean_put [OF assms(1)])
  have "terminal d' \<longrightarrow> d_StorageRef d = []" using assms(1-3) by (auto simp: purged_clean_def terminal_def)
  with assms(4) show "\<not> terminal d' \<or> d_StorageRef d' = []" by auto
qed

lemma purged_clean_exec:
  assumes "wf_mem m" and "op_ok op m" and "purged_clean m" and "service_call op"
  shows "purged_clean (store_exec op m)"
proof (cases op)
  case (OpInsert ord k now inp)
  obtain r m' where eq: "mem_Insert ord k now inp m = (r, m')" by fastforce
  then have "purged_clean m'"
  proof (cases rule: Insert_cases)
    case inserted
    have "purged_clean (put_row (insert_row k now inp) m)"
      using assms(4) OpInsert by (intro purged_clean_put [OF assms(3)]) (auto simp: terminal_def or_default_def)
    then show ?thesis using purged_clean_rows [of m' "put_row (insert_row k now inp) m"] inserted(2) by simp
  qed (use assms(3) in simp)
  with eq OpInsert show ?thesis by simp
next
  case (OpReplace now inp)
  obtain r m' where eq: "mem_ReplaceContainerBlob now inp m = (r, m')" by fastforce
  then have "purged_clean m'" using assms(1)
  proof (cases rule: Replace_cases)
    case (replaced d)
    then show ?thesis by (simp add: purged_clean_put [OF assms(3)] terminal_def)
  qed (use assms(3) in simp)
  with eq OpReplace show ?thesis by simp
next
  case (OpBundle k now inp)
  obtain r m' where eq: "mem_Bundle k now inp m = (r, m')" by fastforce
  then have "purged_clean m'"
  proof (cases rule: Bundle_cases)
    case (bundled ds)
    have "purged_clean (put_row (bundle_row k now inp) m)"
      by (rule purged_clean_put [OF assms(3)]) (simp add: terminal_def)
    then show ?thesis unfolding bundled(3)
      by (intro purged_clean_restrict [OF _ rows_absorb_rows]) (simp add: purged_clean_def)
  qed (use assms(3) in simp)
  with eq OpBundle show ?thesis by simp
next
  case (OpRebundle now inp)
  obtain r m' where eq: "mem_Rebundle now inp m = (r, m')" by fastforce
  then have "purged_clean m'"
  proof (cases rule: mem_Rebundle_cases)
    case (replaced d ds)
    have "purged_clean (put_row (rebundle_row now inp d) m)"
      using replaced(5) by (intro purged_clean_put [OF assms(3)]) (simp add: terminal_def)
    then show ?thesis unfolding replaced(9) by (rule purged_clean_restrict [OF _ rows_absorb_rows])
  qed (use assms(3) in simp)
  with eq OpRebundle show ?thesis by simp
next
  case (OpGrant inp)
  with assms(3) show ?thesis by (simp add: mem_Grant_def Let_def purged_clean_def split: option.split)
next
  case (OpSetResultFreeze now k frozen)
  with assms(3) show ?thesis
    by (auto simp: mem_SetResultFreeze_def intro: purged_clean_edit split: option.split)
next
  case (OpExtendRetention now k owner until)
  with assms(3) show ?thesis
    by (auto simp: mem_ExtendRetention_def intro: purged_clean_edit split: option.split)
next
  case (OpRemoveAccess ord1 ord2 clk k c)
  obtain r m' where eq: "mem_RemoveAccess ord1 ord2 clk k c m = (r, m')" by fastforce
  have "visits ord1 (rows m)" "visits ord2 (rows m)" using assms(2) OpRemoveAccess by simp_all
  from assms(1) this eq have "purged_clean m'"
  proof (cases rule: mem_RemoveAccess_cases)
    case (last d)
    show ?thesis unfolding last(7) by (rule purged_clean_purge) (use assms(3) in \<open>simp add: purged_clean_def\<close>)
  qed (use assms(3) in \<open>simp_all add: purged_clean_def\<close>)
  with eq OpRemoveAccess show ?thesis by simp
next
  case (OpSweepRetention ord clk now limit)
  with assms sweep_rows_eq [OF assms(1), of ord now clk limit "[]"] show ?thesis
    by (simp add: mem_SweepRetention_def visits_def Let_def purged_clean_purge)
next
  case (OpSweepHistory ord1 ord2 before limit)
  have "purged_clean (drop_keys ks m)" for ks by (rule purged_clean_restrict [OF assms(3) rows_drop_keys])
  moreover have "purged_clean (drop_orphan_acl ord2 m1) = purged_clean m1" for m1 by (rule purged_clean_rows) simp
  ultimately show ?thesis
    using OpSweepHistory assms(2) history_rows_eq [OF assms(1), of ord1 before _ 0]
    by (simp add: mem_SweepHistory_def visits_def Let_def)
next
  case (OpDeleteHistory ord1 ord2 owner root)
  have "purged_clean (drop_keys ks m)" for ks by (rule purged_clean_restrict [OF assms(3) rows_drop_keys])
  moreover have "purged_clean (drop_chain_acl root m1) = purged_clean m1" for m1 by (rule purged_clean_rows) simp
  ultimately show ?thesis
    using OpDeleteHistory assms(2,3) drop_owned_eq [OF assms(1), of ord2 owner root 0]
    by (auto simp: mem_DeleteHistoryChain_def visits_def Let_def)
qed (use assms(4) in simp)

end
