(* ===== verification/Sha256.thy ===== *)
theory Sha256
  imports GoStrings
begin

text \<open>
  \<open>crypto/sha256\<close> (FIPS 180-4) and \<open>encoding/base64\<close> in its standard, padded alphabet: the two
  library functions of the canonical hash and of the stored key references.  The hash is
  executable; of the encoding the round trip is proved.
\<close>

unbundle bit_operations_syntax

section \<open>SHA-256\<close>

definition sha_K :: "32 word list" where
  "sha_K =
     [0x428A2F98, 0x71374491, 0xB5C0FBCF, 0xE9B5DBA5, 0x3956C25B, 0x59F111F1, 0x923F82A4, 0xAB1C5ED5,
      0xD807AA98, 0x12835B01, 0x243185BE, 0x550C7DC3, 0x72BE5D74, 0x80DEB1FE, 0x9BDC06A7, 0xC19BF174,
      0xE49B69C1, 0xEFBE4786, 0x0FC19DC6, 0x240CA1CC, 0x2DE92C6F, 0x4A7484AA, 0x5CB0A9DC, 0x76F988DA,
      0x983E5152, 0xA831C66D, 0xB00327C8, 0xBF597FC7, 0xC6E00BF3, 0xD5A79147, 0x06CA6351, 0x14292967,
      0x27B70A85, 0x2E1B2138, 0x4D2C6DFC, 0x53380D13, 0x650A7354, 0x766A0ABB, 0x81C2C92E, 0x92722C85,
      0xA2BFE8A1, 0xA81A664B, 0xC24B8B70, 0xC76C51A3, 0xD192E819, 0xD6990624, 0xF40E3585, 0x106AA070,
      0x19A4C116, 0x1E376C08, 0x2748774C, 0x34B0BCB5, 0x391C0CB3, 0x4ED8AA4A, 0x5B9CCA4F, 0x682E6FF3,
      0x748F82EE, 0x78A5636F, 0x84C87814, 0x8CC70208, 0x90BEFFFA, 0xA4506CEB, 0xBEF9A3F7, 0xC67178F2]"

definition sha_H0 :: "32 word list" where
  "sha_H0 =
     [0x6A09E667, 0xBB67AE85, 0x3C6EF372, 0xA54FF53A, 0x510E527F, 0x9B05688C, 0x1F83D9AB, 0x5BE0CD19]"

definition rotr32 :: "nat \<Rightarrow> 32 word \<Rightarrow> 32 word" where
  "rotr32 n x = drop_bit n x OR push_bit (32 - n) x"

definition be32 :: "bytes \<Rightarrow> 32 word" where
  "be32 bs = foldl (\<lambda>a b. push_bit 8 a OR ucast b) 0 bs"

definition bytes_be32 :: "32 word \<Rightarrow> bytes" where
  "bytes_be32 w = [ucast (drop_bit 24 w), ucast (drop_bit 16 w), ucast (drop_bit 8 w), ucast w]"

definition bytes_be64 :: "64 word \<Rightarrow> bytes" where
  "bytes_be64 w = map (\<lambda>i. ucast (drop_bit i w)) [56, 48, 40, 32, 24, 16, 8, 0]"

definition sha_pad :: "bytes \<Rightarrow> bytes" where
  "sha_pad m = m @ [0x80] @ replicate ((119 - length m mod 64) mod 64) 0 @ bytes_be64 (8 * of_nat (length m))"

fun chunks :: "nat \<Rightarrow> 'a list \<Rightarrow> 'a list list" where
  "chunks n xs = (if n = 0 \<or> xs = [] then [] else take n xs # chunks n (drop n xs))"

declare chunks.simps [simp del]

primrec sha_extend :: "nat \<Rightarrow> 32 word list \<Rightarrow> 32 word list" where
  "sha_extend 0 ws = ws"
| "sha_extend (Suc n) ws =
     (let t = length ws; a = ws ! (t - 15); b = ws ! (t - 2);
          s0 = rotr32 7 a XOR rotr32 18 a XOR drop_bit 3 a;
          s1 = rotr32 17 b XOR rotr32 19 b XOR drop_bit 10 b
      in sha_extend n (ws @ [s1 + ws ! (t - 7) + s0 + ws ! (t - 16)]))"

fun sha_round :: "32 word list \<Rightarrow> 32 word \<times> 32 word \<Rightarrow> 32 word list" where
  "sha_round [a, b, c, d, e, f, g, h] (k, w) =
     (let t1 = h + (rotr32 6 e XOR rotr32 11 e XOR rotr32 25 e) + ((e AND f) XOR (NOT e AND g)) + k + w;
          t2 = (rotr32 2 a XOR rotr32 13 a XOR rotr32 22 a) + ((a AND b) XOR (a AND c) XOR (b AND c))
      in [t1 + t2, a, b, c, d + t1, e, f, g])"
| "sha_round s kw = s"

definition sha_block :: "32 word list \<Rightarrow> bytes \<Rightarrow> 32 word list" where
  "sha_block hs blk =
     map2 (+) hs (foldl sha_round hs (zip sha_K (sha_extend 48 (map be32 (chunks 4 blk)))))"

definition sha256 :: "bytes \<Rightarrow> bytes" where
  "sha256 m = concat (map bytes_be32 (foldl sha_block sha_H0 (chunks 64 (sha_pad m))))"

section \<open>Base64\<close>

definition b64_alphabet :: string where
  "b64_alphabet = ''ABCDEFGHIJKLMNOPQRSTUVWXYZabcdefghijklmnopqrstuvwxyz0123456789+/''"

definition b64_char :: "nat \<Rightarrow> char" where
  "b64_char n = b64_alphabet ! n"

text \<open>Three bytes are four digits in base 64; one or two bytes are padded with \<open>=\<close>.\<close>

fun b64_encode :: "bytes \<Rightarrow> string" where
  "b64_encode [] = []"
| "b64_encode [a] = (let n = unat a * 16 in [b64_char (n div 64), b64_char (n mod 64), CHR ''='', CHR ''=''])"
| "b64_encode [a, b] =
     (let n = (unat a * 256 + unat b) * 4
      in [b64_char (n div 4096), b64_char (n div 64 mod 64), b64_char (n mod 64), CHR ''=''])"
| "b64_encode (a # b # c # rest) =
     (let n = unat a * 65536 + unat b * 256 + unat c
      in [b64_char (n div 262144), b64_char (n div 4096 mod 64), b64_char (n div 64 mod 64), b64_char (n mod 64)]
         @ b64_encode rest)"

primrec index_from :: "nat \<Rightarrow> char \<Rightarrow> string \<Rightarrow> nat option" where
  "index_from i c [] = None"
| "index_from i c (x # xs) = (if x = c then Some i else index_from (Suc i) c xs)"

definition b64_digit :: "char \<Rightarrow> nat option" where
  "b64_digit c = index_from 0 c b64_alphabet"

text \<open>
  \<open>StdEncoding.DecodeString\<close>: line breaks are skipped; the rest is full quads of digits, the last
  of which may end in padding; the bits a padded quad leaves over are not looked at.
\<close>

fun b64_quads :: "string \<Rightarrow> bytes option" where
  "b64_quads [] = Some []"
| "b64_quads (p # q # r # s # rest) =
     (case (b64_digit p, b64_digit q) of
        (Some i, Some j) \<Rightarrow>
          if r = CHR ''='' then
            if s = CHR ''='' \<and> rest = [] then Some [of_nat ((i * 64 + j) div 16)] else None
          else (case b64_digit r of
              None \<Rightarrow> None
            | Some k \<Rightarrow>
                if s = CHR ''='' then
                  if rest = []
                  then (let n = (i * 4096 + j * 64 + k) div 4 in Some [of_nat (n div 256), of_nat (n mod 256)])
                  else None
                else (case b64_digit s of
                    None \<Rightarrow> None
                  | Some l \<Rightarrow>
                      (let n = i * 262144 + j * 4096 + k * 64 + l
                       in case b64_quads rest of
                            None \<Rightarrow> None
                          | Some bs \<Rightarrow>
                              Some (of_nat (n div 65536) # of_nat (n div 256 mod 256) # of_nat (n mod 256) # bs))))
      | _ \<Rightarrow> None)"
| "b64_quads _ = None"

definition b64_decode :: "string \<Rightarrow> bytes option" where
  "b64_decode s = b64_quads (filter (\<lambda>c. c \<noteq> CHR 0x0D \<and> c \<noteq> CHR 0x0A) s)"

lemma b64_chars:
  "n < 64 \<Longrightarrow> b64_digit (b64_char n) = Some n" "n < 64 \<Longrightarrow> b64_char n \<noteq> CHR ''=''"
  "n < 64 \<Longrightarrow> b64_char n \<noteq> CHR 0x0D \<and> b64_char n \<noteq> CHR 0x0A"
proof -
  have "\<forall>n \<in> set [0..<64]. b64_digit (b64_char n) = Some n \<and> b64_char n \<noteq> CHR ''='' \<and>
      b64_char n \<noteq> CHR 0x0D \<and> b64_char n \<noteq> CHR 0x0A"
    by code_simp
  then show "n < 64 \<Longrightarrow> b64_digit (b64_char n) = Some n" "n < 64 \<Longrightarrow> b64_char n \<noteq> CHR ''=''"
    "n < 64 \<Longrightarrow> b64_char n \<noteq> CHR 0x0D \<and> b64_char n \<noteq> CHR 0x0A" by simp_all
qed

lemma unat_byte: "unat (b :: 8 word) < 256"
  using unsigned_less [of b, where ?'a = nat] by simp

lemma digits_2: "(n :: nat) div 4096 * 4096 + n div 64 mod 64 * 64 + n mod 64 = n"
proof -
  have "n div 4096 = n div 64 div 64" by (simp add: div_mult2_eq [symmetric])
  moreover have "n div 64 div 64 * 64 + n div 64 mod 64 = n div 64" by (rule div_mult_mod_eq)
  moreover have "n div 64 * 64 + n mod 64 = n" by (rule div_mult_mod_eq)
  ultimately show ?thesis by linarith
qed

lemma digits_3: "(n :: nat) div 262144 * 262144 + n div 4096 mod 64 * 4096 + n div 64 mod 64 * 64 + n mod 64 = n"
proof -
  have "n div 262144 = n div 4096 div 64" by (simp add: div_mult2_eq [symmetric])
  moreover have "n div 4096 div 64 * 64 + n div 4096 mod 64 = n div 4096" by (rule div_mult_mod_eq)
  ultimately show ?thesis using digits_2 [of n] by linarith
qed

lemma bytes_3:
  assumes "(a :: nat) < 256" and "b < 256" and "c < 256"
  shows "(a * 65536 + b * 256 + c) div 65536 = a" "(a * 65536 + b * 256 + c) div 256 mod 256 = b"
    "(a * 65536 + b * 256 + c) mod 256 = c"
proof -
  have "b * 256 + c < 65536" using assms by linarith
  then have "(a * 65536 + (b * 256 + c)) div 65536 = a" by simp
  then show "(a * 65536 + b * 256 + c) div 65536 = a" by (simp only: add.assoc)
  have split: "a * 65536 + b * 256 + c = (a * 256 + b) * 256 + c" by simp
  have "((a * 256 + b) * 256 + c) div 256 = a * 256 + b" using assms(3) by simp
  then show "(a * 65536 + b * 256 + c) div 256 mod 256 = b" unfolding split using assms(2) by simp
  show "(a * 65536 + b * 256 + c) mod 256 = c" unfolding split mod_mult_self3 using assms(3) by simp
qed

lemma b64_quads_encode: "b64_quads (b64_encode bs) = Some bs"
proof (induction bs rule: b64_encode.induct)
  case 1
  then show ?case by simp
next
  case (2 a)
  let ?n = "unat a * 16"
  have "?n div 64 < 64" "?n mod 64 < 64" using unat_byte [of a] by simp_all
  moreover have "(?n div 64 * 64 + ?n mod 64) div 16 = unat a" unfolding div_mult_mod_eq by simp
  ultimately show ?case by (simp add: Let_def b64_chars)
next
  case (3 a b)
  let ?n = "(unat a * 256 + unat b) * 4"
  have n: "?n div 4096 < 64" "?n div 64 mod 64 < 64" "?n mod 64 < 64"
    using unat_byte [of a] unat_byte [of b] by simp_all
  have "(?n div 4096 * 4096 + ?n div 64 mod 64 * 64 + ?n mod 64) div 4 = unat a * 256 + unat b"
    unfolding digits_2 by simp
  moreover have "(unat a * 256 + unat b) div 256 = unat a" "(unat a * 256 + unat b) mod 256 = unat b"
    using unat_byte [of b] by simp_all
  ultimately show ?case using n by (simp add: Let_def b64_chars)
next
  case (4 a b c rest)
  let ?n = "unat a * 65536 + unat b * 256 + unat c"
  note lt = unat_byte [of a] unat_byte [of b] unat_byte [of c]
  have n: "?n div 262144 < 64" "?n div 4096 mod 64 < 64" "?n div 64 mod 64 < 64" "?n mod 64 < 64"
    using lt by simp_all
  have "b64_quads (b64_encode (a # b # c # rest)) =
      Some (of_nat (?n div 65536) # of_nat (?n div 256 mod 256) # of_nat (?n mod 256) # rest)"
    using n 4 by (simp add: Let_def b64_chars digits_3)
  then show ?case unfolding bytes_3 [OF lt] by simp
qed

lemma b64_encode_chars: "c \<in> set (b64_encode bs) \<Longrightarrow> c \<noteq> CHR 0x0D \<and> c \<noteq> CHR 0x0A"
proof (induction bs rule: b64_encode.induct)
  case (2 a)
  then show ?case using unat_byte [of a] by (auto simp: Let_def b64_chars)
next
  case (3 a b)
  have "((unat a * 256 + unat b) * 4) div 4096 < 64" using unat_byte [of a] unat_byte [of b] by simp
  with 3 show ?case by (auto simp: Let_def b64_chars)
next
  case (4 a b c rest)
  have "(unat a * 65536 + unat b * 256 + unat c) div 262144 < 64"
    using unat_byte [of a] unat_byte [of b] unat_byte [of c] by simp
  with 4 show ?case by (auto simp: Let_def b64_chars)
qed simp

lemma b64_decode_encode [simp]: "b64_decode (b64_encode bs) = Some bs"
proof -
  have "filter (\<lambda>c. c \<noteq> CHR 0x0D \<and> c \<noteq> CHR 0x0A) (b64_encode bs) = b64_encode bs"
    using b64_encode_chars by (auto simp: filter_id_conv)
  then show ?thesis by (simp add: b64_decode_def b64_quads_encode)
qed

lemma b64_encode_Nil_iff [simp]: "b64_encode bs = [] \<longleftrightarrow> bs = []"
  by (cases bs rule: b64_encode.cases) (simp_all add: Let_def)

lemma b64_encode_inject: "b64_encode xs = b64_encode ys \<longleftrightarrow> xs = ys"
  by (metis b64_decode_encode option.inject)

end
