(* ===== verification/AesGcm.thy ===== *)
theory AesGcm
  imports Sha256
begin

text \<open>
  \<open>crypto/aes\<close> with a 256-bit key (FIPS 197) and \<open>crypto/cipher\<close>'s GCM with a 12-byte nonce, no
  additional data and a 16-byte tag (SP 800-38D): what \<open>kms\<close> calls for envelope encryption.
  Opening what was sealed under the same key and nonce gives the plaintext back; this needs only
  that counter mode is an involution, whatever the block cipher.  Plaintexts beyond the mode's own
  bound of $2^{36} - 32$ bytes, on which the library panics, are outside the model.
\<close>

section \<open>AES-256\<close>

definition aes_sbox :: "8 word list" where
  "aes_sbox =
     [0x63, 0x7C, 0x77, 0x7B, 0xF2, 0x6B, 0x6F, 0xC5, 0x30, 0x01, 0x67, 0x2B, 0xFE, 0xD7, 0xAB, 0x76,
      0xCA, 0x82, 0xC9, 0x7D, 0xFA, 0x59, 0x47, 0xF0, 0xAD, 0xD4, 0xA2, 0xAF, 0x9C, 0xA4, 0x72, 0xC0,
      0xB7, 0xFD, 0x93, 0x26, 0x36, 0x3F, 0xF7, 0xCC, 0x34, 0xA5, 0xE5, 0xF1, 0x71, 0xD8, 0x31, 0x15,
      0x04, 0xC7, 0x23, 0xC3, 0x18, 0x96, 0x05, 0x9A, 0x07, 0x12, 0x80, 0xE2, 0xEB, 0x27, 0xB2, 0x75,
      0x09, 0x83, 0x2C, 0x1A, 0x1B, 0x6E, 0x5A, 0xA0, 0x52, 0x3B, 0xD6, 0xB3, 0x29, 0xE3, 0x2F, 0x84,
      0x53, 0xD1, 0x00, 0xED, 0x20, 0xFC, 0xB1, 0x5B, 0x6A, 0xCB, 0xBE, 0x39, 0x4A, 0x4C, 0x58, 0xCF,
      0xD0, 0xEF, 0xAA, 0xFB, 0x43, 0x4D, 0x33, 0x85, 0x45, 0xF9, 0x02, 0x7F, 0x50, 0x3C, 0x9F, 0xA8,
      0x51, 0xA3, 0x40, 0x8F, 0x92, 0x9D, 0x38, 0xF5, 0xBC, 0xB6, 0xDA, 0x21, 0x10, 0xFF, 0xF3, 0xD2,
      0xCD, 0x0C, 0x13, 0xEC, 0x5F, 0x97, 0x44, 0x17, 0xC4, 0xA7, 0x7E, 0x3D, 0x64, 0x5D, 0x19, 0x73,
      0x60, 0x81, 0x4F, 0xDC, 0x22, 0x2A, 0x90, 0x88, 0x46, 0xEE, 0xB8, 0x14, 0xDE, 0x5E, 0x0B, 0xDB,
      0xE0, 0x32, 0x3A, 0x0A, 0x49, 0x06, 0x24, 0x5C, 0xC2, 0xD3, 0xAC, 0x62, 0x91, 0x95, 0xE4, 0x79,
      0xE7, 0xC8, 0x37, 0x6D, 0x8D, 0xD5, 0x4E, 0xA9, 0x6C, 0x56, 0xF4, 0xEA, 0x65, 0x7A, 0xAE, 0x08,
      0xBA, 0x78, 0x25, 0x2E, 0x1C, 0xA6, 0xB4, 0xC6, 0xE8, 0xDD, 0x74, 0x1F, 0x4B, 0xBD, 0x8B, 0x8A,
      0x70, 0x3E, 0xB5, 0x66, 0x48, 0x03, 0xF6, 0x0E, 0x61, 0x35, 0x57, 0xB9, 0x86, 0xC1, 0x1D, 0x9E,
      0xE1, 0xF8, 0x98, 0x11, 0x69, 0xD9, 0x8E, 0x94, 0x9B, 0x1E, 0x87, 0xE9, 0xCE, 0x55, 0x28, 0xDF,
      0x8C, 0xA1, 0x89, 0x0D, 0xBF, 0xE6, 0x42, 0x68, 0x41, 0x99, 0x2D, 0x0F, 0xB0, 0x54, 0xBB, 0x16]"

definition sub_byte :: "8 word \<Rightarrow> 8 word" where
  "sub_byte b = aes_sbox ! unat b"

definition xtime :: "8 word \<Rightarrow> 8 word" where
  "xtime b = push_bit 1 b XOR (if bit b 7 then 0x1B else 0)"

definition xor_bytes :: "bytes \<Rightarrow> bytes \<Rightarrow> bytes" where
  "xor_bytes xs ys = map2 (XOR) xs ys"

text \<open>Key expansion: sixty words, the last one and the one eight before making the next.\<close>

definition aes_rcon :: "nat \<Rightarrow> 8 word" where
  "aes_rcon i = push_bit (i - 1) 1"

primrec aes_expand :: "nat \<Rightarrow> bytes list \<Rightarrow> bytes list" where
  "aes_expand 0 ws = ws"
| "aes_expand (Suc n) ws =
     (let i = length ws; t = ws ! (i - 1);
          t' = (if i mod 8 = 0
                then xor_bytes (map sub_byte (rotate1 t)) [aes_rcon (i div 8), 0, 0, 0]
                else if i mod 8 = 4 then map sub_byte t else t)
      in aes_expand n (ws @ [xor_bytes (ws ! (i - 8)) t']))"

definition aes_keys :: "bytes \<Rightarrow> bytes list" where
  "aes_keys key = map concat (chunks 4 (aes_expand 52 (chunks 4 key)))"

definition shift_rows :: "bytes \<Rightarrow> bytes" where
  "shift_rows s = map (\<lambda>i. s ! i) [0, 5, 10, 15, 4, 9, 14, 3, 8, 13, 2, 7, 12, 1, 6, 11]"

fun mix_column :: "bytes \<Rightarrow> bytes" where
  "mix_column [a, b, c, d] =
     [xtime a XOR (xtime b XOR b) XOR c XOR d, a XOR xtime b XOR (xtime c XOR c) XOR d,
      a XOR b XOR xtime c XOR (xtime d XOR d), (xtime a XOR a) XOR b XOR c XOR xtime d]"
| "mix_column s = s"

definition mix_columns :: "bytes \<Rightarrow> bytes" where
  "mix_columns s = concat (map mix_column (chunks 4 s))"

definition aes_round :: "bytes \<Rightarrow> bytes \<Rightarrow> bytes" where
  "aes_round s k = xor_bytes (mix_columns (shift_rows (map sub_byte s))) k"

definition aes_encrypt :: "bytes \<Rightarrow> bytes \<Rightarrow> bytes" where
  "aes_encrypt key blk =
     (let ks = aes_keys key;
          s = foldl aes_round (xor_bytes blk (ks ! 0)) (take 13 (drop 1 ks))
      in xor_bytes (shift_rows (map sub_byte s)) (ks ! 14))"

section \<open>GCM\<close>

definition be128 :: "bytes \<Rightarrow> 128 word" where
  "be128 bs = foldl (\<lambda>a b. push_bit 8 a OR ucast b) 0 bs"

definition bytes_be128 :: "128 word \<Rightarrow> bytes" where
  "bytes_be128 w = map (\<lambda>i. ucast (drop_bit (8 * (15 - i)) w)) [0..<16]"

text \<open>Multiplication in the field of GHASH, bit 127 being the coefficient of $x^0$.\<close>

primrec gmul_loop :: "nat \<Rightarrow> 128 word \<Rightarrow> 128 word \<Rightarrow> 128 word \<Rightarrow> 128 word" where
  "gmul_loop 0 x v z = z"
| "gmul_loop (Suc n) x v z =
     gmul_loop n x (if bit v 0 then drop_bit 1 v XOR 0xE1000000000000000000000000000000 else drop_bit 1 v)
       (if bit x n then z XOR v else z)"

definition gmul :: "128 word \<Rightarrow> 128 word \<Rightarrow> 128 word" where
  "gmul x y = gmul_loop 128 x y 0"

definition ghash :: "128 word \<Rightarrow> bytes list \<Rightarrow> 128 word" where
  "ghash h blocks = foldl (\<lambda>y b. gmul (y XOR be128 b) h) 0 blocks"

definition pad16 :: "bytes \<Rightarrow> bytes" where
  "pad16 bs = bs @ replicate (16 - length bs) 0"

definition gcm_counter :: "bytes \<Rightarrow> nat \<Rightarrow> bytes" where
  "gcm_counter nonce i = nonce @ bytes_be32 (of_nat i)"

text \<open>Counter mode: the block numbered \<open>i\<close> is masked with the encrypted counter \<open>i + 2\<close>.\<close>

primrec ctr_blocks :: "bytes \<Rightarrow> bytes \<Rightarrow> nat \<Rightarrow> bytes list \<Rightarrow> bytes list" where
  "ctr_blocks key nonce i [] = []"
| "ctr_blocks key nonce i (b # bs) =
     xor_bytes b (aes_encrypt key (gcm_counter nonce i)) # ctr_blocks key nonce (Suc i) bs"

definition gcm_ctr :: "bytes \<Rightarrow> bytes \<Rightarrow> bytes \<Rightarrow> bytes" where
  "gcm_ctr key nonce data = concat (ctr_blocks key nonce 2 (chunks 16 data))"

definition gcm_tag :: "bytes \<Rightarrow> bytes \<Rightarrow> bytes \<Rightarrow> bytes" where
  "gcm_tag key nonce ct =
     (let h = be128 (aes_encrypt key (replicate 16 0));
          len = replicate 8 0 @ bytes_be64 (8 * of_nat (length ct))
      in xor_bytes (bytes_be128 (ghash h (map pad16 (chunks 16 ct) @ [len])))
           (aes_encrypt key (gcm_counter nonce 1)))"

definition gcm_seal :: "bytes \<Rightarrow> bytes \<Rightarrow> bytes \<Rightarrow> bytes" where
  "gcm_seal key nonce pt = (let ct = gcm_ctr key nonce pt in ct @ gcm_tag key nonce ct)"

definition gcm_open :: "bytes \<Rightarrow> bytes \<Rightarrow> bytes \<Rightarrow> bytes option" where
  "gcm_open key nonce sealed =
     (if length sealed < 16 then None
      else (let ct = take (length sealed - 16) sealed; tag = drop (length sealed - 16) sealed
            in if tag = gcm_tag key nonce ct then Some (gcm_ctr key nonce ct) else None))"

section \<open>Opening what was sealed\<close>

lemma length_xor_bytes [simp]: "length (xor_bytes xs ys) = min (length xs) (length ys)"
  by (simp add: xor_bytes_def)

lemma xor_bytes_append:
  "length xs = length ks \<Longrightarrow> xor_bytes (xs @ ys) (ks @ ls) = xor_bytes xs ks @ xor_bytes ys ls"
  by (simp add: xor_bytes_def)

lemma xor_bytes_short: "length xs \<le> length ks \<Longrightarrow> xor_bytes xs (ks @ ls) = xor_bytes xs ks"
  by (simp add: xor_bytes_def zip_append1 zip_append2)

lemma xor_bytes_twice: "length xs \<le> length ks \<Longrightarrow> xor_bytes (xor_bytes xs ks) ks = xs"
  unfolding xor_bytes_def
proof (induction xs arbitrary: ks)
  case (Cons x xs)
  then show ?case by (cases ks) (simp_all add: xor.assoc)
qed simp

lemma length_chunks_cong: "length xs = length ys \<Longrightarrow> length (chunks n xs) = length (chunks n ys)"
proof (induction n xs arbitrary: ys rule: chunks.induct)
  case (1 n xs)
  show ?case
  proof (cases "n = 0 \<or> xs = []")
    case True
    with "1.prems" show ?thesis by (subst (1 2) chunks.simps) auto
  next
    case False
    with "1.prems" have ys: "\<not> (n = 0 \<or> ys = [])" by auto
    from "1.prems" have "length (drop n xs) = length (drop n ys)" by simp
    with 1 False have "length (chunks n (drop n xs)) = length (chunks n (drop n ys))" by blast
    with False ys show ?thesis by (simp add: chunks.simps [of n xs] chunks.simps [of n ys])
  qed
qed

definition keystream :: "bytes \<Rightarrow> bytes \<Rightarrow> nat \<Rightarrow> nat \<Rightarrow> bytes" where
  "keystream key nonce i n = concat (map (\<lambda>j. aes_encrypt key (gcm_counter nonce j)) [i ..< i + n])"

lemma keystream_Suc:
  "keystream key nonce i (Suc n) = aes_encrypt key (gcm_counter nonce i) @ keystream key nonce (Suc i) n"
proof -
  have "[i ..< i + Suc n] = i # [Suc i ..< Suc i + n]" by (simp add: upt_conv_Cons)
  then show ?thesis by (simp add: keystream_def del: upt_Suc)
qed

text \<open>Every block cipher output is sixteen bytes: the round keys are.\<close>

lemma aes_expand_shape:
  "length ws = l \<Longrightarrow> 8 \<le> l \<Longrightarrow> \<forall>w \<in> set ws. length w = 4 \<Longrightarrow>
     length (aes_expand n ws) = l + n \<and> (\<forall>w \<in> set (aes_expand n ws). length w = 4)"
proof (induction n arbitrary: ws l)
  case (Suc n)
  let ?i = "length ws"
  let ?t = "ws ! (?i - 1)"
  let ?t' = "if ?i mod 8 = 0 then xor_bytes (map sub_byte (rotate1 ?t)) [aes_rcon (?i div 8), 0, 0, 0]
             else if ?i mod 8 = 4 then map sub_byte ?t else ?t"
  from Suc.prems have "length ?t = 4" and old: "length (ws ! (?i - 8)) = 4" by simp_all
  then have "length ?t' = 4" by simp
  define w where "w = xor_bytes (ws ! (?i - 8)) ?t'"
  have "length w = 4" using old \<open>length ?t' = 4\<close> by (simp add: w_def)
  with Suc.prems have "length (aes_expand n (ws @ [w])) = Suc l + n \<and> (\<forall>v \<in> set (aes_expand n (ws @ [w])). length v = 4)"
    by (intro Suc.IH) auto
  moreover have "aes_expand (Suc n) ws = aes_expand n (ws @ [w])"
    by (simp only: aes_expand.simps Let_def w_def)
  ultimately show ?case by (simp del: aes_expand.simps)
qed simp

lemma chunks_Suc_simps:
  "chunks 4 (a # b # c # d # xs) = [a, b, c, d] # chunks 4 xs" "chunks n [] = []"
  by (subst chunks.simps, simp)+

lemma list_by_fours:
  assumes "length xs = 4 * Suc n"
  obtains a b c d ys where "xs = a # b # c # d # ys" and "length ys = 4 * n"
proof -
  from assms obtain a xs1 where "xs = a # xs1" by (cases xs) auto
  moreover from this assms obtain b xs2 where "xs1 = b # xs2" by (cases xs1) auto
  moreover from calculation assms obtain c xs3 where "xs2 = c # xs3" by (cases xs2) auto
  moreover from calculation assms obtain d xs4 where "xs3 = d # xs4" by (cases xs3) auto
  ultimately show ?thesis using assms that by simp
qed

lemma chunks_4_shape:
  "length xs = 4 * n \<Longrightarrow> length (chunks 4 xs) = n \<and> (\<forall>w \<in> set (chunks 4 xs). length w = 4)"
proof (induction n arbitrary: xs)
  case 0
  then show ?case by (simp add: chunks_Suc_simps)
next
  case (Suc n)
  from Suc.prems obtain a b c d ys where "xs = a # b # c # d # ys" and "length ys = 4 * n"
    by (rule list_by_fours)
  with Suc.IH [of ys] show ?case by (simp add: chunks_Suc_simps)
qed

lemma set_chunks_subset: "w \<in> set (chunks n xs) \<Longrightarrow> set w \<subseteq> set xs"
proof (induction n xs rule: chunks.induct)
  case (1 n xs)
  show ?case
  proof (cases "n = 0 \<or> xs = []")
    case True
    with "1.prems" show ?thesis by (simp add: chunks.simps [of n xs])
  next
    case False
    with "1.prems" have "w = take n xs \<or> w \<in> set (chunks n (drop n xs))"
      by (simp add: chunks.simps [of n xs])
    then show ?thesis using "1.IH" False set_take_subset set_drop_subset by fastforce
  qed
qed

lemma aes_keys_shape:
  assumes "length key = 32"
  shows "length (aes_keys key) = 15 \<and> (\<forall>k \<in> set (aes_keys key). length k = 16)"
proof -
  let ?ws = "aes_expand 52 (chunks 4 key)"
  from chunks_4_shape [of key 8] assms have "length (chunks 4 key) = 8" "\<forall>w \<in> set (chunks 4 key). length w = 4"
    by simp_all
  with aes_expand_shape [of "chunks 4 key" 8 52] have ws: "length ?ws = 60" "\<forall>w \<in> set ?ws. length w = 4"
    by simp_all
  with chunks_4_shape [of ?ws 15] have c: "length (chunks 4 ?ws) = 15" "\<forall>g \<in> set (chunks 4 ?ws). length g = 4"
    by simp_all
  have "length (concat g) = 16" if g: "g \<in> set (chunks 4 ?ws)" for g
  proof -
    have four: "\<forall>w \<in> set g. length w = 4" using set_chunks_subset [OF g] ws(2) by blast
    then have "sum_list (map length g) = 4 * length g" by (induction g) auto
    with c(2) g show ?thesis by (simp add: length_concat)
  qed
  with c show ?thesis by (simp add: aes_keys_def)
qed

lemma length_aes_encrypt: "length key = 32 \<Longrightarrow> length (aes_encrypt key blk) = 16"
proof -
  assume "length key = 32"
  from aes_keys_shape [OF this] have "length (aes_keys key ! 14) = 16" by simp
  then show ?thesis by (simp add: aes_encrypt_def Let_def shift_rows_def)
qed

lemma ctr_keystream:
  assumes "length key = 32"
  shows "concat (ctr_blocks key nonce i (chunks 16 data)) =
    xor_bytes data (keystream key nonce i (length (chunks 16 data))) \<and>
    length data \<le> length (keystream key nonce i (length (chunks 16 data)))"
proof (induction "16 :: nat" data arbitrary: i rule: chunks.induct)
  case (1 data)
  show ?case
  proof (cases "data = []")
    case True
    then show ?thesis by (simp add: chunks_Suc_simps xor_bytes_def)
  next
    case False
    let ?E = "aes_encrypt key (gcm_counter nonce i)"
    let ?rest = "keystream key nonce (Suc i) (length (chunks 16 (drop 16 data)))"
    have E: "length ?E = 16" using assms by (rule length_aes_encrypt)
    have c: "chunks 16 data = take 16 data # chunks 16 (drop 16 data)"
      using False by (simp add: chunks.simps [of 16 data])
    from 1 False have IH: "concat (ctr_blocks key nonce (Suc i) (chunks 16 (drop 16 data))) = xor_bytes (drop 16 data) ?rest"
      "length (drop 16 data) \<le> length ?rest" by simp_all
    have "xor_bytes data (?E @ ?rest) = xor_bytes (take 16 data) ?E @ xor_bytes (drop 16 data) ?rest"
    proof (cases "16 \<le> length data")
      case True
      then have "xor_bytes (take 16 data @ drop 16 data) (?E @ ?rest)
          = xor_bytes (take 16 data) ?E @ xor_bytes (drop 16 data) ?rest"
        using E by (intro xor_bytes_append) simp
      then show ?thesis by simp
    next
      case False
      with E show ?thesis by (simp add: xor_bytes_short) (simp add: xor_bytes_def)
    qed
    with IH E show ?thesis unfolding c by (simp add: keystream_Suc)
  qed
qed

lemma length_gcm_ctr: "length key = 32 \<Longrightarrow> length (gcm_ctr key nonce data) = length data"
  using ctr_keystream [of key nonce 2 data] by (simp add: gcm_ctr_def)

lemma gcm_ctr_twice:
  assumes "length key = 32"
  shows "gcm_ctr key nonce (gcm_ctr key nonce data) = data"
proof -
  let ?k = "keystream key nonce 2 (length (chunks 16 data))"
  have ct: "gcm_ctr key nonce data = xor_bytes data ?k" and le: "length data \<le> length ?k"
    using ctr_keystream [OF assms, of nonce 2 data] by (simp_all add: gcm_ctr_def)
  have "length (chunks 16 (gcm_ctr key nonce data)) = length (chunks 16 data)"
    by (rule length_chunks_cong) (rule length_gcm_ctr [OF assms])
  then have "gcm_ctr key nonce (gcm_ctr key nonce data) = xor_bytes (gcm_ctr key nonce data) ?k"
    using ctr_keystream [OF assms, of nonce 2 "gcm_ctr key nonce data"] by (simp add: gcm_ctr_def)
  then show ?thesis unfolding ct by (simp only: xor_bytes_twice [OF le])
qed

lemma length_gcm_tag: "length key = 32 \<Longrightarrow> length (gcm_tag key nonce ct) = 16"
  by (simp add: gcm_tag_def Let_def bytes_be128_def length_aes_encrypt)

lemma gcm_open_seal: "length key = 32 \<Longrightarrow> gcm_open key nonce (gcm_seal key nonce pt) = Some pt"
  by (simp add: gcm_open_def gcm_seal_def Let_def length_gcm_tag gcm_ctr_twice)

lemma gcm_open_authentic:
  "gcm_open key nonce sealed = Some pt \<Longrightarrow> length key = 32 \<Longrightarrow> sealed = gcm_seal key nonce pt"
  by (auto simp: gcm_open_def gcm_seal_def Let_def gcm_ctr_twice split: if_splits)
     (metis append_take_drop_id)

end
