(* ===== verification/Kms.thy ===== *)
theory Kms
  imports AesGcm StoreTypes
begin

text \<open>
  \<open>kms/kms.go\<close>: envelope encryption.  \<open>Seal\<close> and \<open>Open\<close> work under a data key; a KMS makes data
  keys and their wrapped forms; \<open>Local\<close> is the in-process KMS.  A read of \<open>rand.Reader\<close> is an
  argument: \<open>None\<close> when the read fails, else the bytes it filled the buffer with.
\<close>

definition dataKeyLen :: nat where "dataKeyLen = 32"

definition NonceSize :: nat where "NonceSize = 12"

text \<open>
  A \<open>cipher.AEAD\<close> is opaque and only made from a key of the right length, so the type carries
  that fact.
\<close>

typedef gcm = "{k :: bytes. length k = dataKeyLen}"
  morphisms gcm_key Gcm
  by (rule exI [of _ "replicate 32 0"]) (simp add: dataKeyLen_def)

lemma length_gcm_key [simp]: "length (gcm_key g) = 32"
  using gcm_key [of g] by (simp add: dataKeyLen_def)

lemma gcm_key_Gcm: "length k = 32 \<Longrightarrow> gcm_key (Gcm k) = k"
  by (simp add: Gcm_inverse dataKeyLen_def)

definition newGCM :: "bytes \<Rightarrow> err + gcm" where
  "newGCM key =
     (if length key \<noteq> dataKeyLen
      then Inl (ErrOther (''kms: data key must be '' @ dec dataKeyLen @ '' bytes, got '' @ dec (length key)))
      else Inr (Gcm key))"

section \<open>Sealing objects\<close>

definition Seal :: "bytes option \<Rightarrow> bytes \<Rightarrow> bytes \<Rightarrow> err + bytes" where
  "Seal rnd dataKey plaintext =
     (case newGCM dataKey of
        Inl e \<Rightarrow> Inl e
      | Inr g \<Rightarrow> (case rnd of
            None \<Rightarrow> Inl (ErrOther ''kms: seal nonce'')
          | Some nonce \<Rightarrow> Inr (nonce @ gcm_seal (gcm_key g) nonce plaintext)))"

definition Open :: "bytes \<Rightarrow> bytes \<Rightarrow> err + bytes" where
  "Open dataKey blob =
     (case newGCM dataKey of
        Inl e \<Rightarrow> Inl e
      | Inr g \<Rightarrow>
          if length blob < NonceSize then Inl (ErrOther ''kms: ciphertext too short'')
          else (case gcm_open (gcm_key g) (take NonceSize blob) (drop NonceSize blob) of
              None \<Rightarrow> Inl (ErrOther ''kms: open'')
            | Some out \<Rightarrow> Inr out))"

section \<open>The interface and the in-process KMS\<close>

record kms_iface =
  km_GenerateDataKey :: "bytes option \<Rightarrow> bytes option \<Rightarrow> err + bytes \<times> bytes"
  km_Unwrap :: "bytes \<Rightarrow> err + bytes"

record local_kms =
  lc_gcm :: gcm

definition NewLocal :: "bytes option \<Rightarrow> bytes \<Rightarrow> err + local_kms \<times> bool" where
  "NewLocal rnd master0 =
     (let ephemeral = (master0 = []) in
      case (if ephemeral then rnd else Some master0) of
        None \<Rightarrow> Inl (ErrOther ''kms: ephemeral master key'')
      | Some master \<Rightarrow>
          if length master \<noteq> dataKeyLen
          then Inl (ErrOther (''kms: master key must be '' @ dec dataKeyLen @ '' bytes, got '' @ dec (length master)))
          else Inr (\<lparr>lc_gcm = Gcm master\<rparr>, ephemeral))"

definition Local_GenerateDataKey :: "local_kms \<Rightarrow> bytes option \<Rightarrow> bytes option \<Rightarrow> err + bytes \<times> bytes" where
  "Local_GenerateDataKey l rnd1 rnd2 =
     (case rnd1 of
        None \<Rightarrow> Inl (ErrOther ''kms: data key'')
      | Some plaintext \<Rightarrow> (case rnd2 of
            None \<Rightarrow> Inl (ErrOther ''kms: wrap nonce'')
          | Some nonce \<Rightarrow> Inr (plaintext, nonce @ gcm_seal (gcm_key (lc_gcm l)) nonce plaintext)))"

definition Local_Unwrap :: "local_kms \<Rightarrow> bytes \<Rightarrow> err + bytes" where
  "Local_Unwrap l wrapped =
     (if length wrapped < NonceSize then Inl (ErrOther ''kms: wrapped key too short'')
      else (case gcm_open (gcm_key (lc_gcm l)) (take NonceSize wrapped) (drop NonceSize wrapped) of
          None \<Rightarrow> Inl (ErrOther ''kms: unwrap'')
        | Some out \<Rightarrow> Inr out))"

definition LocalKMS :: "local_kms \<Rightarrow> kms_iface" where
  "LocalKMS l = \<lparr>km_GenerateDataKey = Local_GenerateDataKey l, km_Unwrap = Local_Unwrap l\<rparr>"

section \<open>What sealing guarantees\<close>

text \<open>\<open>io.ReadFull\<close> fills the whole buffer or fails.\<close>

definition rand_ok :: "nat \<Rightarrow> bytes option \<Rightarrow> bool" where
  "rand_ok n rnd \<longleftrightarrow> (case rnd of None \<Rightarrow> True | Some b \<Rightarrow> length b = n)"

lemma rand_ok_simps [simp]: "rand_ok n None" "rand_ok n (Some b) \<longleftrightarrow> length b = n"
  by (simp_all add: rand_ok_def)

lemma newGCM_ok: "length key = 32 \<Longrightarrow> newGCM key = Inr (Gcm key)"
  by (simp add: newGCM_def dataKeyLen_def)

lemma Open_Seal:
  assumes "rand_ok NonceSize rnd" and "Seal rnd key pt = Inr sealed"
  shows "Open key sealed = Inr pt"
proof -
  from assms(2) have key: "length key = 32"
    by (auto simp: Seal_def newGCM_def dataKeyLen_def split: if_splits)
  from assms key obtain nonce where "rnd = Some nonce" "length nonce = NonceSize"
      "sealed = nonce @ gcm_seal key nonce pt"
    by (auto simp: Seal_def newGCM_ok gcm_key_Gcm split: option.splits)
  with key show ?thesis by (simp add: Open_def newGCM_ok gcm_key_Gcm gcm_open_seal)
qed

text \<open>The contract the service relies on, of any KMS behind the interface.\<close>

locale kms_contract =
  fixes K :: kms_iface
  assumes unwrap_generated:
    "rand_ok dataKeyLen r1 \<Longrightarrow> rand_ok NonceSize r2 \<Longrightarrow> km_GenerateDataKey K r1 r2 = Inr (p, w) \<Longrightarrow>
       km_Unwrap K w = Inr p"
    and wrapped_nonempty:
    "rand_ok dataKeyLen r1 \<Longrightarrow> rand_ok NonceSize r2 \<Longrightarrow> km_GenerateDataKey K r1 r2 = Inr (p, w) \<Longrightarrow> w \<noteq> []"
begin

text \<open>Under the contract a sealed object opens with the key reference stored beside it.\<close>

lemma envelope_opens:
  assumes "rand_ok dataKeyLen r1" and "rand_ok NonceSize r2" and "rand_ok NonceSize r3"
    and "km_GenerateDataKey K r1 r2 = Inr (p, w)" and "Seal r3 p data = Inr sealed"
  shows "\<exists>w' key. b64_decode (b64_encode w) = Some w' \<and> km_Unwrap K w' = Inr key \<and> Open key sealed = Inr data"
  using assms unwrap_generated Open_Seal by simp

end

interpretation local: kms_contract "LocalKMS l" for l
proof
  fix r1 r2 p w
  assume r: "rand_ok dataKeyLen r1" "rand_ok NonceSize r2"
    and g: "km_GenerateDataKey (LocalKMS l) r1 r2 = Inr (p, w)"
  then obtain nonce where n: "length nonce = NonceSize" "w = nonce @ gcm_seal (gcm_key (lc_gcm l)) nonce p"
    by (auto simp: LocalKMS_def Local_GenerateDataKey_def split: option.splits)
  then show "km_Unwrap (LocalKMS l) w = Inr p"
    by (simp add: LocalKMS_def Local_Unwrap_def gcm_open_seal)
  from n show "w \<noteq> []" by (auto simp: NonceSize_def)
qed

section \<open>Properties\<close>

text \<open>C39: envelope encryption round trip and authenticity.  What \<open>Seal\<close> produced under a data key
  opens under that key to the same bytes; and \<open>Open\<close> under a key accepts nothing else: any blob
  it opens is a sealing of the bytes it returns, under the nonce the blob starts with.\<close>

theorem seal_open_exact:
  assumes "length key = dataKeyLen"
  shows "(\<forall>nonce. length nonce = NonceSize \<longrightarrow>
            (\<exists>sealed. Seal (Some nonce) key pt = Inr sealed \<and> Open key sealed = Inr pt)) \<and>
    (Open key blob = Inr pt \<longrightarrow> NonceSize \<le> length blob \<and> Seal (Some (take NonceSize blob)) key pt = Inr blob)"
proof (intro conjI allI impI)
  have key: "length key = 32" using assms by (simp add: dataKeyLen_def)
  fix nonce :: bytes assume "length nonce = NonceSize"
  then show "\<exists>sealed. Seal (Some nonce) key pt = Inr sealed \<and> Open key sealed = Inr pt"
    using key Open_Seal [of "Some nonce" key pt] by (simp add: Seal_def newGCM_ok)
next
  have key: "length key = 32" using assms by (simp add: dataKeyLen_def)
  assume "Open key blob = Inr pt"
  with key have le: "NonceSize \<le> length blob"
    and o: "gcm_open key (take NonceSize blob) (drop NonceSize blob) = Some pt"
    by (auto simp: Open_def newGCM_ok gcm_key_Gcm split: if_splits option.splits)
  from gcm_open_authentic [OF o key] have "take NonceSize blob @ gcm_seal key (take NonceSize blob) pt = blob"
    by (metis append_take_drop_id)
  with le key show "NonceSize \<le> length blob" and "Seal (Some (take NonceSize blob)) key pt = Inr blob"
    by (simp_all add: Seal_def newGCM_ok gcm_key_Gcm)
qed

lemma seal_open_exact_witness:
  "\<exists>sealed. Seal (Some (replicate 12 7)) (replicate 32 1) [1, 2, 3] = Inr sealed \<and>
     Open (replicate 32 1) sealed = Inr [1, 2, 3]"
  using seal_open_exact [of "replicate 32 1" "[1, 2, 3]"] by (simp add: dataKeyLen_def NonceSize_def)

text \<open>The in-process KMS: it is made from a 32-byte master key or, given none, from 32 random
  bytes and then reports itself ephemeral; any other length is refused; and every data key it
  generates is recovered from its wrapped form, by the KMS with the same master key.\<close>

theorem local_kms_unwraps:
  assumes "rand_ok dataKeyLen rnd" and "rand_ok dataKeyLen r1" and "rand_ok NonceSize r2"
  shows "(case NewLocal rnd master of
      Inl e \<Rightarrow> master = [] \<and> rnd = None \<or> master \<noteq> [] \<and> length master \<noteq> dataKeyLen
    | Inr (l, ephemeral) \<Rightarrow> (ephemeral \<longleftrightarrow> master = []) \<and>
        (\<forall>p w. Local_GenerateDataKey l r1 r2 = Inr (p, w) \<longrightarrow> length p = dataKeyLen \<and> Local_Unwrap l w = Inr p))"
proof (cases "NewLocal rnd master")
  case (Inl e)
  with assms(1) show ?thesis by (auto simp: NewLocal_def Let_def split: option.splits if_splits)
next
  case (Inr x)
  obtain l ephemeral where x: "x = (l, ephemeral)" by fastforce
  with Inr have "ephemeral \<longleftrightarrow> master = []"
    by (auto simp: NewLocal_def Let_def split: option.splits if_splits)
  moreover have "length p = dataKeyLen \<and> Local_Unwrap l w = Inr p" if "Local_GenerateDataKey l r1 r2 = Inr (p, w)" for p w
    using that assms(2,3) local.unwrap_generated [of r1 r2 l p w]
    by (auto simp: LocalKMS_def Local_GenerateDataKey_def split: option.splits)
  ultimately show ?thesis using Inr x by simp
qed

lemma local_kms_unwraps_witness:
  "\<exists>l p w. NewLocal None (replicate 32 9) = Inr (l, False) \<and>
     Local_GenerateDataKey l (Some (replicate 32 1)) (Some (replicate 12 2)) = Inr (p, w) \<and> Local_Unwrap l w = Inr p"
proof -
  let ?l = "\<lparr>lc_gcm = Gcm (replicate 32 9)\<rparr>"
  have "NewLocal None (replicate 32 9) = Inr (?l, False)" by (simp add: NewLocal_def dataKeyLen_def Let_def)
  then show ?thesis
    using local_kms_unwraps [of None "Some (replicate 32 1)" "Some (replicate 12 2)" "replicate 32 9"]
    by (auto simp: dataKeyLen_def NonceSize_def Local_GenerateDataKey_def)
qed

end
