(* ===== verification/Blob.thy ===== *)
theory Blob
  imports StoreTypes
begin

text \<open>
  \<open>s3/s3.go\<close>: the object store for sealed bytes.  The interface is a record of operations over a
  backend state; \<open>Memory\<close> is the in-process backend, \<open>S3\<close> the one on an object-storage client,
  which is a parameter.  The contract says what the service relies on, whether calls fail or not.
\<close>

record 'b blob_iface =
  bl_Put :: "string \<Rightarrow> bytes \<Rightarrow> 'b \<Rightarrow> (unit, 'b) res"
  bl_Get :: "string \<Rightarrow> 'b \<Rightarrow> err + bytes option"
  bl_Delete :: "string \<Rightarrow> 'b \<Rightarrow> (unit, 'b) res"

section \<open>The in-memory backend\<close>

record blob_memory =
  objs :: "string \<rightharpoonup> bytes"

definition NewBlobMemory :: blob_memory where
  "NewBlobMemory = \<lparr>objs = Map.empty\<rparr>"

definition BlobMemory_Put :: "string \<Rightarrow> bytes \<Rightarrow> blob_memory \<Rightarrow> (unit, blob_memory) res" where
  "BlobMemory_Put key data m = (Inr (), m\<lparr>objs := (objs m)(key \<mapsto> data)\<rparr>)"

definition BlobMemory_Get :: "string \<Rightarrow> blob_memory \<Rightarrow> err + bytes option" where
  "BlobMemory_Get key m = Inr (objs m key)"

definition BlobMemory_Delete :: "string \<Rightarrow> blob_memory \<Rightarrow> (unit, blob_memory) res" where
  "BlobMemory_Delete key m = (Inr (), m\<lparr>objs := (objs m)(key := None)\<rparr>)"

definition BlobMemory :: "blob_memory blob_iface" where
  "BlobMemory = \<lparr>bl_Put = BlobMemory_Put, bl_Get = BlobMemory_Get, bl_Delete = BlobMemory_Delete\<rparr>"

section \<open>The S3 backend\<close>

text \<open>
  What the code calls of the object-storage client: writing an object, opening one and then
  reading its bytes (either may fail; a failed read carries the response code), removing one,
  each on a bucket and a full key.  A failure is the client's message.
\<close>

record 'c s3_client =
  mc_PutObject :: "string \<Rightarrow> string \<Rightarrow> bytes \<Rightarrow> 'c \<Rightarrow> (string + unit) \<times> 'c"
  mc_GetObject :: "string \<Rightarrow> string \<Rightarrow> 'c \<Rightarrow> string + (string + bytes)"
  mc_RemoveObject :: "string \<Rightarrow> string \<Rightarrow> 'c \<Rightarrow> (string + unit) \<times> 'c"
  mc_BucketExists :: "string \<Rightarrow> 'c \<Rightarrow> string + bool"

record s3_store =
  s3_bucket :: string
  s3_prefix :: string

record s3_options =
  so_Endpoint :: string
  so_AccessKey :: string
  so_SecretKey :: string
  so_UseSSL :: bool
  so_Bucket :: string
  so_Prefix :: string

text \<open>\<open>New\<close> connects the client (\<open>minio.New\<close>, a parameter: endpoint, credentials and whether to use
  TLS) and ends a non-empty prefix in a slash.\<close>

definition S3_New :: "(string \<Rightarrow> string \<Rightarrow> string \<Rightarrow> bool \<Rightarrow> string + 'c s3_client) \<Rightarrow> s3_options \<Rightarrow> err + 'c s3_client \<times> s3_store" where
  "S3_New minio_New opts =
     (case minio_New (so_Endpoint opts) (so_AccessKey opts) (so_SecretKey opts) (so_UseSSL opts) of
        Inl e \<Rightarrow> Inl (ErrOther (''s3: client: '' @ e))
      | Inr cl \<Rightarrow>
          (let prefix = so_Prefix opts in
           Inr (cl, \<lparr>s3_bucket = so_Bucket opts,
                     s3_prefix = (if prefix \<noteq> [] \<and> last prefix \<noteq> CHR ''/'' then prefix @ ''/'' else prefix)\<rparr>)))"

definition S3_key :: "s3_store \<Rightarrow> string \<Rightarrow> string" where
  "S3_key s k = s3_prefix s @ k"

definition S3_Put :: "'c s3_client \<Rightarrow> s3_store \<Rightarrow> string \<Rightarrow> bytes \<Rightarrow> 'c \<Rightarrow> (unit, 'c) res" where
  "S3_Put cl s key data st =
     (case mc_PutObject cl (s3_bucket s) (S3_key s key) data st of
        (Inl e, st') \<Rightarrow> (Inl (ErrOther (''s3: put '' @ key @ '': '' @ e)), st')
      | (Inr u, st') \<Rightarrow> (Inr (), st'))"

definition S3_Get :: "'c s3_client \<Rightarrow> s3_store \<Rightarrow> string \<Rightarrow> 'c \<Rightarrow> err + bytes option" where
  "S3_Get cl s key st =
     (case mc_GetObject cl (s3_bucket s) (S3_key s key) st of
        Inl e \<Rightarrow> Inl (ErrOther (''s3: get '' @ key @ '': '' @ e))
      | Inr (Inl code) \<Rightarrow>
          if code = ''NoSuchKey'' then Inr None else Inl (ErrOther (''s3: read '' @ key @ '': '' @ code))
      | Inr (Inr b) \<Rightarrow> Inr (Some b))"

definition S3_Delete :: "'c s3_client \<Rightarrow> s3_store \<Rightarrow> string \<Rightarrow> 'c \<Rightarrow> (unit, 'c) res" where
  "S3_Delete cl s key st =
     (case mc_RemoveObject cl (s3_bucket s) (S3_key s key) st of
        (Inl e, st') \<Rightarrow> (Inl (ErrOther (''s3: delete '' @ key @ '': '' @ e)), st')
      | (Inr u, st') \<Rightarrow> (Inr (), st'))"

definition S3_Ping :: "'c s3_client \<Rightarrow> s3_store \<Rightarrow> 'c \<Rightarrow> err + unit" where
  "S3_Ping cl s st =
     (case mc_BucketExists cl (s3_bucket s) st of
        Inl e \<Rightarrow> Inl (ErrOther (''s3: ping: '' @ e))
      | Inr found \<Rightarrow> Inr ())"

definition S3Store :: "'c s3_client \<Rightarrow> s3_store \<Rightarrow> 'c blob_iface" where
  "S3Store cl s = \<lparr>bl_Put = S3_Put cl s, bl_Get = S3_Get cl s, bl_Delete = S3_Delete cl s\<rparr>"

section \<open>The contract\<close>

text \<open>
  A failed write or delete may or may not have happened; no call touches another key; a
  successful read tells the truth.
\<close>

locale blob_contract =
  fixes B :: "'b blob_iface"
    and content :: "'b \<Rightarrow> (string \<rightharpoonup> bytes)"
  assumes put_frame: "bl_Put B k d b = (r, b') \<Longrightarrow> l \<noteq> k \<Longrightarrow> content b' l = content b l"
    and put_done: "bl_Put B k d b = (Inr u, b') \<Longrightarrow> content b' k = Some d"
    and get_content: "bl_Get B k b = Inr x \<Longrightarrow> x = content b k"
    and delete_frame: "bl_Delete B k b = (r, b') \<Longrightarrow> l \<noteq> k \<Longrightarrow> content b' l = content b l"
    and delete_done: "bl_Delete B k b = (Inr u, b') \<Longrightarrow> content b' k = None"

text \<open>A backend whose calls always succeed.\<close>

locale reliable_blobs = blob_contract +
  assumes put_ok: "\<exists>b'. bl_Put B k d b = (Inr (), b')"
    and get_ok: "bl_Get B k b = Inr (content b k)"
    and delete_ok: "\<exists>b'. bl_Delete B k b = (Inr (), b')"
begin

lemma put_content: "content (snd (bl_Put B k d b)) = (content b)(k \<mapsto> d)"
  using put_ok [of k d b] put_frame [of k d b] put_done [of k d b] by (force simp: fun_eq_iff)

lemma delete_content: "content (snd (bl_Delete B k b)) = (content b)(k := None)"
  using delete_ok [of k b] delete_frame [of k b] delete_done [of k b] by (force simp: fun_eq_iff)

lemma put_Inr: "fst (bl_Put B k d b) = Inr ()"
  using put_ok [of k d b] by auto

end

interpretation mem_blobs: reliable_blobs BlobMemory objs
  by unfold_locales
     (auto simp: BlobMemory_def BlobMemory_Put_def BlobMemory_Get_def BlobMemory_Delete_def)

lemma S3_key_inject [simp]: "S3_key s k = S3_key s l \<longleftrightarrow> k = l"
  by (simp add: S3_key_def)

text \<open>The documented behaviour of an object store behind its client, over the objects it holds.\<close>

definition client_ok :: "'c s3_client \<Rightarrow> ('c \<Rightarrow> string \<times> string \<rightharpoonup> bytes) \<Rightarrow> bool" where
  "client_ok cl obj \<longleftrightarrow>
     (\<forall>bu k d st r st'. mc_PutObject cl bu k d st = (r, st') \<longrightarrow>
        (\<forall>x. x \<noteq> (bu, k) \<longrightarrow> obj st' x = obj st x) \<and> (r = Inr () \<longrightarrow> obj st' (bu, k) = Some d)) \<and>
     (\<forall>bu k st. (\<forall>b. mc_GetObject cl bu k st = Inr (Inr b) \<longrightarrow> obj st (bu, k) = Some b) \<and>
        (mc_GetObject cl bu k st = Inr (Inl ''NoSuchKey'') \<longrightarrow> obj st (bu, k) = None)) \<and>
     (\<forall>bu k st r st'. mc_RemoveObject cl bu k st = (r, st') \<longrightarrow>
        (\<forall>x. x \<noteq> (bu, k) \<longrightarrow> obj st' x = obj st x) \<and> (r = Inr () \<longrightarrow> obj st' (bu, k) = None))"

text \<open>C40: over any object store that keeps objects apart by bucket and key, the S3 backend is a blob
  store: its prefix maps different keys to different objects, so each call touches its own key
  only, a successful write is what the next read finds, a missing object reads as absent rather
  than as an error, and a successful delete leaves nothing under the key.\<close>

theorem s3_is_blob_store:
  assumes "client_ok cl obj"
  shows "blob_contract (S3Store cl s) (\<lambda>st k. obj st (s3_bucket s, S3_key s k))"
proof
  have put: "(\<forall>x. x \<noteq> (bu, k) \<longrightarrow> obj st' x = obj st x) \<and> (r = Inr () \<longrightarrow> obj st' (bu, k) = Some d)"
    if "mc_PutObject cl bu k d st = (r, st')" for bu k d st r st'
    using assms that unfolding client_ok_def by blast
  have rem: "(\<forall>x. x \<noteq> (bu, k) \<longrightarrow> obj st' x = obj st x) \<and> (r = Inr () \<longrightarrow> obj st' (bu, k) = None)"
    if "mc_RemoveObject cl bu k st = (r, st')" for bu k st r st'
    using assms that unfolding client_ok_def by blast
  have get: "mc_GetObject cl bu k st = Inr (Inr b) \<longrightarrow> obj st (bu, k) = Some b"
    and nokey: "mc_GetObject cl bu k st = Inr (Inl ''NoSuchKey'') \<longrightarrow> obj st (bu, k) = None" for bu k st b
    using assms unfolding client_ok_def by blast+
  fix k b r b' l u x
  show "obj b' (s3_bucket s, S3_key s l) = obj b (s3_bucket s, S3_key s l)"
    if "bl_Put (S3Store cl s) k d b = (r, b')" "l \<noteq> k" for d
    using that put by (auto simp: S3Store_def S3_Put_def split: prod.splits sum.splits)
  show "obj b' (s3_bucket s, S3_key s k) = Some d" if "bl_Put (S3Store cl s) k d b = (Inr u, b')" for d
    using that put by (auto simp: S3Store_def S3_Put_def split: prod.splits sum.splits)
  show "x = obj b (s3_bucket s, S3_key s k)" if "bl_Get (S3Store cl s) k b = Inr x"
    using that get nokey by (auto simp: S3Store_def S3_Get_def split: sum.splits if_splits)
  show "obj b' (s3_bucket s, S3_key s l) = obj b (s3_bucket s, S3_key s l)"
    if "bl_Delete (S3Store cl s) k b = (r, b')" "l \<noteq> k"
    using that rem by (auto simp: S3Store_def S3_Delete_def split: prod.splits sum.splits)
  show "obj b' (s3_bucket s, S3_key s k) = None" if "bl_Delete (S3Store cl s) k b = (Inr u, b')"
    using that rem by (auto simp: S3Store_def S3_Delete_def split: prod.splits sum.splits)
qed

text \<open>A bucket held in memory is such a store.\<close>

definition map_client :: "(string \<times> string \<rightharpoonup> bytes) s3_client" where
  "map_client =
     \<lparr>mc_PutObject = (\<lambda>bu k d st. (Inr (), st((bu, k) \<mapsto> d))),
      mc_GetObject = (\<lambda>bu k st. case st (bu, k) of None \<Rightarrow> Inr (Inl ''NoSuchKey'') | Some b \<Rightarrow> Inr (Inr b)),
      mc_RemoveObject = (\<lambda>bu k st. (Inr (), st((bu, k) := None))),
      mc_BucketExists = (\<lambda>bu st. Inr True)\<rparr>"

definition sample_options :: s3_options where
  "sample_options =
     \<lparr>so_Endpoint = ''localhost:9000'', so_AccessKey = ''k'', so_SecretKey = ''s'', so_UseSSL = False,
      so_Bucket = ''b'', so_Prefix = ''document''\<rparr>"

lemma s3_is_blob_store_witness:
  "\<exists>cl s. S3_New (\<lambda>_ _ _ _. Inr map_client) sample_options = Inr (cl, s) \<and>
     blob_contract (S3Store cl s) (\<lambda>st k. st (''b'', ''document/'' @ k))"
proof -
  have "client_ok map_client id"
    by (auto simp: client_ok_def map_client_def split: option.splits)
  from s3_is_blob_store [OF this, of "\<lparr>s3_bucket = ''b'', s3_prefix = ''document/''\<rparr>"] show ?thesis
    by (simp add: S3_New_def S3_key_def sample_options_def)
qed

end
