(* ===== verification/Packaging.thy ===== *)
theory Packaging
  imports StoreTypes
begin

text \<open>
  \<open>packaging/packaging.go\<close>: thin wrappers over the container library \<open>go-asice\<close>.  The library is
  not part of the program, so its functions are a parameter, of which the model keeps what the
  wrappers read: of an inspection the number of manifest entries, the number of signatures and
  the data objects; of an error only that there is one and its text.
\<close>

record pkg_file =
  pf_Name :: string
  pf_Data :: bytes

record inner_file =
  if_Name :: string
  if_MediaType :: string
  if_Size :: int

record asice =
  as_Inspect :: "bytes \<Rightarrow> string + nat \<times> nat \<times> inner_file list"
  as_BuildUnsigned :: "pkg_file list \<Rightarrow> string + bytes"
  as_CheckReferences :: "pkg_file list \<Rightarrow> pkg_file list \<Rightarrow> string option"
  as_BuildContainer :: "pkg_file list \<Rightarrow> pkg_file list \<Rightarrow> string + bytes"
  as_AddDocuments :: "bytes \<Rightarrow> pkg_file list \<Rightarrow> string + bytes"
  as_AddSignature :: "bytes \<Rightarrow> bytes \<Rightarrow> string + bytes"
  as_CoSign :: "bytes \<Rightarrow> bytes \<Rightarrow> string + bytes"
  as_DataObjects :: "bytes \<Rightarrow> string + pkg_file list"
  as_MimeType :: string

definition lib_err :: "string + 'a \<Rightarrow> err + 'a" where
  "lib_err r = (case r of Inl msg \<Rightarrow> Inl (ErrOther msg) | Inr x \<Rightarrow> Inr x)"

text \<open>A container is what parses and has a manifest entry or a signature; \<open>None\<close> is "not a container".\<close>

definition Inspect :: "asice \<Rightarrow> bytes \<Rightarrow> inner_file list option" where
  "Inspect lib data =
     (case as_Inspect lib data of
        Inl e \<Rightarrow> None
      | Inr (entries, signatures, objects) \<Rightarrow>
          if entries = 0 \<and> signatures = 0 then None
          else Some (map (\<lambda>x. \<lparr>if_Name = if_Name x, if_MediaType = if_MediaType x, if_Size = if_Size x\<rparr>) objects))"

definition BuildUnsigned :: "asice \<Rightarrow> pkg_file list \<Rightarrow> err + bytes" where
  "BuildUnsigned lib docs = lib_err (as_BuildUnsigned lib docs)"

definition CheckReferences :: "asice \<Rightarrow> pkg_file list \<Rightarrow> pkg_file list \<Rightarrow> err option" where
  "CheckReferences lib docs signatures = map_option ErrOther (as_CheckReferences lib docs signatures)"

definition Assemble :: "asice \<Rightarrow> pkg_file list \<Rightarrow> pkg_file list \<Rightarrow> err + bytes" where
  "Assemble lib docs signatures =
     (case as_CheckReferences lib docs signatures of
        Some e \<Rightarrow> Inl (ErrOther e)
      | None \<Rightarrow> lib_err (as_BuildContainer lib docs signatures))"

definition Complete :: "asice \<Rightarrow> bytes \<Rightarrow> pkg_file list \<Rightarrow> err + bytes" where
  "Complete lib fileless docs = lib_err (as_AddDocuments lib fileless docs)"

definition AddSignature :: "asice \<Rightarrow> bytes \<Rightarrow> bytes \<Rightarrow> err + bytes" where
  "AddSignature lib container signature = lib_err (as_AddSignature lib container signature)"

definition CoSign :: "asice \<Rightarrow> bytes \<Rightarrow> bytes \<Rightarrow> err + bytes" where
  "CoSign lib container fileless = lib_err (as_CoSign lib container fileless)"

definition DataObjects :: "asice \<Rightarrow> bytes \<Rightarrow> err + pkg_file list" where
  "DataObjects lib container = lib_err (as_DataObjects lib container)"

lemma lib_err_simps [simp]: "lib_err (Inl m) = Inl (ErrOther m)" "lib_err (Inr x) = Inr x"
  by (simp_all add: lib_err_def)

end
