(* ===== verification/DocService.thy ===== *)
theory DocService
  imports MemoryViews Kms Blob Packaging
begin

text \<open>
  \<open>documents/service.go\<close>: the domain core that composes the metadata store, the blob store and
  the KMS.  The service's state is the pair of the metadata store and the blob backend; the two
  interfaces, the container library and the retention window are its configuration.  Everything a
  call takes from outside (random reads, fresh identifiers, clock readings, visiting orders) is an
  argument of the call.
\<close>

section \<open>State and configuration\<close>

record 'b world =
  w_meta :: memory
  w_blob :: 'b

record 'b service =
  sv_blob :: "'b blob_iface"
  sv_kms :: kms_iface
  sv_asice :: asice
  sv_ttl :: duration

definition New :: "'b blob_iface \<Rightarrow> kms_iface \<Rightarrow> asice \<Rightarrow> duration \<Rightarrow> 'b service" where
  "New blob k lib ttl = \<lparr>sv_blob = blob, sv_kms = k, sv_asice = lib, sv_ttl = ttl\<rparr>"

text \<open>
  The outside values of one storing call: the reads for the data key, its wrapping nonce and the
  sealing nonce, the object key (\<open>ulid.Make\<close>), and for the metadata write its identifier, the
  visiting order of its check, the instant the service reads and the instant the store reads.
\<close>

record env =
  e_key :: "bytes option"
  e_wrapNonce :: "bytes option"
  e_sealNonce :: "bytes option"
  e_objKey :: string
  e_id :: string
  e_ord :: "string list"
  e_now :: time
  e_storeNow :: time

section \<open>Helpers\<close>

definition CanonicalHash :: "bytes \<Rightarrow> string" where
  "CanonicalHash data = b64_encode (sha256 data)"

text \<open>Name \<open>n\<close> of the numbered alternatives to a colliding name.\<close>

definition numbered_name :: "string \<Rightarrow> nat \<Rightarrow> string" where
  "numbered_name name n =
     (case last_index_byte (CHR ''.'') name of
        Some i \<Rightarrow> if i > 0 then take i name @ '' ('' @ dec n @ '')'' @ drop i name
                  else name @ '' ('' @ dec n @ '')''
      | None \<Rightarrow> name @ '' ('' @ dec n @ '')'')"

lemma numbered_name_inject: "numbered_name name m = numbered_name name n \<longleftrightarrow> m = n"
  by (auto simp: numbered_name_def split: option.splits if_splits)

function next_free :: "string list \<Rightarrow> string \<Rightarrow> nat \<Rightarrow> string" where
  "next_free seen name n =
     (if numbered_name name n \<in> set seen then next_free seen name (Suc n) else numbered_name name n)"
  by pat_completeness auto
termination
proof (relation "measure (\<lambda>(seen, name, n). card {k. n \<le> k \<and> numbered_name name k \<in> set seen})", simp)
  fix seen name n
  assume used: "numbered_name name n \<in> set seen"
  let ?A = "\<lambda>n. {k. n \<le> k \<and> numbered_name name k \<in> set seen}"
  have "inj_on (numbered_name name) (?A n)" by (simp add: inj_on_def numbered_name_inject)
  moreover have "numbered_name name ` ?A n \<subseteq> set seen" by auto
  ultimately have "finite (?A n)" by (metis finite_set inj_on_finite)
  moreover have "?A (Suc n) \<subset> ?A n"
  proof (rule psubsetI)
    have "n \<in> ?A n" and "n \<notin> ?A (Suc n)" using used by simp_all
    then show "?A (Suc n) \<noteq> ?A n" by blast
  qed (auto intro: Suc_leD)
  ultimately show "((seen, name, Suc n), seen, name, n)
      \<in> measure (\<lambda>(seen, name, n). card {k. n \<le> k \<and> numbered_name name k \<in> set seen})"
    by (simp add: psubset_card_mono)
qed

declare next_free.simps [simp del]

definition uniqueObjectName :: "string list \<Rightarrow> string \<Rightarrow> nat \<Rightarrow> string \<times> string list" where
  "uniqueObjectName seen name0 index =
     (let name = (if name0 = [] then ''document-'' @ dec (index + 1) else name0);
          candidate = (if name \<in> set seen then next_free seen name 2 else name)
      in (candidate, candidate # seen))"

definition bundleFilename :: "string \<Rightarrow> string" where
  "bundleFilename first =
     (if first = [] then ''container.asice''
      else case last_index_byte (CHR ''.'') first of
        Some i \<Rightarrow> if i > 0 then take i first @ ''.asice'' else first @ ''.asice''
      | None \<Rightarrow> first @ ''.asice'')"

definition to_manifest :: "inner_file list \<Rightarrow> manifest_file list" where
  "to_manifest files = map (\<lambda>f. \<lparr>mf_Name = if_Name f, mf_MediaType = if_MediaType f, mf_Size = if_Size f\<rparr>) files"

definition manifestFiles :: "asice \<Rightarrow> bytes \<Rightarrow> manifest_file list" where
  "manifestFiles lib container = to_manifest (case Inspect lib container of None \<Rightarrow> [] | Some fs \<Rightarrow> fs)"

text \<open>Best-effort deletes: an error is ignored.\<close>

definition delete_blob :: "'b service \<Rightarrow> string \<Rightarrow> 'b world \<Rightarrow> 'b world" where
  "delete_blob sv ref w = w\<lparr>w_blob := snd (bl_Delete (sv_blob sv) ref (w_blob w))\<rparr>"

primrec delete_refs :: "'b service \<Rightarrow> purged_ref list \<Rightarrow> 'b world \<Rightarrow> 'b world" where
  "delete_refs sv [] w = w"
| "delete_refs sv (r # rs) w =
     delete_refs sv rs (if p_StorageRef r \<noteq> [] then delete_blob sv (p_StorageRef r) w else w)"

text \<open>Encrypt under a fresh data key and store: the object key and the wrapped key.\<close>

definition sealAndStore :: "'b service \<Rightarrow> env \<Rightarrow> bytes \<Rightarrow> 'b world \<Rightarrow> (string \<times> string, 'b world) res" where
  "sealAndStore sv ev data w =
     (case km_GenerateDataKey (sv_kms sv) (e_key ev) (e_wrapNonce ev) of
        Inl e \<Rightarrow> (Inl e, w)
      | Inr (plainKey, wrapped) \<Rightarrow>
          (case Seal (e_sealNonce ev) plainKey data of
             Inl e \<Rightarrow> (Inl e, w)
           | Inr sealed \<Rightarrow>
               (case bl_Put (sv_blob sv) (e_objKey ev) sealed (w_blob w) of
                  (Inl e, b) \<Rightarrow> (Inl e, w\<lparr>w_blob := b\<rparr>)
                | (Inr u, b) \<Rightarrow> (Inr (e_objKey ev, b64_encode wrapped), w\<lparr>w_blob := b\<rparr>))))"

section \<open>Ingest\<close>

record ingest_input =
  in_Owner :: string
  in_Serial :: string
  in_TenantID :: string
  in_Kind :: string
  in_ParentID :: string
  in_Filename :: string
  in_Mime :: string
  in_PreservationClass :: string
  in_Status :: string
  in_OwnerKind :: string
  in_RetentionClass :: string
  in_RetentionUntil :: "time option"
  in_Data :: bytes

definition retentionFor :: "'b service \<Rightarrow> time \<Rightarrow> ingest_input \<Rightarrow> time option" where
  "retentionFor sv now inp =
     (if in_RetentionClass inp = RetentionDurable then in_RetentionUntil inp else Some (now + sv_ttl sv))"

text \<open>A raw upload that parses as a container becomes a signed container.\<close>

definition classify :: "asice \<Rightarrow> ingest_input \<Rightarrow> ingest_input \<times> manifest_file list" where
  "classify lib inp =
     (case Inspect lib (in_Data inp) of
        None \<Rightarrow> (inp, [])
      | Some files \<Rightarrow>
          (if in_Kind inp = []
           then inp\<lparr>in_Kind := ''container'',
                    in_Status := (if in_Status inp = [] then ''signed'' else in_Status inp)\<rparr>
           else inp,
           to_manifest files))"

definition ingest_row :: "'b service \<Rightarrow> time \<Rightarrow> ingest_input \<Rightarrow> manifest_file list \<Rightarrow> string \<Rightarrow> string \<Rightarrow> insert_input" where
  "ingest_row sv now inp inner objKey keyRef =
     \<lparr>ii_Owner = in_Owner inp, ii_TenantID = in_TenantID inp, ii_Kind = in_Kind inp, ii_ParentID = in_ParentID inp,
      ii_Filename = in_Filename inp, ii_StorageRef = objKey, ii_ContentHash = CanonicalHash (in_Data inp),
      ii_Mime = (if in_Mime inp = [] then ''application/octet-stream'' else in_Mime inp),
      ii_Size = int (length (in_Data inp)), ii_Status = in_Status inp, ii_EncryptionKeyRef = keyRef,
      ii_PreservationClass = in_PreservationClass inp, ii_OwnerKind = in_OwnerKind inp,
      ii_RetentionClass = in_RetentionClass inp, ii_RetentionUntil = retentionFor sv now inp,
      ii_InnerFiles = inner\<rparr>"

definition readback_caller :: "ingest_input \<Rightarrow> caller" where
  "readback_caller inp =
     (if in_OwnerKind inp = PrincipalProduct
      then \<lparr>cl_Sub = [], cl_Serial = [], cl_Product = in_Owner inp, cl_Tenant = in_TenantID inp\<rparr>
      else \<lparr>cl_Sub = in_Owner inp, cl_Serial = in_Serial inp, cl_Product = [], cl_Tenant = []\<rparr>)"

definition svc_Ingest :: "'b service \<Rightarrow> env \<Rightarrow> ingest_input \<Rightarrow> 'b world \<Rightarrow> (document, 'b world) res" where
  "svc_Ingest sv ev inp0 w =
     (let (inp, inner) = classify (sv_asice sv) inp0 in
      case sealAndStore sv ev (in_Data inp) w of
        (Inl e, w1) \<Rightarrow> (Inl e, w1)
      | (Inr (objKey, keyRef), w1) \<Rightarrow>
          (case mem_Insert (e_ord ev) (e_id ev) (e_storeNow ev)
                  (ingest_row sv (e_now ev) inp inner objKey keyRef) (w_meta w1) of
             (Inl e, m) \<Rightarrow> (Inl e, delete_blob sv objKey (w1\<lparr>w_meta := m\<rparr>))
           | (Inr new_id, m) \<Rightarrow> (mem_Get m new_id (readback_caller inp), w1\<lparr>w_meta := m\<rparr>)))"

section \<open>Content\<close>

text \<open>On an error past the metadata read, the row is returned beside the error.\<close>

definition svc_Content ::
  "'b service \<Rightarrow> string \<Rightarrow> caller \<Rightarrow> 'b world \<Rightarrow> (err \<times> document option) + document \<times> bytes" where
  "svc_Content sv k c w =
     (case mem_Get (w_meta w) k c of
        Inl e \<Rightarrow> Inl (e, None)
      | Inr doc \<Rightarrow>
          if d_StorageRef doc = [] \<or> d_EncryptionKeyRef doc = [] then Inl (ErrGone, Some doc)
          else (case bl_Get (sv_blob sv) (d_StorageRef doc) (w_blob w) of
              Inl e \<Rightarrow> Inl (e, Some doc)
            | Inr None \<Rightarrow> Inl (ErrGone, Some doc)
            | Inr (Some sealed) \<Rightarrow>
                (case b64_decode (d_EncryptionKeyRef doc) of
                   None \<Rightarrow> Inl (ErrOther ''documents: decode key ref'', Some doc)
                 | Some wrapped \<Rightarrow>
                     (case km_Unwrap (sv_kms sv) wrapped of
                        Inl e \<Rightarrow> Inl (e, Some doc)
                      | Inr plainKey \<Rightarrow>
                          (case Open plainKey sealed of
                             Inl e \<Rightarrow> Inl (e, Some doc)
                           | Inr data \<Rightarrow> Inr (doc, data))))))"

section \<open>Bundles\<close>

definition sub_caller :: "string \<Rightarrow> caller" where
  "sub_caller owner = \<lparr>cl_Sub = owner, cl_Serial = [], cl_Product = [], cl_Tenant = []\<rparr>"

text \<open>The member loop of \<open>Bundle\<close>: read every source, check it, name it.\<close>

primrec bundle_files ::
  "'b service \<Rightarrow> string \<Rightarrow> 'b world \<Rightarrow> string list \<Rightarrow> nat \<Rightarrow> string list \<Rightarrow> err + pkg_file list" where
  "bundle_files sv owner w seen i [] = Inr []"
| "bundle_files sv owner w seen i (k # ks) =
     (case svc_Content sv k (sub_caller owner) w of
        Inl (e, doc) \<Rightarrow> Inl e
      | Inr (doc, data) \<Rightarrow>
          if d_Owner doc \<noteq> owner \<or> \<not> Bundleable (d_Kind doc) (d_Status doc) then Inl ErrNotBundleable
          else (let (name, seen') = uniqueObjectName seen (d_Filename doc) i in
                case bundle_files sv owner w seen' (Suc i) ks of
                  Inl e \<Rightarrow> Inl e
                | Inr fs \<Rightarrow> Inr (\<lparr>pf_Name = name, pf_Data = data\<rparr> # fs)))"

definition svc_Bundle ::
  "'b service \<Rightarrow> env \<Rightarrow> string \<Rightarrow> string \<Rightarrow> string list \<Rightarrow> string \<Rightarrow> 'b world \<Rightarrow> (document, 'b world) res" where
  "svc_Bundle sv ev owner tenantID sourceIDs filename0 w =
     (if length sourceIDs < 1 then (Inl ErrNotBundleable, w)
      else case bundle_files sv owner w [] 0 sourceIDs of
        Inl e \<Rightarrow> (Inl e, w)
      | Inr files \<Rightarrow>
          (let filename = (if filename0 = [] then bundleFilename (pf_Name (hd files)) else filename0) in
           case BuildUnsigned (sv_asice sv) files of
             Inl e \<Rightarrow> (Inl e, w)
           | Inr bundle \<Rightarrow>
               (case sealAndStore sv ev bundle w of
                  (Inl e, w1) \<Rightarrow> (Inl e, w1)
                | (Inr (objKey, keyRef), w1) \<Rightarrow>
                    (case mem_Bundle (e_id ev) (e_storeNow ev)
                            \<lparr>bi_Owner = owner, bi_TenantID = tenantID, bi_SourceIDs = sourceIDs,
                             bi_Filename = filename, bi_StorageRef = objKey, bi_ContentHash = CanonicalHash bundle,
                             bi_Mime = as_MimeType (sv_asice sv), bi_Size = int (length bundle),
                             bi_EncryptionKeyRef = keyRef, bi_PreservationClass = [],
                             bi_RetentionUntil = e_now ev + sv_ttl sv,
                             bi_InnerFiles = manifestFiles (sv_asice sv) bundle\<rparr> (w_meta w1) of
                       (Inl e, m) \<Rightarrow> (Inl e, delete_blob sv objKey (w1\<lparr>w_meta := m\<rparr>))
                     | (Inr (new_id, absorbed), m) \<Rightarrow>
                         (mem_Get m new_id (sub_caller owner), delete_refs sv absorbed (w1\<lparr>w_meta := m\<rparr>))))))"

record bundle_entry =
  be_Name :: string
  be_SourceID :: string

text \<open>\<open>byName\<close>: the last object of a name wins, as a map assignment in order does.\<close>

definition by_name :: "pkg_file list \<Rightarrow> string \<rightharpoonup> bytes" where
  "by_name existing = foldl (\<lambda>m f. m(pf_Name f \<mapsto> pf_Data f)) Map.empty existing"

primrec rebundle_files ::
  "'b service \<Rightarrow> string \<Rightarrow> (string \<rightharpoonup> bytes) \<Rightarrow> 'b world \<Rightarrow> string list \<Rightarrow> nat \<Rightarrow> bundle_entry list \<Rightarrow>
     err + pkg_file list \<times> string list" where
  "rebundle_files sv owner byName w seen i [] = Inr ([], [])"
| "rebundle_files sv owner byName w seen i (e # es) =
     (if be_Name e \<noteq> [] \<and> be_SourceID e = [] then
        (case byName (be_Name e) of
           None \<Rightarrow> Inl ErrNotFound
         | Some data \<Rightarrow>
             (let (name, seen') = uniqueObjectName seen (be_Name e) i in
              case rebundle_files sv owner byName w seen' (Suc i) es of
                Inl er \<Rightarrow> Inl er
              | Inr (fs, absorb) \<Rightarrow> Inr (\<lparr>pf_Name = name, pf_Data = data\<rparr> # fs, absorb)))
      else if be_SourceID e \<noteq> [] \<and> be_Name e = [] then
        (case svc_Content sv (be_SourceID e) (sub_caller owner) w of
           Inl (er, doc) \<Rightarrow> Inl er
         | Inr (doc, data) \<Rightarrow>
             if d_Owner doc \<noteq> owner \<or> \<not> Bundleable (d_Kind doc) (d_Status doc) then Inl ErrNotBundleable
             else (let (name, seen') = uniqueObjectName seen (d_Filename doc) i in
                   case rebundle_files sv owner byName w seen' (Suc i) es of
                     Inl er \<Rightarrow> Inl er
                   | Inr (fs, absorb) \<Rightarrow>
                       Inr (\<lparr>pf_Name = name, pf_Data = data\<rparr> # fs, be_SourceID e # absorb)))
      else Inl ErrNotBundleable)"

definition svc_Rebundle ::
  "'b service \<Rightarrow> env \<Rightarrow> string \<Rightarrow> string \<Rightarrow> bundle_entry list \<Rightarrow> 'b world \<Rightarrow> (document, 'b world) res" where
  "svc_Rebundle sv ev owner k entries w =
     (if length entries < 1 then (Inl ErrNotBundleable, w)
      else case svc_Content sv k (sub_caller owner) w of
        Inl (e, doc) \<Rightarrow> (Inl e, w)
      | Inr (cur, curBytes) \<Rightarrow>
          if d_Owner cur \<noteq> owner \<or> d_Kind cur \<noteq> ''container'' \<or> d_Status cur \<noteq> ''received''
          then (Inl ErrNotBundleable, w)
          else (case DataObjects (sv_asice sv) curBytes of
              Inl e \<Rightarrow> (Inl e, w)
            | Inr existing \<Rightarrow>
                (case rebundle_files sv owner (by_name existing) w [] 0 entries of
                   Inl e \<Rightarrow> (Inl e, w)
                 | Inr (files, absorb) \<Rightarrow>
                     (case BuildUnsigned (sv_asice sv) files of
                        Inl e \<Rightarrow> (Inl e, w)
                      | Inr bundle \<Rightarrow>
                          (case sealAndStore sv ev bundle w of
                             (Inl e, w1) \<Rightarrow> (Inl e, w1)
                           | (Inr (objKey, keyRef), w1) \<Rightarrow>
                               (case mem_Rebundle (e_storeNow ev)
                                       \<lparr>rb_Owner = owner, rb_ID = k, rb_ExpectedHash = d_ContentHash cur,
                                        rb_StorageRef = objKey, rb_ContentHash = CanonicalHash bundle,
                                        rb_Size = int (length bundle), rb_EncryptionKeyRef = keyRef,
                                        rb_InnerFiles = manifestFiles (sv_asice sv) bundle,
                                        rb_AbsorbSourceIDs = absorb\<rparr> (w_meta w1) of
                                  (Inl e, m) \<Rightarrow> (Inl e, delete_blob sv objKey (w1\<lparr>w_meta := m\<rparr>))
                                | (Inr (doc, old, absorbed), m) \<Rightarrow>
                                    (Inr doc, delete_refs sv (old # absorbed) (w1\<lparr>w_meta := m\<rparr>))))))))"

section \<open>Replacing a signed head\<close>

definition svc_replaceContainer ::
  "'b service \<Rightarrow> env \<Rightarrow> string \<Rightarrow> string \<Rightarrow> bytes \<Rightarrow> string \<Rightarrow> 'b world \<Rightarrow> (document, 'b world) res" where
  "svc_replaceContainer sv ev containerID expectedHash newBytes preservationClass w =
     (case sealAndStore sv ev newBytes w of
        (Inl e, w1) \<Rightarrow> (Inl e, w1)
      | (Inr (objKey, keyRef), w1) \<Rightarrow>
          (case mem_ReplaceContainerBlob (e_storeNow ev)
                  \<lparr>ri_ID = containerID, ri_ExpectedHash = expectedHash, ri_StorageRef = objKey,
                   ri_ContentHash = CanonicalHash newBytes, ri_Size = int (length newBytes),
                   ri_EncryptionKeyRef = keyRef, ri_PreservationClass = preservationClass\<rparr> (w_meta w1) of
             (Inl e, m) \<Rightarrow> (Inl e, delete_blob sv objKey (w1\<lparr>w_meta := m\<rparr>))
           | (Inr (doc, old), m) \<Rightarrow> (Inr doc, delete_refs sv [old] (w1\<lparr>w_meta := m\<rparr>))))"

definition svc_ReplaceContainer ::
  "'b service \<Rightarrow> env \<Rightarrow> string \<Rightarrow> string \<Rightarrow> bytes \<Rightarrow> 'b world \<Rightarrow> (document, 'b world) res" where
  "svc_ReplaceContainer sv ev containerID expectedHash newBytes w =
     svc_replaceContainer sv ev containerID expectedHash newBytes [] w"

definition svc_ReplaceContainerArchived ::
  "'b service \<Rightarrow> env \<Rightarrow> string \<Rightarrow> string \<Rightarrow> bytes \<Rightarrow> 'b world \<Rightarrow> (document, 'b world) res" where
  "svc_ReplaceContainerArchived sv ev containerID expectedHash archived w =
     svc_replaceContainer sv ev containerID expectedHash archived ''preservation'' w"

section \<open>Delete, sweep, and the calls that pass through\<close>

text \<open>The visiting orders and the clock are those of the store's loops.\<close>

definition svc_Delete ::
  "'b service \<Rightarrow> string list \<Rightarrow> string list \<Rightarrow> (string \<Rightarrow> time) \<Rightarrow> string \<Rightarrow> caller \<Rightarrow> 'b world \<Rightarrow>
     (document, 'b world) res" where
  "svc_Delete sv ord1 ord2 clk k c w =
     (case mem_Get (w_meta w) k c of
        Inl e \<Rightarrow> (Inl e, w)
      | Inr doc \<Rightarrow>
          (case mem_RemoveAccess ord1 ord2 clk k c (w_meta w) of
             (Inl e, m) \<Rightarrow> (Inl e, w\<lparr>w_meta := m\<rparr>)
           | (Inr purged, m) \<Rightarrow> (Inr doc, delete_refs sv purged (w\<lparr>w_meta := m\<rparr>))))"

definition svc_Sweep ::
  "'b service \<Rightarrow> string list \<Rightarrow> (string \<Rightarrow> time) \<Rightarrow> time \<Rightarrow> int \<Rightarrow> 'b world \<Rightarrow> (int, 'b world) res" where
  "svc_Sweep sv ord clk now limit w =
     (case mem_SweepRetention ord clk now limit (w_meta w) of
        (Inl e, m) \<Rightarrow> (Inl e, w\<lparr>w_meta := m\<rparr>)
      | (Inr refs, m) \<Rightarrow> (Inr (int (length refs)), delete_refs sv refs (w\<lparr>w_meta := m\<rparr>)))"

definition on_meta :: "(memory \<Rightarrow> ('a, memory) res) \<Rightarrow> 'b world \<Rightarrow> ('a, 'b world) res" where
  "on_meta f w = (case f (w_meta w) of (r, m) \<Rightarrow> (r, w\<lparr>w_meta := m\<rparr>))"

definition svc_Grant :: "grant_input \<Rightarrow> 'b world \<Rightarrow> (unit, 'b world) res" where
  "svc_Grant inp = on_meta (mem_Grant inp)"

definition svc_SweepHistory :: "string list \<Rightarrow> string list \<Rightarrow> time \<Rightarrow> int \<Rightarrow> 'b world \<Rightarrow> (int, 'b world) res" where
  "svc_SweepHistory ord1 ord2 before limit = on_meta (mem_SweepHistory ord1 ord2 before limit)"

definition svc_DeleteHistoryChain :: "string list \<Rightarrow> string list \<Rightarrow> string \<Rightarrow> string \<Rightarrow> 'b world \<Rightarrow> (unit, 'b world) res" where
  "svc_DeleteHistoryChain ord1 ord2 owner root = on_meta (mem_DeleteHistoryChain ord1 ord2 owner root)"

definition svc_ExtendRetention :: "'b service \<Rightarrow> time \<Rightarrow> time \<Rightarrow> string \<Rightarrow> string \<Rightarrow> 'b world \<Rightarrow> (unit, 'b world) res" where
  "svc_ExtendRetention sv now storeNow k owner = on_meta (mem_ExtendRetention storeNow k owner (now + sv_ttl sv))"

definition svc_SetResultFreeze :: "time \<Rightarrow> string \<Rightarrow> bool \<Rightarrow> 'b world \<Rightarrow> (unit, 'b world) res" where
  "svc_SetResultFreeze now k frozen = on_meta (mem_SetResultFreeze now k frozen)"

definition svc_Get :: "string \<Rightarrow> caller \<Rightarrow> 'b world \<Rightarrow> err + document" where
  "svc_Get k c w = mem_Get (w_meta w) k c"

definition svc_GetContainerByParent :: "string list \<Rightarrow> string \<Rightarrow> caller \<Rightarrow> 'b world \<Rightarrow> err + document" where
  "svc_GetContainerByParent ord parent c w = mem_GetContainerByParent ord (w_meta w) parent c"

definition svc_GetLatestSignedPdfByChain :: "string list \<Rightarrow> string \<Rightarrow> caller \<Rightarrow> 'b world \<Rightarrow> err + document" where
  "svc_GetLatestSignedPdfByChain ord parent c w = mem_GetLatestSignedPdfByChain ord (w_meta w) parent c"

definition svc_List :: "string list \<Rightarrow> caller \<Rightarrow> int \<Rightarrow> string \<Rightarrow> 'b world \<Rightarrow> document list" where
  "svc_List ord c limit after w = mem_List ord (w_meta w) c limit after"

definition svc_ListChains :: "string list \<Rightarrow> string list \<Rightarrow> caller \<Rightarrow> int \<Rightarrow> string \<Rightarrow> bool \<Rightarrow> 'b world \<Rightarrow> chain list" where
  "svc_ListChains ord ord2 c limit after incl w = mem_ListChains ord ord2 (w_meta w) c limit after incl"

definition svc_GetChain :: "string list \<Rightarrow> caller \<Rightarrow> string \<Rightarrow> 'b world \<Rightarrow> err + chain" where
  "svc_GetChain ord c k w = mem_GetChain ord (w_meta w) c k"

definition svc_ListHistory :: "string list \<Rightarrow> string list \<Rightarrow> string \<Rightarrow> int \<Rightarrow> string \<Rightarrow> 'b world \<Rightarrow> history_chain list" where
  "svc_ListHistory ord ord2 owner limit after w = mem_ListHistory ord ord2 (w_meta w) owner limit after"

definition svc_ChainRetention :: "string list \<Rightarrow> string \<Rightarrow> 'b world \<Rightarrow> err + time \<times> int" where
  "svc_ChainRetention ord k w = mem_ChainRetention ord (w_meta w) k"

end
