(* ===== verification/ServiceInv.thy ===== *)
theory ServiceInv
  imports StoreMoves DocService
begin

text \<open>
  The service over any KMS and any blob store that meet their contracts, failing calls included:
  every row that still points at bytes can be decrypted with the key reference stored beside it,
  to bytes whose canonical hash and length are the ones on the row.  Proved once for the
  contracts, then interpreted on the in-process KMS and blob store.
\<close>

section \<open>Intact rows\<close>

definition opens_to :: "('b \<Rightarrow> string \<rightharpoonup> bytes) \<Rightarrow> 'b service \<Rightarrow> 'b \<Rightarrow> string \<Rightarrow> string \<Rightarrow> bytes \<Rightarrow> bool" where
  "opens_to content sv b ref keyRef data \<longleftrightarrow>
     keyRef \<noteq> [] \<and>
     (\<exists>sealed wrapped key. content b ref = Some sealed \<and> b64_decode keyRef = Some wrapped \<and>
        km_Unwrap (sv_kms sv) wrapped = Inr key \<and> Open key sealed = Inr data)"

definition row_intact :: "('b \<Rightarrow> string \<rightharpoonup> bytes) \<Rightarrow> 'b service \<Rightarrow> 'b \<Rightarrow> document \<Rightarrow> bool" where
  "row_intact content sv b d \<longleftrightarrow>
     d_StorageRef d \<noteq> [] \<longrightarrow>
     (\<exists>data. opens_to content sv b (d_StorageRef d) (d_EncryptionKeyRef d) data \<and>
        CanonicalHash data = d_ContentHash d \<and> int (length data) = d_Size d)"

definition intact :: "('b \<Rightarrow> string \<rightharpoonup> bytes) \<Rightarrow> 'b service \<Rightarrow> 'b world \<Rightarrow> bool" where
  "intact content sv w \<longleftrightarrow>
     wf_mem (w_meta w) \<and> refs_distinct (w_meta w) \<and>
     (\<forall>d \<in> ran (rows (w_meta w)). row_intact content sv (w_blob w) d)"

text \<open>What the run time guarantees of a storing call: buffers filled, identifiers never used before.\<close>

definition env_ok :: "env \<Rightarrow> memory \<Rightarrow> bool" where
  "env_ok ev m \<longleftrightarrow>
     rand_ok dataKeyLen (e_key ev) \<and> rand_ok NonceSize (e_wrapNonce ev) \<and> rand_ok NonceSize (e_sealNonce ev) \<and>
     e_objKey ev \<noteq> [] \<and> unref (e_objKey ev) m \<and> fresh_id (e_id ev) m \<and> visits (e_ord ev) (rows m)"

lemma row_intact_same: "same_bytes d d' \<Longrightarrow> row_intact content sv b d \<Longrightarrow> row_intact content sv b d'"
  by (simp add: row_intact_def same_bytes_def)

lemma row_intact_frame:
  "content b' (d_StorageRef d) = content b (d_StorageRef d) \<Longrightarrow> row_intact content sv b d \<Longrightarrow> row_intact content sv b' d"
  by (simp add: row_intact_def opens_to_def)

text \<open>Blobs no row points at may come and go.\<close>

lemma intact_blob_frame:
  assumes "intact content sv w" and "\<And>r. \<not> unref r (w_meta w) \<Longrightarrow> content b' r = content (w_blob w) r"
  shows "intact content sv (w\<lparr>w_blob := b'\<rparr>)"
  using assms by (auto simp: intact_def unref_def intro: row_intact_frame)

text \<open>The metadata may change as the store's operations change it.\<close>

lemma intact_moves:
  assumes "intact content sv w" and "moves new (w_meta w) m'" and "wf_mem m'"
    and "\<And>n. new = Some n \<Longrightarrow> unref (nb_ref n) (w_meta w) \<and>
           (\<exists>data. opens_to content sv (w_blob w) (nb_ref n) (nb_key n) data \<and>
              CanonicalHash data = nb_hash n \<and> int (length data) = nb_size n)"
  shows "intact content sv (w\<lparr>w_meta := m'\<rparr>)"
proof -
  have "refs_distinct (w_meta w)" using assms(1) by (simp add: intact_def)
  then have "refs_distinct m'" using assms(2) by (rule refs_distinct_moves) (use assms(4) in blast)
  moreover have "row_intact content sv (w_blob w) d'" if d': "d' \<in> ran (rows m')" for d'
  proof -
    from d' obtain k where k: "rows m' k = Some d'" by (auto simp: ran_def)
    consider "d_StorageRef d' = []" | d where "rows (w_meta w) k = Some d" "same_bytes d d'"
      | n where "new = Some n" "holds_new n k d'"
      using assms(2) k unfolding moves_def by metis
    then show ?thesis
    proof cases
      case 1
      then show ?thesis by (simp add: row_intact_def)
    next
      case 2
      with assms(1) have "row_intact content sv (w_blob w) d" by (auto simp: intact_def intro: ranI)
      with 2(2) show ?thesis by (rule row_intact_same)
    next
      case 3
      with assms(4) show ?thesis by (simp add: holds_new_def row_intact_def)
    qed
  qed
  ultimately show ?thesis using assms(3) by (simp add: intact_def)
qed

text \<open>A rebundle that gets as far as storing has passed every check before it.\<close>

lemma rebundle_prepared:
  assumes "\<nexists>e. svc_Rebundle sv ev owner k entries w = (Inl e, w)"
  obtains cur curBytes existing files absorb data where
    "\<not> length entries < 1" and "svc_Content sv k (sub_caller owner) w = Inr (cur, curBytes)"
    and "\<not> (d_Owner cur \<noteq> owner \<or> d_Kind cur \<noteq> ''container'' \<or> d_Status cur \<noteq> ''received'')"
    and "DataObjects (sv_asice sv) curBytes = Inr existing"
    and "rebundle_files sv owner (by_name existing) w [] 0 entries = Inr (files, absorb)"
    and "BuildUnsigned (sv_asice sv) files = Inr data"
proof -
  have len: "\<not> length entries < 1" using assms by (auto simp: svc_Rebundle_def)
  obtain cur curBytes where c: "svc_Content sv k (sub_caller owner) w = Inr (cur, curBytes)"
    using assms len by (cases "svc_Content sv k (sub_caller owner) w") (auto simp: svc_Rebundle_def)
  have bad: "\<not> (d_Owner cur \<noteq> owner \<or> d_Kind cur \<noteq> ''container'' \<or> d_Status cur \<noteq> ''received'')"
  proof
    assume "d_Owner cur \<noteq> owner \<or> d_Kind cur \<noteq> ''container'' \<or> d_Status cur \<noteq> ''received''"
    then have "svc_Rebundle sv ev owner k entries w = (Inl ErrNotBundleable, w)"
      unfolding svc_Rebundle_def if_not_P [OF len] c by simp
    with assms show False by blast
  qed
  obtain existing where ex: "DataObjects (sv_asice sv) curBytes = Inr existing"
    using assms len c bad by (cases "DataObjects (sv_asice sv) curBytes") (auto simp: svc_Rebundle_def)
  obtain files absorb where fs: "rebundle_files sv owner (by_name existing) w [] 0 entries = Inr (files, absorb)"
    using assms len c bad ex
    by (cases "rebundle_files sv owner (by_name existing) w [] 0 entries") (auto simp: svc_Rebundle_def)
  obtain data where "BuildUnsigned (sv_asice sv) files = Inr data"
    using assms len c bad ex fs
    by (cases "BuildUnsigned (sv_asice sv) files") (auto simp: svc_Rebundle_def)
  with len c bad ex fs that show ?thesis by blast
qed

text \<open>Deleting objects leaves the metadata alone.\<close>

lemma w_meta_delete_blob [simp]: "w_meta (delete_blob sv r w) = w_meta w"
  by (simp add: delete_blob_def)

lemma w_meta_delete_refs [simp]: "w_meta (delete_refs sv rs w) = w_meta w"
  by (induction rs arbitrary: w) simp_all

section \<open>The service over its contracts\<close>

locale document_service = blob_contract B content + kms_contract K
  for B :: "'b blob_iface" and content :: "'b \<Rightarrow> string \<rightharpoonup> bytes" and K :: kms_iface +
  fixes sv :: "'b service"
  assumes sv_blob: "sv_blob sv = B" and sv_kms: "sv_kms sv = K"
begin

lemma intact_delete_blob:
  assumes "intact content sv w" and "unref r (w_meta w)"
  shows "intact content sv (delete_blob sv r w)"
  unfolding delete_blob_def
proof (rule intact_blob_frame [OF assms(1)])
  fix l assume "\<not> unref l (w_meta w)"
  with assms(2) have "l \<noteq> r" by auto
  then show "content (snd (bl_Delete (sv_blob sv) r (w_blob w))) l = content (w_blob w) l"
    using delete_frame [of r "w_blob w"] unfolding sv_blob by (metis prod.collapse)
qed

lemma intact_delete_refs:
  "intact content sv w \<Longrightarrow> frees rs (w_meta w) \<Longrightarrow> intact content sv (delete_refs sv rs w)"
proof (induction rs arbitrary: w)
  case (Cons r rs)
  then have "intact content sv (if p_StorageRef r \<noteq> [] then delete_blob sv (p_StorageRef r) w else w)"
    and "frees rs (w_meta w)" by (auto simp: frees_def intro: intact_delete_blob)
  with Cons.IH show ?case by (simp add: delete_blob_def)
qed simp

text \<open>Storing under a fresh key disturbs no row, and what was stored opens to what was given.\<close>

lemma sealAndStore_cases:
  assumes "sealAndStore sv ev data w = (r, w1)" and "intact content sv w" and "env_ok ev (w_meta w)"
  shows "intact content sv w1 \<and> w_meta w1 = w_meta w \<and>
    (\<forall>objKey keyRef. r = Inr (objKey, keyRef) \<longrightarrow>
       objKey = e_objKey ev \<and> opens_to content sv (w_blob w1) objKey keyRef data)"
proof (cases "km_GenerateDataKey (sv_kms sv) (e_key ev) (e_wrapNonce ev)")
  case (Inl e)
  with assms show ?thesis by (auto simp: sealAndStore_def)
next
  case (Inr x)
  obtain p wr where x: "x = (p, wr)" by fastforce
  show ?thesis
  proof (cases "Seal (e_sealNonce ev) p data")
    case (Inl e)
    with Inr x assms show ?thesis by (auto simp: sealAndStore_def)
  next
    case sealed: (Inr sealed)
    obtain pr b where put: "bl_Put (sv_blob sv) (e_objKey ev) sealed (w_blob w) = (pr, b)" by fastforce
    have w1: "w1 = w\<lparr>w_blob := b\<rparr>"
      using assms(1) Inr x sealed put by (auto simp: sealAndStore_def split: sum.splits)
    have "intact content sv w1" unfolding w1
    proof (rule intact_blob_frame [OF assms(2)])
      fix l assume "\<not> unref l (w_meta w)"
      with assms(3) have "l \<noteq> e_objKey ev" by (auto simp: env_ok_def)
      then show "content b l = content (w_blob w) l"
        using put_frame [of "e_objKey ev" sealed "w_blob w" pr b l] put unfolding sv_blob by blast
    qed
    moreover have "opens_to content sv (w_blob w1) objKey keyRef data \<and> objKey = e_objKey ev"
      if r: "r = Inr (objKey, keyRef)" for objKey keyRef
    proof -
      from r assms(1) Inr x sealed put obtain u where "pr = Inr u" "objKey = e_objKey ev" "keyRef = b64_encode wr"
        by (auto simp: sealAndStore_def split: sum.splits)
      moreover have "wr \<noteq> []" "km_Unwrap K wr = Inr p" "Open p sealed = Inr data"
        using assms(3) Inr x sealed wrapped_nonempty unwrap_generated Open_Seal
        unfolding env_ok_def sv_kms by blast+
      moreover have "content b (e_objKey ev) = Some sealed"
        using put_done put calculation(1) unfolding sv_blob by blast
      ultimately show ?thesis unfolding w1 opens_to_def sv_kms by auto
    qed
    ultimately show ?thesis using w1 by auto
  qed
qed

text \<open>The common end of the storing calls: write the row, then release what it superseded.\<close>

lemma intact_stored:
  assumes "intact content sv w1" and "unref (e_objKey ev) (w_meta w1)"
    and "opens_to content sv (w_blob w1) (e_objKey ev) keyRef data"
    and "moves (Some \<lparr>nb_row = k, nb_ref = e_objKey ev, nb_key = keyRef, nb_hash = CanonicalHash data,
           nb_size = int (length data)\<rparr>) (w_meta w1) m" and "wf_mem m"
  shows "intact content sv (w1\<lparr>w_meta := m\<rparr>)"
  using assms by (intro intact_moves [OF assms(1,4,5)]) auto

lemma intact_rolled_back:
  assumes "intact content sv w1" and "unref (e_objKey ev) (w_meta w1)"
  shows "intact content sv (delete_blob sv (e_objKey ev) (w1\<lparr>w_meta := w_meta w1\<rparr>))"
  using assms by (intro intact_delete_blob) simp_all

lemma intact_Ingest:
  assumes "intact content sv w" and "env_ok ev (w_meta w)" and "in_ParentID inp0 \<noteq> e_id ev"
  shows "intact content sv (snd (svc_Ingest sv ev inp0 w))"
proof -
  obtain inp inner where cl: "classify (sv_asice sv) inp0 = (inp, inner)" by fastforce
  then have parent: "in_ParentID inp = in_ParentID inp0"
    by (auto simp: classify_def split: option.splits)
  obtain r w1 where st: "sealAndStore sv ev (in_Data inp) w = (r, w1)" by fastforce
  note w1 = sealAndStore_cases [OF st assms(1,2)]
  show ?thesis
  proof (cases r)
    case (Inl e)
    with cl st w1 show ?thesis by (simp add: svc_Ingest_def)
  next
    case (Inr x)
    obtain objKey keyRef where x: "x = (objKey, keyRef)" by fastforce
    with w1 Inr have obj: "objKey = e_objKey ev" and op: "opens_to content sv (w_blob w1) (e_objKey ev) keyRef (in_Data inp)"
      and meta: "w_meta w1 = w_meta w" and int: "intact content sv w1" by auto
    let ?row = "ingest_row sv (e_now ev) inp inner (e_objKey ev) keyRef"
    obtain ir m where ins: "mem_Insert (e_ord ev) (e_id ev) (e_storeNow ev) ?row (w_meta w1) = (ir, m)" by fastforce
    have free: "unref (e_objKey ev) (w_meta w1)" using assms(2) meta by (simp add: env_ok_def)
    show ?thesis
    proof (cases ir)
      case fail: (Inl e)
      with ins have "m = w_meta w1" by (elim Insert_cases) auto
      with intact_rolled_back [OF int free] cl st Inr x ins fail obj show ?thesis by (simp add: svc_Ingest_def)
    next
      case ok: (Inr new_id)
      have "wf_mem m"
        using wf_exec [of "w_meta w1" "OpInsert (e_ord ev) (e_id ev) (e_storeNow ev) ?row"] int assms(2,3) ins meta parent
        by (simp add: intact_def env_ok_def revives_def ingest_row_def)
      moreover have "moves (Some \<lparr>nb_row = e_id ev, nb_ref = e_objKey ev, nb_key = keyRef,
          nb_hash = CanonicalHash (in_Data inp), nb_size = int (length (in_Data inp))\<rparr>) (w_meta w1) m"
        using moves_Insert [OF ins] by (simp add: ingest_row_def)
      ultimately have "intact content sv (w1\<lparr>w_meta := m\<rparr>)" using intact_stored [OF int free op] by blast
      with cl st Inr x ins ok obj show ?thesis by (simp add: svc_Ingest_def)
    qed
  qed
qed

lemma intact_replaceContainer:
  assumes "intact content sv w" and "env_ok ev (w_meta w)"
  shows "intact content sv (snd (svc_replaceContainer sv ev k h data pc w))"
proof -
  obtain r w1 where st: "sealAndStore sv ev data w = (r, w1)" by fastforce
  note w1 = sealAndStore_cases [OF st assms]
  show ?thesis
  proof (cases r)
    case (Inl e)
    with st w1 show ?thesis by (simp add: svc_replaceContainer_def)
  next
    case (Inr x)
    obtain objKey keyRef where x: "x = (objKey, keyRef)" by fastforce
    with w1 Inr have obj: "objKey = e_objKey ev" and op: "opens_to content sv (w_blob w1) (e_objKey ev) keyRef data"
      and meta: "w_meta w1 = w_meta w" and int: "intact content sv w1" by auto
    let ?inp = "\<lparr>ri_ID = k, ri_ExpectedHash = h, ri_StorageRef = e_objKey ev, ri_ContentHash = CanonicalHash data,
        ri_Size = int (length data), ri_EncryptionKeyRef = keyRef, ri_PreservationClass = pc\<rparr>"
    obtain ir m where rep: "mem_ReplaceContainerBlob (e_storeNow ev) ?inp (w_meta w1) = (ir, m)" by fastforce
    have free: "unref (e_objKey ev) (w_meta w1)" using assms(2) meta by (simp add: env_ok_def)
    have wf: "wf_mem (w_meta w1)" "refs_distinct (w_meta w1)" using int by (simp_all add: intact_def)
    show ?thesis
    proof (cases ir)
      case fail: (Inl e)
      with rep wf(1) have "m = w_meta w1" by (elim Replace_cases) auto
      with intact_rolled_back [OF int free] st Inr x rep fail obj show ?thesis by (simp add: svc_replaceContainer_def)
    next
      case ok: (Inr y)
      obtain doc old where y: "y = (doc, old)" by fastforce
      have "wf_mem m"
        using wf_exec [of "w_meta w1" "OpReplace (e_storeNow ev) ?inp"] wf(1) rep by (simp add: revives_def)
      then have "intact content sv (w1\<lparr>w_meta := m\<rparr>)"
        using intact_stored [OF int free op] moves_Replace [OF wf(1) rep] by simp
      moreover have "frees [old] m" using frees_Replace [OF wf, of ?inp] free rep ok y by simp
      ultimately have "intact content sv (delete_refs sv [old] (w1\<lparr>w_meta := m\<rparr>))"
        by (intro intact_delete_refs) simp_all
      with st Inr x rep ok y obj show ?thesis by (simp add: svc_replaceContainer_def)
    qed
  qed
qed

lemma intact_Bundle:
  assumes "intact content sv w" and "env_ok ev (w_meta w)"
  shows "intact content sv (snd (svc_Bundle sv ev owner tenant ids filename0 w))"
proof (cases "length ids < 1 \<or> (\<exists>e. bundle_files sv owner w [] 0 ids = Inl e)")
  case True
  with assms(1) show ?thesis by (auto simp: svc_Bundle_def)
next
  case False
  then obtain files where files: "bundle_files sv owner w [] 0 ids = Inr files"
    by (cases "bundle_files sv owner w [] 0 ids") auto
  show ?thesis
  proof (cases "BuildUnsigned (sv_asice sv) files")
    case (Inl e)
    with False files assms(1) show ?thesis by (simp add: svc_Bundle_def Let_def)
  next
    case built: (Inr data)
    obtain r w1 where st: "sealAndStore sv ev data w = (r, w1)" by fastforce
    note w1 = sealAndStore_cases [OF st assms]
    show ?thesis
    proof (cases r)
      case (Inl e)
      with False files built st w1 show ?thesis by (simp add: svc_Bundle_def Let_def)
    next
      case (Inr x)
      obtain objKey keyRef where x: "x = (objKey, keyRef)" by fastforce
      with w1 Inr have obj: "objKey = e_objKey ev" and op: "opens_to content sv (w_blob w1) (e_objKey ev) keyRef data"
        and meta: "w_meta w1 = w_meta w" and int: "intact content sv w1" by auto
      let ?inp = "\<lparr>bi_Owner = owner, bi_TenantID = tenant, bi_SourceIDs = ids,
          bi_Filename = (if filename0 = [] then bundleFilename (pf_Name (hd files)) else filename0),
          bi_StorageRef = e_objKey ev, bi_ContentHash = CanonicalHash data,
          bi_Mime = as_MimeType (sv_asice sv), bi_Size = int (length data),
          bi_EncryptionKeyRef = keyRef, bi_PreservationClass = [],
          bi_RetentionUntil = e_now ev + sv_ttl sv, bi_InnerFiles = manifestFiles (sv_asice sv) data\<rparr>"
      obtain ir m where bun: "mem_Bundle (e_id ev) (e_storeNow ev) ?inp (w_meta w1) = (ir, m)" by fastforce
      have free: "unref (e_objKey ev) (w_meta w1)" using assms(2) meta by (simp add: env_ok_def)
      have wf: "wf_mem (w_meta w1)" "refs_distinct (w_meta w1)" using int by (simp_all add: intact_def)
      show ?thesis
      proof (cases ir)
        case fail: (Inl e)
        with bun have "m = w_meta w1" by (elim Bundle_cases) auto
        with intact_rolled_back [OF int free] False files built st Inr x bun fail obj show ?thesis
          by (simp add: svc_Bundle_def Let_def)
      next
        case ok: (Inr y)
        obtain new_id absorbed where y: "y = (new_id, absorbed)" by fastforce
        have "wf_mem m"
          using wf_exec [of "w_meta w1" "OpBundle (e_id ev) (e_storeNow ev) ?inp"] wf(1) bun assms(2) meta
          by (simp add: revives_def env_ok_def)
        then have "intact content sv (w1\<lparr>w_meta := m\<rparr>)"
          using intact_stored [OF int free op] moves_Bundle [OF bun] by simp
        moreover have "frees absorbed m" using frees_Bundle [OF wf, of ?inp] free bun ok y by simp
        ultimately have "intact content sv (delete_refs sv absorbed (w1\<lparr>w_meta := m\<rparr>))"
          by (intro intact_delete_refs) simp_all
        with False files built st Inr x bun ok y obj show ?thesis by (simp add: svc_Bundle_def Let_def)
      qed
    qed
  qed
qed

lemma intact_Rebundle:
  assumes "intact content sv w" and "env_ok ev (w_meta w)"
  shows "intact content sv (snd (svc_Rebundle sv ev owner k entries w))"
proof (cases "\<exists>e. svc_Rebundle sv ev owner k entries w = (Inl e, w)")
  case True
  with assms(1) show ?thesis by auto
next
  case False
  from False obtain cur curBytes existing files absorb data where
      pre: "\<not> length entries < 1" "svc_Content sv k (sub_caller owner) w = Inr (cur, curBytes)"
        "\<not> (d_Owner cur \<noteq> owner \<or> d_Kind cur \<noteq> ''container'' \<or> d_Status cur \<noteq> ''received'')"
        "DataObjects (sv_asice sv) curBytes = Inr existing"
        "rebundle_files sv owner (by_name existing) w [] 0 entries = Inr (files, absorb)"
        "BuildUnsigned (sv_asice sv) files = Inr data"
    by (rule rebundle_prepared)
  obtain r w1 where st: "sealAndStore sv ev data w = (r, w1)" by fastforce
  note w1 = sealAndStore_cases [OF st assms]
  show ?thesis
  proof (cases r)
    case (Inl e)
    with pre st w1 show ?thesis by (simp add: svc_Rebundle_def)
  next
    case (Inr x)
    obtain objKey keyRef where x: "x = (objKey, keyRef)" by fastforce
    with w1 Inr have obj: "objKey = e_objKey ev" and op: "opens_to content sv (w_blob w1) (e_objKey ev) keyRef data"
      and meta: "w_meta w1 = w_meta w" and int: "intact content sv w1" by auto
    let ?inp = "\<lparr>rb_Owner = owner, rb_ID = k, rb_ExpectedHash = d_ContentHash cur,
        rb_StorageRef = e_objKey ev, rb_ContentHash = CanonicalHash data, rb_Size = int (length data),
        rb_EncryptionKeyRef = keyRef, rb_InnerFiles = manifestFiles (sv_asice sv) data, rb_AbsorbSourceIDs = absorb\<rparr>"
    obtain ir m where reb: "mem_Rebundle (e_storeNow ev) ?inp (w_meta w1) = (ir, m)" by fastforce
    have free: "unref (e_objKey ev) (w_meta w1)" using assms(2) meta by (simp add: env_ok_def)
    have wf: "wf_mem (w_meta w1)" "refs_distinct (w_meta w1)" using int by (simp_all add: intact_def)
    show ?thesis
    proof (cases ir)
      case fail: (Inl e)
      with reb have "m = w_meta w1" by (elim mem_Rebundle_cases) auto
      with intact_rolled_back [OF int free] pre st Inr x reb fail obj show ?thesis by (simp add: svc_Rebundle_def)
    next
      case ok: (Inr y)
      obtain doc old absorbed where y: "y = (doc, old, absorbed)" by (cases y) auto
      have "wf_mem m"
        using wf_exec [of "w_meta w1" "OpRebundle (e_storeNow ev) ?inp"] wf(1) reb by (simp add: revives_def)
      then have "intact content sv (w1\<lparr>w_meta := m\<rparr>)"
        using intact_stored [OF int free op] moves_Rebundle [OF wf(1) reb] by simp
      moreover have "frees (old # absorbed) m" using frees_Rebundle [OF wf, of ?inp] free reb ok y by simp
      ultimately have "intact content sv (delete_refs sv (old # absorbed) (w1\<lparr>w_meta := m\<rparr>))"
        by (intro intact_delete_refs) simp_all
      with pre st Inr x reb ok y obj show ?thesis by (simp add: svc_Rebundle_def)
    qed
  qed
qed

lemma intact_quiet:
  assumes "intact content sv w" and "moves None (w_meta w) m" and "wf_mem m"
  shows "intact content sv (w\<lparr>w_meta := m\<rparr>)"
  by (rule intact_moves [OF assms]) simp

lemma intact_Delete:
  assumes "intact content sv w" and "visits ord1 (rows (w_meta w))" and "visits ord2 (rows (w_meta w))"
  shows "intact content sv (snd (svc_Delete sv ord1 ord2 clk k c w))"
proof (cases "mem_Get (w_meta w) k c")
  case (Inl e)
  with assms(1) show ?thesis by (simp add: svc_Delete_def)
next
  case (Inr doc)
  obtain r m where rm: "mem_RemoveAccess ord1 ord2 clk k c (w_meta w) = (r, m)" by fastforce
  have wf: "wf_mem (w_meta w)" "refs_distinct (w_meta w)" using assms(1) by (simp_all add: intact_def)
  have "wf_mem m"
    using wf_exec [of "w_meta w" "OpRemoveAccess ord1 ord2 clk k c"] wf(1) rm assms(2,3) by (simp add: revives_def)
  with RemoveAccess_moves [OF wf(1) assms(2,3) wf(2) rm] have int: "intact content sv (w\<lparr>w_meta := m\<rparr>)"
    and fr: "\<forall>refs. r = Inr refs \<longrightarrow> frees refs m" using intact_quiet [OF assms(1)] by blast+
  show ?thesis
  proof (cases r)
    case fail: (Inl e)
    with int Inr rm show ?thesis by (simp add: svc_Delete_def)
  next
    case ok: (Inr refs)
    with int fr have "intact content sv (delete_refs sv refs (w\<lparr>w_meta := m\<rparr>))"
      by (intro intact_delete_refs) simp_all
    with ok Inr rm show ?thesis by (simp add: svc_Delete_def)
  qed
qed

lemma intact_Sweep:
  assumes "intact content sv w" and "visits ord (rows (w_meta w))"
  shows "intact content sv (snd (svc_Sweep sv ord clk now limit w))"
proof -
  obtain r m where sw: "mem_SweepRetention ord clk now limit (w_meta w) = (r, m)" by fastforce
  have wf: "wf_mem (w_meta w)" "refs_distinct (w_meta w)" using assms(1) by (simp_all add: intact_def)
  have "wf_mem m"
    using wf_exec [of "w_meta w" "OpSweepRetention ord clk now limit"] wf(1) sw assms(2) by (simp add: revives_def)
  with SweepRetention_moves [OF wf(1) assms(2) wf(2) sw] have int: "intact content sv (w\<lparr>w_meta := m\<rparr>)"
    and fr: "\<forall>refs. r = Inr refs \<longrightarrow> frees refs m" using intact_quiet [OF assms(1)] by blast+
  show ?thesis
  proof (cases r)
    case fail: (Inl e)
    with int sw show ?thesis by (simp add: svc_Sweep_def)
  next
    case ok: (Inr refs)
    with int fr have "intact content sv (delete_refs sv refs (w\<lparr>w_meta := m\<rparr>))"
      by (intro intact_delete_refs) simp_all
    with ok sw show ?thesis by (simp add: svc_Sweep_def)
  qed
qed

lemma intact_on_meta:
  assumes "intact content sv w" and "\<And>r m. f (w_meta w) = (r, m) \<Longrightarrow> moves None (w_meta w) m \<and> wf_mem m"
  shows "intact content sv (snd (on_meta f w))"
proof -
  obtain r m where f: "f (w_meta w) = (r, m)" by fastforce
  with assms(2) intact_quiet [OF assms(1)] have "intact content sv (w\<lparr>w_meta := m\<rparr>)" by blast
  with f show ?thesis by (simp add: on_meta_def)
qed

end

end
