(* ===== verification/ServiceMachine.thy ===== *)
theory ServiceMachine
  imports ServiceInv
begin

text \<open>
  The service as a state machine: one step is one call of a service operation that changes
  state.  Over the contracts, every reachable world is intact; over a blob store whose calls do
  not fail, every reachable world is also tidy: no blob is stored that no row points at.
\<close>

section \<open>Calls\<close>

datatype svc_op =
    SvIngest env ingest_input
  | SvBundle env string string "string list" string
  | SvRebundle env string string "bundle_entry list"
  | SvReplaceContainer env string string bytes
  | SvReplaceContainerArchived env string string bytes
  | SvDelete "string list" "string list" "string \<Rightarrow> time" string caller
  | SvSweep "string list" "string \<Rightarrow> time" time int
  | SvGrant grant_input
  | SvSweepHistory "string list" "string list" time int
  | SvDeleteHistoryChain "string list" "string list" string string
  | SvExtendRetention time time string string
  | SvSetResultFreeze time string bool

primrec svc_exec :: "'b service \<Rightarrow> svc_op \<Rightarrow> 'b world \<Rightarrow> 'b world" where
  "svc_exec sv (SvIngest ev inp) w = snd (svc_Ingest sv ev inp w)"
| "svc_exec sv (SvBundle ev owner tenant ids filename) w = snd (svc_Bundle sv ev owner tenant ids filename w)"
| "svc_exec sv (SvRebundle ev owner k entries) w = snd (svc_Rebundle sv ev owner k entries w)"
| "svc_exec sv (SvReplaceContainer ev k h data) w = snd (svc_ReplaceContainer sv ev k h data w)"
| "svc_exec sv (SvReplaceContainerArchived ev k h data) w = snd (svc_ReplaceContainerArchived sv ev k h data w)"
| "svc_exec sv (SvDelete ord1 ord2 clk k c) w = snd (svc_Delete sv ord1 ord2 clk k c w)"
| "svc_exec sv (SvSweep ord clk now limit) w = snd (svc_Sweep sv ord clk now limit w)"
| "svc_exec sv (SvGrant inp) w = snd (svc_Grant inp w)"
| "svc_exec sv (SvSweepHistory ord1 ord2 before limit) w = snd (svc_SweepHistory ord1 ord2 before limit w)"
| "svc_exec sv (SvDeleteHistoryChain ord1 ord2 owner root) w = snd (svc_DeleteHistoryChain ord1 ord2 owner root w)"
| "svc_exec sv (SvExtendRetention now storeNow k owner) w = snd (svc_ExtendRetention sv now storeNow k owner w)"
| "svc_exec sv (SvSetResultFreeze now k frozen) w = snd (svc_SetResultFreeze now k frozen w)"

text \<open>
  What holds of a call's outside values; an upload is never stored as already expired or
  deleted, and names no parent that does not exist yet.
\<close>

primrec svc_ok :: "svc_op \<Rightarrow> memory \<Rightarrow> bool" where
  "svc_ok (SvIngest ev inp) m \<longleftrightarrow>
     env_ok ev m \<and> in_ParentID inp \<noteq> e_id ev \<and> in_Status inp \<noteq> ''expired'' \<and> in_Status inp \<noteq> ''deleted''"
| "svc_ok (SvBundle ev owner tenant ids filename) m \<longleftrightarrow> env_ok ev m"
| "svc_ok (SvRebundle ev owner k entries) m \<longleftrightarrow> env_ok ev m"
| "svc_ok (SvReplaceContainer ev k h data) m \<longleftrightarrow> env_ok ev m"
| "svc_ok (SvReplaceContainerArchived ev k h data) m \<longleftrightarrow> env_ok ev m"
| "svc_ok (SvDelete ord1 ord2 clk k c) m \<longleftrightarrow> visits ord1 (rows m) \<and> visits ord2 (rows m)"
| "svc_ok (SvSweep ord clk now limit) m \<longleftrightarrow> visits ord (rows m)"
| "svc_ok (SvGrant inp) m \<longleftrightarrow> True"
| "svc_ok (SvSweepHistory ord1 ord2 before limit) m \<longleftrightarrow> visits ord1 (rows m)"
| "svc_ok (SvDeleteHistoryChain ord1 ord2 owner root) m \<longleftrightarrow> visits ord1 (rows m) \<and> visits ord2 (rows m)"
| "svc_ok (SvExtendRetention now storeNow k owner) m \<longleftrightarrow> True"
| "svc_ok (SvSetResultFreeze now k frozen) m \<longleftrightarrow> True"

inductive svc_step :: "'b service \<Rightarrow> 'b world \<Rightarrow> svc_op \<Rightarrow> 'b world \<Rightarrow> bool" for sv where
  call: "svc_ok op (w_meta w) \<Longrightarrow> svc_step sv w op (svc_exec sv op w)"

inductive_cases svc_stepE: "svc_step sv w op w'"

inductive svc_reachable :: "'b service \<Rightarrow> 'b \<Rightarrow> 'b world \<Rightarrow> bool" for sv b0 where
  start: "svc_reachable sv b0 \<lparr>w_meta = NewMemory, w_blob = b0\<rparr>"
| step: "svc_reachable sv b0 w \<Longrightarrow> svc_step sv w op w' \<Longrightarrow> svc_reachable sv b0 w'"

text \<open>A blob store is tidy beside its metadata when every object in it is some row's.\<close>

definition tidy :: "('b \<Rightarrow> string \<rightharpoonup> bytes) \<Rightarrow> 'b world \<Rightarrow> bool" where
  "tidy content w \<longleftrightarrow>
     purged_clean (w_meta w) \<and> (\<forall>r. content (w_blob w) r \<noteq> None \<longrightarrow> r \<noteq> [] \<and> \<not> unref r (w_meta w))"

section \<open>Intact worlds\<close>

context document_service
begin

lemma intact_exec:
  assumes "intact content sv w" and "svc_ok op (w_meta w)"
  shows "intact content sv (svc_exec sv op w)"
proof (cases op)
  case (SvIngest ev inp)
  with assms show ?thesis by (simp add: intact_Ingest)
next
  case (SvSweepHistory ord1 ord2 before limit)
  have wf: "wf_mem (w_meta w)" using assms(1) by (simp add: intact_def)
  show ?thesis
    using SvSweepHistory assms wf moves_SweepHistory [OF wf] wf_exec [OF wf, of "OpSweepHistory ord1 ord2 before limit"]
    by (auto simp: svc_SweepHistory_def revives_def intro!: intact_on_meta)
next
  case (SvDeleteHistoryChain ord1 ord2 owner root)
  have wf: "wf_mem (w_meta w)" using assms(1) by (simp add: intact_def)
  show ?thesis
    using SvDeleteHistoryChain assms wf moves_DeleteHistory [OF wf] wf_exec [OF wf, of "OpDeleteHistory ord1 ord2 owner root"]
    by (auto simp: svc_DeleteHistoryChain_def revives_def intro!: intact_on_meta)
next
  case (SvGrant inp)
  have wf: "wf_mem (w_meta w)" using assms(1) by (simp add: intact_def)
  show ?thesis
    using SvGrant assms(1) moves_quiet(3) wf_exec [OF wf, of "OpGrant inp"]
    by (auto simp: svc_Grant_def revives_def intro!: intact_on_meta)
next
  case (SvExtendRetention now storeNow k owner)
  have wf: "wf_mem (w_meta w)" using assms(1) by (simp add: intact_def)
  show ?thesis
    using SvExtendRetention assms(1) moves_quiet(2) [OF wf] wf_exec [OF wf, of "OpExtendRetention storeNow k owner (now + sv_ttl sv)"]
    by (auto simp: svc_ExtendRetention_def revives_def intro!: intact_on_meta)
next
  case (SvSetResultFreeze now k frozen)
  have wf: "wf_mem (w_meta w)" using assms(1) by (simp add: intact_def)
  show ?thesis
    using SvSetResultFreeze assms(1) moves_quiet(1) [OF wf] wf_exec [OF wf, of "OpSetResultFreeze now k frozen"]
    by (auto simp: svc_SetResultFreeze_def revives_def intro!: intact_on_meta)
qed (use assms in \<open>simp_all add: intact_Bundle intact_Rebundle intact_replaceContainer intact_Delete intact_Sweep
       svc_ReplaceContainer_def svc_ReplaceContainerArchived_def\<close>)

lemma intact_reachable: "svc_reachable sv b0 w \<Longrightarrow> intact content sv w"
proof (induction rule: svc_reachable.induct)
  case start
  show ?case by (simp add: intact_def NewMemory_def wf_mem_def refs_distinct_def)
next
  case (step w op w')
  then show ?case by (auto elim!: svc_stepE intro: intact_exec)
qed

text \<open>What \<open>Content\<close> answers in an intact world.\<close>

lemma Content_intact:
  assumes "intact content sv w" and "mem_Get (w_meta w) k c = Inr doc"
    and "bl_Get B (d_StorageRef doc) (w_blob w) = Inr x"
  shows "if d_StorageRef doc = [] then svc_Content sv k c w = Inl (ErrGone, Some doc)
    else \<exists>data. svc_Content sv k c w = Inr (doc, data) \<and> CanonicalHash data = d_ContentHash doc \<and>
           int (length data) = d_Size doc"
proof (cases "d_StorageRef doc = []")
  case True
  with assms(2) show ?thesis by (simp add: svc_Content_def)
next
  case False
  from assms(2) obtain d where d: "rows (w_meta w) k = Some d" "doc = project_freeze (w_meta w) d"
    by (auto simp: mem_Get_def split: option.splits if_splits)
  then have same: "d_StorageRef doc = d_StorageRef d" "d_EncryptionKeyRef doc = d_EncryptionKeyRef d"
      "d_ContentHash doc = d_ContentHash d" "d_Size doc = d_Size d"
    by (auto simp: project_freeze_def split: option.splits)
  from assms(1) d(1) have "row_intact content sv (w_blob w) d" by (auto simp: intact_def intro: ranI)
  with False same obtain data where op: "opens_to content sv (w_blob w) (d_StorageRef doc) (d_EncryptionKeyRef doc) data"
      and h: "CanonicalHash data = d_ContentHash doc" "int (length data) = d_Size doc"
    by (auto simp: row_intact_def)
  from op get_content [OF assms(3)] assms(2,3) False have "svc_Content sv k c w = Inr (doc, data)"
    by (auto simp: svc_Content_def opens_to_def sv_blob)
  with h False show ?thesis by simp
qed

text \<open>A row whose bytes open to given data is served as that data.\<close>

lemma Content_opens:
  assumes "mem_Get (w_meta w) k c = Inr doc" and "d_StorageRef doc \<noteq> []"
    and "opens_to content sv (w_blob w) (d_StorageRef doc) (d_EncryptionKeyRef doc) data"
    and "bl_Get B (d_StorageRef doc) (w_blob w) = Inr x"
  shows "svc_Content sv k c w = Inr (doc, data)"
  using assms get_content [OF assms(4)] by (auto simp: svc_Content_def opens_to_def sv_blob)

lemma delete_blob_frame: "l \<noteq> r \<Longrightarrow> content (w_blob (delete_blob sv r w)) l = content (w_blob w) l"
  using delete_frame [of r "w_blob w"] unfolding delete_blob_def sv_blob
  by (simp add: prod.collapse [symmetric]) (metis prod.collapse)

lemma delete_refs_frame:
  "l \<notin> p_StorageRef ` set rs \<Longrightarrow> content (w_blob (delete_refs sv rs w)) l = content (w_blob w) l"
  by (induction rs arbitrary: w) (auto simp: delete_blob_frame)

lemma opens_delete_refs:
  assumes "opens_to content sv (w_blob w) ref keyRef data" and "ref \<noteq> []" and "frees rs m" and "\<not> unref ref m"
  shows "opens_to content sv (w_blob (delete_refs sv rs w)) ref keyRef data"
proof -
  have "ref \<notin> p_StorageRef ` set rs" using assms(2-4) by (auto simp: frees_def)
  from delete_refs_frame [OF this] assms(1) show ?thesis by (simp add: opens_to_def)
qed

text \<open>A successful replace: the row now opens to the new bytes.\<close>

lemma replace_opens:
  assumes "intact content sv w" and "env_ok ev (w_meta w)"
    and "svc_replaceContainer sv ev k h data pc w = (Inr doc, w')"
  shows "rows (w_meta w') k = Some doc \<and> d_StorageRef doc = e_objKey ev \<and> d_ContentHash doc = CanonicalHash data \<and>
    opens_to content sv (w_blob w') (e_objKey ev) (d_EncryptionKeyRef doc) data \<and>
    (\<exists>d. rows (w_meta w) k = Some d \<and> d_ContentHash d = h \<and> (d_StorageRef d \<noteq> [] \<longrightarrow> unref (d_StorageRef d) (w_meta w')))"
proof -
  obtain r w1 where st: "sealAndStore sv ev data w = (r, w1)" by fastforce
  note w1 = sealAndStore_cases [OF st assms(1,2)]
  from assms(3) st obtain objKey keyRef where r: "r = Inr (objKey, keyRef)"
    by (auto simp: svc_replaceContainer_def split: sum.splits)
  with w1 have obj: "objKey = e_objKey ev" and op: "opens_to content sv (w_blob w1) (e_objKey ev) keyRef data"
    and meta: "w_meta w1 = w_meta w" by auto
  let ?inp = "\<lparr>ri_ID = k, ri_ExpectedHash = h, ri_StorageRef = e_objKey ev, ri_ContentHash = CanonicalHash data,
      ri_Size = int (length data), ri_EncryptionKeyRef = keyRef, ri_PreservationClass = pc\<rparr>"
  obtain ir m where rep: "mem_ReplaceContainerBlob (e_storeNow ev) ?inp (w_meta w) = (ir, m)" by fastforce
  have wf: "wf_mem (w_meta w)" "refs_distinct (w_meta w)" using assms(1) by (simp_all add: intact_def)
  have free: "unref (e_objKey ev) (w_meta w)" "e_objKey ev \<noteq> []" using assms(2) by (simp_all add: env_ok_def)
  from rep assms(3) st r obj meta obtain old where ok: "ir = Inr (doc, old)"
      and w': "w' = delete_refs sv [old] (w1\<lparr>w_meta := m\<rparr>)"
    by (auto simp: svc_replaceContainer_def split: sum.splits)
  from rep [unfolded ok] wf(1) have row: "rows m k = Some doc" "d_StorageRef doc = e_objKey ev"
      "d_ContentHash doc = CanonicalHash data" "d_EncryptionKeyRef doc = keyRef"
    by (rule Replace_cases; auto simp: wf_mem_id)+
  from rep [unfolded ok] wf(1) obtain d where d: "rows (w_meta w) k = Some d" "d_ContentHash d = h" "old = purged_of d"
    by (rule Replace_cases) auto
  have fr: "frees [old] m" using frees_Replace [OF wf, of ?inp] free rep ok by simp
  moreover have "\<not> unref (e_objKey ev) m" using keeps_Replace [OF wf(1), of "e_storeNow ev" ?inp] rep ok by simp
  ultimately have "opens_to content sv (w_blob w') (e_objKey ev) keyRef data"
    using opens_delete_refs [of "w1\<lparr>w_meta := m\<rparr>" "e_objKey ev" keyRef data "[old]" m] op free w' by simp
  with row w' d fr show ?thesis by (simp add: frees_def)
qed

end

section \<open>Tidy worlds\<close>

locale reliable_service = document_service B content K sv + reliable_blobs B content
  for B :: "'b blob_iface" and content :: "'b \<Rightarrow> string \<rightharpoonup> bytes" and K :: kms_iface and sv :: "'b service"
begin

lemma content_delete_blob: "content (w_blob (delete_blob sv r w)) = (content (w_blob w))(r := None)"
  by (simp add: delete_blob_def sv_blob delete_content)

lemma content_delete_refs:
  "content (w_blob (delete_refs sv rs w)) l =
     (if l \<noteq> [] \<and> l \<in> p_StorageRef ` set rs then None else content (w_blob w) l)"
  by (induction rs arbitrary: w) (auto simp: content_delete_blob)

text \<open>The end of a storing call, and of a releasing one.\<close>

lemma tidy_delete_refs:
  assumes "tidy content w" and "keeps refs (w_meta w) m" and "purged_clean m"
  shows "tidy content (delete_refs sv refs (w\<lparr>w_meta := m\<rparr>))"
  using assms by (auto simp: tidy_def content_delete_refs keeps_def split: if_splits)

lemma tidy_stored:
  assumes "tidy content w" and "content b = (content (w_blob w))(r \<mapsto> s)" and "r \<noteq> []"
    and "keeps refs (w_meta w) m" and "purged_clean m" and "\<not> unref r m" and "unref r (w_meta w)"
  shows "tidy content (delete_refs sv refs (w\<lparr>w_blob := b, w_meta := m\<rparr>))"
  using assms by (auto simp: tidy_def content_delete_refs keeps_def split: if_splits)

lemma tidy_rolled_back:
  assumes "tidy content w" and "content b = (content (w_blob w))(r \<mapsto> s)" and "unref r (w_meta w)"
  shows "tidy content (delete_blob sv r (w\<lparr>w_blob := b, w_meta := w_meta w\<rparr>))"
  using assms by (auto simp: tidy_def content_delete_blob split: if_splits)

lemma sealAndStore_reliable:
  assumes "sealAndStore sv ev data w = (r, w1)"
  shows "(\<exists>e. r = Inl e \<and> w1 = w) \<or>
    (\<exists>keyRef b sealed. r = Inr (e_objKey ev, keyRef) \<and> w1 = w\<lparr>w_blob := b\<rparr> \<and>
       content b = (content (w_blob w))(e_objKey ev \<mapsto> sealed))"
proof (cases "\<exists>e. r = Inl e \<and> w1 = w")
  case False
  then obtain p wr sealed where g: "km_GenerateDataKey (sv_kms sv) (e_key ev) (e_wrapNonce ev) = Inr (p, wr)"
      and s: "Seal (e_sealNonce ev) p data = Inr sealed"
    using assms by (auto simp: sealAndStore_def split: sum.splits)
  obtain b where put: "bl_Put (sv_blob sv) (e_objKey ev) sealed (w_blob w) = (Inr (), b)"
    using put_ok unfolding sv_blob by blast
  then have "content b = (content (w_blob w))(e_objKey ev \<mapsto> sealed)"
    using put_content [of "e_objKey ev" sealed "w_blob w"] by (simp add: sv_blob)
  with assms g s put show ?thesis by (auto simp: sealAndStore_def)
qed simp

lemma tidy_Ingest:
  assumes "intact content sv w" and "tidy content w" and "svc_ok (SvIngest ev inp0) (w_meta w)"
  shows "tidy content (snd (svc_Ingest sv ev inp0 w))"
proof -
  obtain inp inner where cl: "classify (sv_asice sv) inp0 = (inp, inner)" by fastforce
  then have inp: "in_ParentID inp = in_ParentID inp0" "in_Status inp \<noteq> ''expired''" "in_Status inp \<noteq> ''deleted''"
    using assms(3) by (auto simp: classify_def split: option.splits if_splits)
  have env: "env_ok ev (w_meta w)" using assms(3) by simp
  obtain r w1 where st: "sealAndStore sv ev (in_Data inp) w = (r, w1)" by fastforce
  from sealAndStore_reliable [OF st] show ?thesis
  proof (elim disjE exE conjE)
    fix e assume "r = Inl e" "w1 = w"
    with cl st assms(2) show ?thesis by (simp add: svc_Ingest_def)
  next
    fix keyRef b sealed
    assume r: "r = Inr (e_objKey ev, keyRef)" and w1: "w1 = w\<lparr>w_blob := b\<rparr>"
      and b: "content b = (content (w_blob w))(e_objKey ev \<mapsto> sealed)"
    let ?row = "ingest_row sv (e_now ev) inp inner (e_objKey ev) keyRef"
    obtain ir m where ins: "mem_Insert (e_ord ev) (e_id ev) (e_storeNow ev) ?row (w_meta w) = (ir, m)" by fastforce
    have obj: "unref (e_objKey ev) (w_meta w)" "e_objKey ev \<noteq> []" using env by (simp_all add: env_ok_def)
    show ?thesis
    proof (cases ir)
      case fail: (Inl e)
      with ins have "m = w_meta w" by (elim Insert_cases) auto
      with tidy_rolled_back [OF assms(2) b obj(1)] cl st r w1 ins fail show ?thesis by (simp add: svc_Ingest_def)
    next
      case ok: (Inr new_id)
      have "purged_clean m"
        using purged_clean_exec [of "w_meta w" "OpInsert (e_ord ev) (e_id ev) (e_storeNow ev) ?row"]
          assms(1,2,3) inp ins by (simp add: intact_def tidy_def env_ok_def ingest_row_def)
      moreover have "keeps [] (w_meta w) m \<and> \<not> unref (e_objKey ev) m"
        using keeps_Insert [of "e_ord ev" "e_id ev" "e_storeNow ev" ?row "w_meta w" new_id m] ins ok env
        by (simp add: env_ok_def fresh_id_def ingest_row_def)
      ultimately have "tidy content (delete_refs sv [] (w\<lparr>w_blob := b, w_meta := m\<rparr>))"
        using tidy_stored [OF assms(2) b obj(2)] obj(1) by blast
      with cl st r w1 ins ok show ?thesis by (simp add: svc_Ingest_def)
    qed
  qed
qed

lemma tidy_replaceContainer:
  assumes "intact content sv w" and "tidy content w" and "env_ok ev (w_meta w)"
  shows "tidy content (snd (svc_replaceContainer sv ev k h data pc w))"
proof -
  obtain r w1 where st: "sealAndStore sv ev data w = (r, w1)" by fastforce
  have wf: "wf_mem (w_meta w)" using assms(1) by (simp add: intact_def)
  from sealAndStore_reliable [OF st] show ?thesis
  proof (elim disjE exE conjE)
    fix e assume "r = Inl e" "w1 = w"
    with st assms(2) show ?thesis by (simp add: svc_replaceContainer_def)
  next
    fix keyRef b sealed
    assume r: "r = Inr (e_objKey ev, keyRef)" and w1: "w1 = w\<lparr>w_blob := b\<rparr>"
      and b: "content b = (content (w_blob w))(e_objKey ev \<mapsto> sealed)"
    let ?inp = "\<lparr>ri_ID = k, ri_ExpectedHash = h, ri_StorageRef = e_objKey ev, ri_ContentHash = CanonicalHash data,
        ri_Size = int (length data), ri_EncryptionKeyRef = keyRef, ri_PreservationClass = pc\<rparr>"
    obtain ir m where rep: "mem_ReplaceContainerBlob (e_storeNow ev) ?inp (w_meta w) = (ir, m)" by fastforce
    have obj: "unref (e_objKey ev) (w_meta w)" "e_objKey ev \<noteq> []" using assms(3) by (simp_all add: env_ok_def)
    show ?thesis
    proof (cases ir)
      case fail: (Inl e)
      with rep wf have "m = w_meta w" by (elim Replace_cases) auto
      with tidy_rolled_back [OF assms(2) b obj(1)] st r w1 rep fail show ?thesis by (simp add: svc_replaceContainer_def)
    next
      case ok: (Inr y)
      obtain doc old where y: "y = (doc, old)" by fastforce
      have "purged_clean m"
        using purged_clean_exec [of "w_meta w" "OpReplace (e_storeNow ev) ?inp"] wf assms(2) rep by (simp add: tidy_def)
      moreover have "keeps [old] (w_meta w) m \<and> \<not> unref (e_objKey ev) m"
        using keeps_Replace [OF wf, of "e_storeNow ev" ?inp] rep ok y by simp
      ultimately have "tidy content (delete_refs sv [old] (w\<lparr>w_blob := b, w_meta := m\<rparr>))"
        using tidy_stored [OF assms(2) b obj(2)] obj(1) by blast
      with st r w1 rep ok y show ?thesis by (simp add: svc_replaceContainer_def)
    qed
  qed
qed

lemma tidy_Bundle:
  assumes "intact content sv w" and "tidy content w" and "env_ok ev (w_meta w)"
  shows "tidy content (snd (svc_Bundle sv ev owner tenant ids filename0 w))"
proof (cases "\<exists>e. svc_Bundle sv ev owner tenant ids filename0 w = (Inl e, w)")
  case True
  with assms(2) show ?thesis by auto
next
  case False
  then have len: "\<not> length ids < 1" by (auto simp: svc_Bundle_def)
  obtain files where files: "bundle_files sv owner w [] 0 ids = Inr files"
    using False len by (cases "bundle_files sv owner w [] 0 ids") (auto simp: svc_Bundle_def)
  obtain data where data: "BuildUnsigned (sv_asice sv) files = Inr data"
    using False len files by (cases "BuildUnsigned (sv_asice sv) files") (auto simp: svc_Bundle_def Let_def)
  obtain r w1 where st: "sealAndStore sv ev data w = (r, w1)" by fastforce
  have wf: "wf_mem (w_meta w)" using assms(1) by (simp add: intact_def)
  from sealAndStore_reliable [OF st] show ?thesis
  proof (elim disjE exE conjE)
    fix e assume "r = Inl e" "w1 = w"
    with len files data st assms(2) show ?thesis by (simp add: svc_Bundle_def Let_def)
  next
    fix keyRef b sealed
    assume r: "r = Inr (e_objKey ev, keyRef)" and w1: "w1 = w\<lparr>w_blob := b\<rparr>"
      and b: "content b = (content (w_blob w))(e_objKey ev \<mapsto> sealed)"
    let ?inp = "\<lparr>bi_Owner = owner, bi_TenantID = tenant, bi_SourceIDs = ids,
        bi_Filename = (if filename0 = [] then bundleFilename (pf_Name (hd files)) else filename0),
        bi_StorageRef = e_objKey ev, bi_ContentHash = CanonicalHash data,
        bi_Mime = as_MimeType (sv_asice sv), bi_Size = int (length data),
        bi_EncryptionKeyRef = keyRef, bi_PreservationClass = [],
        bi_RetentionUntil = e_now ev + sv_ttl sv, bi_InnerFiles = manifestFiles (sv_asice sv) data\<rparr>"
    obtain ir m where bun: "mem_Bundle (e_id ev) (e_storeNow ev) ?inp (w_meta w) = (ir, m)" by fastforce
    have obj: "unref (e_objKey ev) (w_meta w)" "e_objKey ev \<noteq> []" and fresh: "fresh_id (e_id ev) (w_meta w)"
      using assms(3) by (simp_all add: env_ok_def)
    show ?thesis
    proof (cases ir)
      case fail: (Inl e)
      with bun have "m = w_meta w" by (elim Bundle_cases) auto
      with tidy_rolled_back [OF assms(2) b obj(1)] len files data st r w1 bun fail show ?thesis
        by (simp add: svc_Bundle_def Let_def)
    next
      case ok: (Inr y)
      obtain new_id absorbed where y: "y = (new_id, absorbed)" by fastforce
      have "purged_clean m"
        using purged_clean_exec [of "w_meta w" "OpBundle (e_id ev) (e_storeNow ev) ?inp"] wf assms(2) fresh bun
        by (simp add: tidy_def)
      moreover have "keeps absorbed (w_meta w) m \<and> \<not> unref (e_objKey ev) m"
        using keeps_Bundle [OF wf fresh, of "e_storeNow ev" ?inp] bun ok y by simp
      ultimately have "tidy content (delete_refs sv absorbed (w\<lparr>w_blob := b, w_meta := m\<rparr>))"
        using tidy_stored [OF assms(2) b obj(2)] obj(1) by blast
      with len files data st r w1 bun ok y show ?thesis by (simp add: svc_Bundle_def Let_def)
    qed
  qed
qed

lemma tidy_Rebundle:
  assumes "intact content sv w" and "tidy content w" and "env_ok ev (w_meta w)"
  shows "tidy content (snd (svc_Rebundle sv ev owner k entries w))"
proof (cases "\<exists>e. svc_Rebundle sv ev owner k entries w = (Inl e, w)")
  case True
  with assms(2) show ?thesis by auto
next
  case False
  from False obtain cur curBytes existing files absorb data where
      pre: "\<not> length entries < 1" "svc_Content sv k (sub_caller owner) w = Inr (cur, curBytes)"
        "\<not> (d_Owner cur \<noteq> owner \<or> d_Kind cur \<noteq> ''container'' \<or> d_Status cur \<noteq> ''received'')"
        "DataObjects (sv_asice sv) curBytes = Inr existing"
        "rebundle_files sv owner (by_name existing) w [] 0 entries = Inr (files, absorb)"
        "BuildUnsigned (sv_asice sv) files = Inr data"
    by (rule rebundle_prepared)
  obtain r w1 where st: "sealAndStore sv ev data w = (r, w1)" by fastforce
  have wf: "wf_mem (w_meta w)" using assms(1) by (simp add: intact_def)
  from sealAndStore_reliable [OF st] show ?thesis
  proof (elim disjE exE conjE)
    fix e assume "r = Inl e" "w1 = w"
    with pre st assms(2) show ?thesis by (simp add: svc_Rebundle_def)
  next
    fix keyRef b sealed
    assume r: "r = Inr (e_objKey ev, keyRef)" and w1: "w1 = w\<lparr>w_blob := b\<rparr>"
      and b: "content b = (content (w_blob w))(e_objKey ev \<mapsto> sealed)"
    let ?inp = "\<lparr>rb_Owner = owner, rb_ID = k, rb_ExpectedHash = d_ContentHash cur,
        rb_StorageRef = e_objKey ev, rb_ContentHash = CanonicalHash data, rb_Size = int (length data),
        rb_EncryptionKeyRef = keyRef, rb_InnerFiles = manifestFiles (sv_asice sv) data, rb_AbsorbSourceIDs = absorb\<rparr>"
    obtain ir m where reb: "mem_Rebundle (e_storeNow ev) ?inp (w_meta w) = (ir, m)" by fastforce
    have obj: "unref (e_objKey ev) (w_meta w)" "e_objKey ev \<noteq> []" using assms(3) by (simp_all add: env_ok_def)
    show ?thesis
    proof (cases ir)
      case fail: (Inl e)
      with reb have "m = w_meta w" by (elim mem_Rebundle_cases) auto
      with tidy_rolled_back [OF assms(2) b obj(1)] pre st r w1 reb fail show ?thesis by (simp add: svc_Rebundle_def)
    next
      case ok: (Inr y)
      obtain doc old absorbed where y: "y = (doc, old, absorbed)" by (cases y) auto
      have "purged_clean m"
        using purged_clean_exec [of "w_meta w" "OpRebundle (e_storeNow ev) ?inp"] wf assms(2) reb by (simp add: tidy_def)
      moreover have "keeps (old # absorbed) (w_meta w) m \<and> \<not> unref (e_objKey ev) m"
        using keeps_Rebundle [OF wf, of "e_storeNow ev" ?inp] reb ok y by simp
      ultimately have "tidy content (delete_refs sv (old # absorbed) (w\<lparr>w_blob := b, w_meta := m\<rparr>))"
        using tidy_stored [OF assms(2) b obj(2)] obj(1) by blast
      with pre st r w1 reb ok y show ?thesis by (simp add: svc_Rebundle_def)
    qed
  qed
qed

lemma tidy_on_meta:
  assumes "tidy content w" and "\<And>r m. f (w_meta w) = (r, m) \<Longrightarrow> keeps [] (w_meta w) m \<and> purged_clean m"
  shows "tidy content (snd (on_meta f w))"
proof -
  obtain r m where f: "f (w_meta w) = (r, m)" by fastforce
  with assms(2) tidy_delete_refs [OF assms(1), of "[]" m] show ?thesis by (simp add: on_meta_def)
qed

lemma tidy_Delete:
  assumes "intact content sv w" and "tidy content w" and "visits ord1 (rows (w_meta w))" and "visits ord2 (rows (w_meta w))"
  shows "tidy content (snd (svc_Delete sv ord1 ord2 clk k c w))"
proof (cases "mem_Get (w_meta w) k c")
  case (Inl e)
  with assms(2) show ?thesis by (simp add: svc_Delete_def)
next
  case (Inr doc)
  obtain r m where rm: "mem_RemoveAccess ord1 ord2 clk k c (w_meta w) = (r, m)" by fastforce
  have wf: "wf_mem (w_meta w)" using assms(1) by (simp add: intact_def)
  have "purged_clean m"
    using purged_clean_exec [of "w_meta w" "OpRemoveAccess ord1 ord2 clk k c"] wf assms(2-4) rm by (simp add: tidy_def)
  with keeps_RemoveAccess [OF wf assms(3,4) rm] tidy_delete_refs [OF assms(2)]
  have "tidy content (delete_refs sv (case r of Inl e \<Rightarrow> [] | Inr refs \<Rightarrow> refs) (w\<lparr>w_meta := m\<rparr>))" by blast
  with Inr rm show ?thesis by (cases r) (simp_all add: svc_Delete_def)
qed

lemma tidy_Sweep:
  assumes "intact content sv w" and "tidy content w" and "visits ord (rows (w_meta w))"
  shows "tidy content (snd (svc_Sweep sv ord clk now limit w))"
proof -
  obtain r m where sw: "mem_SweepRetention ord clk now limit (w_meta w) = (r, m)" by fastforce
  have wf: "wf_mem (w_meta w)" using assms(1) by (simp add: intact_def)
  have "purged_clean m"
    using purged_clean_exec [of "w_meta w" "OpSweepRetention ord clk now limit"] wf assms(2,3) sw by (simp add: tidy_def)
  with keeps_SweepRetention [OF wf assms(3) sw] tidy_delete_refs [OF assms(2)]
  have "tidy content (delete_refs sv (case r of Inl e \<Rightarrow> [] | Inr refs \<Rightarrow> refs) (w\<lparr>w_meta := m\<rparr>))" by blast
  with sw show ?thesis by (cases r) (simp_all add: svc_Sweep_def)
qed

lemma tidy_exec:
  assumes "intact content sv w" and "tidy content w" and "svc_ok op (w_meta w)"
  shows "tidy content (svc_exec sv op w)"
proof -
  have wf: "wf_mem (w_meta w)" using assms(1) by (simp add: intact_def)
  have pc: "purged_clean (w_meta w)" using assms(2) by (simp add: tidy_def)
  note clean = purged_clean_exec [OF wf _ pc]
  show ?thesis
  proof (cases op)
    case (SvIngest ev inp)
    then show ?thesis using tidy_Ingest [OF assms(1,2)] assms(3) by simp
  next
    case (SvSweepHistory ord1 ord2 before limit)
    then show ?thesis
      using assms(2,3) keeps_SweepHistory [OF wf pc] clean [of "OpSweepHistory ord1 ord2 before limit"]
      by (auto simp: svc_SweepHistory_def intro!: tidy_on_meta)
  next
    case (SvDeleteHistoryChain ord1 ord2 owner root)
    then show ?thesis
      using assms(2,3) keeps_DeleteHistory [OF wf pc] clean [of "OpDeleteHistory ord1 ord2 owner root"]
      by (auto simp: svc_DeleteHistoryChain_def intro!: tidy_on_meta)
  next
    case (SvGrant inp)
    then show ?thesis
      using assms(2) keeps_quiet(3) clean [of "OpGrant inp"] by (auto simp: svc_Grant_def intro!: tidy_on_meta)
  next
    case (SvExtendRetention now storeNow k owner)
    then show ?thesis
      using assms(2) keeps_quiet(2) [OF wf] clean [of "OpExtendRetention storeNow k owner (now + sv_ttl sv)"]
      by (auto simp: svc_ExtendRetention_def intro!: tidy_on_meta)
  next
    case (SvSetResultFreeze now k frozen)
    then show ?thesis
      using assms(2) keeps_quiet(1) [OF wf] clean [of "OpSetResultFreeze now k frozen"]
      by (auto simp: svc_SetResultFreeze_def intro!: tidy_on_meta)
  qed (use assms in \<open>simp_all add: tidy_Bundle tidy_Rebundle tidy_replaceContainer tidy_Delete tidy_Sweep
         svc_ReplaceContainer_def svc_ReplaceContainerArchived_def\<close>)
qed

text \<open>A refused replace is rolled back completely.\<close>

lemma replace_refused:
  assumes "intact content sv w" and "tidy content w" and "env_ok ev (w_meta w)"
    and "svc_replaceContainer sv ev k h data pc w = (Inl e, w')"
  shows "w_meta w' = w_meta w \<and> content (w_blob w') = content (w_blob w)"
proof -
  obtain r w1 where st: "sealAndStore sv ev data w = (r, w1)" by fastforce
  have wf: "wf_mem (w_meta w)" using assms(1) by (simp add: intact_def)
  from sealAndStore_reliable [OF st] show ?thesis
  proof (elim disjE exE conjE)
    fix e assume "r = Inl e" "w1 = w"
    with st assms(4) show ?thesis by (simp add: svc_replaceContainer_def)
  next
    fix keyRef b sealed
    assume r: "r = Inr (e_objKey ev, keyRef)" and w1: "w1 = w\<lparr>w_blob := b\<rparr>"
      and b: "content b = (content (w_blob w))(e_objKey ev \<mapsto> sealed)"
    let ?inp = "\<lparr>ri_ID = k, ri_ExpectedHash = h, ri_StorageRef = e_objKey ev, ri_ContentHash = CanonicalHash data,
        ri_Size = int (length data), ri_EncryptionKeyRef = keyRef, ri_PreservationClass = pc\<rparr>"
    obtain ir m where rep: "mem_ReplaceContainerBlob (e_storeNow ev) ?inp (w_meta w) = (ir, m)" by fastforce
    with assms(4) st r w1 obtain er where ir: "ir = Inl er" and w': "w' = delete_blob sv (e_objKey ev) (w1\<lparr>w_meta := m\<rparr>)"
      by (auto simp: svc_replaceContainer_def split: sum.splits)
    from rep ir wf have m: "m = w_meta w" by (elim Replace_cases) auto
    have "content (w_blob w) (e_objKey ev) = None" using assms(2,3) by (auto simp: tidy_def env_ok_def)
    then show ?thesis using w' w1 m b by (auto simp: content_delete_blob fun_eq_iff)
  qed
qed

text \<open>A delete destroys the whole chain's bytes or, while others remain, none.\<close>

lemma delete_shreds:
  assumes "intact content sv w" and "tidy content w"
    and "visits ord1 (rows (w_meta w))" and "visits ord2 (rows (w_meta w))"
    and "svc_Delete sv ord1 ord2 clk k c w = (Inr doc, w')" and "rows (w_meta w) k = Some d"
  shows "if \<exists>g \<in> set (acl (w_meta w')). g_ChainRoot g = chainRootID d
    then content (w_blob w') = content (w_blob w)
    else \<forall>x \<in> ran (rows (w_meta w)). in_chain (chainRootID d) x \<longrightarrow> content (w_blob w') (d_StorageRef x) = None"
proof -
  obtain r m where rm: "mem_RemoveAccess ord1 ord2 clk k c (w_meta w) = (r, m)" by fastforce
  from assms(5) rm obtain refs where r: "r = Inr refs" and w': "w' = delete_refs sv refs (w\<lparr>w_meta := m\<rparr>)"
    by (auto simp: svc_Delete_def split: sum.splits)
  have wf: "wf_mem (w_meta w)" using assms(1) by (simp add: intact_def)
  from wf assms(3,4) rm show ?thesis
  proof (cases rule: mem_RemoveAccess_cases)
    case (refused e)
    with r show ?thesis by simp
  next
    case (left d')
    with r w' assms(6) show ?thesis by simp
  next
    case (last d')
    then have d': "d' = d" using assms(6) by simp
    have refs: "refs = map purged_of (purgeable (chainRootID d) ord2 (w_meta w))" using last(6) r d' by simp
    have none: "content (w_blob w') (d_StorageRef x) = None"
      if x: "x \<in> ran (rows (w_meta w))" "in_chain (chainRootID d) x" for x
    proof (cases "d_StorageRef x = [] \<or> d_Status x = ''deleted''")
      case True
      then have "d_StorageRef x = []" using assms(2) x(1) by (auto simp: tidy_def purged_clean_def terminal_def ran_def)
      then show ?thesis using assms(2) w' by (auto simp: content_delete_refs tidy_def)
    next
      case False
      then have "x \<in> set (purgeable (chainRootID d) ord2 (w_meta w))"
        using x by (simp add: purgeable_def visits_rows_set [OF assms(4)])
      then have "d_StorageRef x \<in> p_StorageRef ` set refs" unfolding refs by (force simp: image_image)
      then show ?thesis using False w' by (simp add: content_delete_refs)
    qed
    have "acl (w_meta w') = kept_grants (chainRootID d) c (w_meta w)" using w' last(7) d' by simp
    with last(5) d' none show ?thesis by auto
  qed
qed

lemma tidy_reachable: "svc_reachable sv b0 w \<Longrightarrow> content b0 = Map.empty \<Longrightarrow> tidy content w"
proof (induction rule: svc_reachable.induct)
  case start
  then show ?case by (simp add: tidy_def purged_clean_def NewMemory_def)
next
  case (step w op w')
  then show ?case using intact_reachable by (auto elim!: svc_stepE intro: tidy_exec)
qed

end

section \<open>The in-process configuration\<close>

text \<open>The service as development and tests wire it: in-memory blobs and the local KMS.\<close>

interpretation dev: reliable_service BlobMemory objs "LocalKMS l" "New BlobMemory (LocalKMS l) lib ttl" for l lib ttl
  by unfold_locales (simp_all add: New_def)

end
