(* ===== verification/ServiceProps.thy ===== *)
theory ServiceProps
  imports ServiceMachine StoreSample
begin

text \<open>
  The correctness properties of the document service in its in-process configuration (in-memory
  metadata and blobs, local KMS), obtained by interpreting the contract-based development.
\<close>

section \<open>An upload, evaluated\<close>

definition dev_service :: "local_kms \<Rightarrow> asice \<Rightarrow> duration \<Rightarrow> blob_memory service" where
  "dev_service l lib ttl = New BlobMemory (LocalKMS l) lib ttl"

text \<open>The random source answered every read.\<close>

definition env_full :: "env \<Rightarrow> bool" where
  "env_full ev \<longleftrightarrow> e_key ev \<noteq> None \<and> e_wrapNonce ev \<noteq> None \<and> e_sealNonce ev \<noteq> None"

lemma dev_seal:
  assumes "env_ok ev m" and "env_full ev"
  obtains keyRef sealed where
    "sealAndStore (dev_service l lib ttl) ev data w =
       (Inr (e_objKey ev, keyRef), w\<lparr>w_blob := w_blob w\<lparr>objs := (objs (w_blob w))(e_objKey ev \<mapsto> sealed)\<rparr>\<rparr>)"
proof -
  from assms obtain k n1 n2 where e: "e_key ev = Some k" "e_wrapNonce ev = Some n1" "e_sealNonce ev = Some n2"
      "length k = 32"
    by (auto simp: env_ok_def env_full_def dataKeyLen_def)
  then have "sealAndStore (dev_service l lib ttl) ev data w =
     (Inr (e_objKey ev, b64_encode (n1 @ gcm_seal (gcm_key (lc_gcm l)) n1 k)),
      w\<lparr>w_blob := w_blob w\<lparr>objs := (objs (w_blob w))(e_objKey ev \<mapsto> n2 @ gcm_seal k n2 data)\<rparr>\<rparr>)"
    by (simp add: sealAndStore_def dev_service_def New_def LocalKMS_def Local_GenerateDataKey_def Seal_def newGCM_ok
        gcm_key_Gcm BlobMemory_def BlobMemory_Put_def)
  then show ?thesis by (rule that)
qed

text \<open>What a new chain root's own row reads back as, for its owner.\<close>

lemma readback_root:
  assumes "mem_Insert ord k now row m = (Inr k', m')" and "ii_ParentID row = []" and "ii_OwnerKind row \<in> {[], ''sub''}"
    and "ii_Owner row \<noteq> []" and "ii_Owner row = cl_Sub c" and "cl_Product c = []"
  shows "mem_Get m' k c = Inr (insert_row k now row)"
proof -
  have m': "rows m' k = Some (insert_row k now row)" "creator_grant k row \<in> set (acl m')"
    using assms(1,2) by (auto simp: mem_Insert_def Let_def split: if_splits)
  have root: "chainRootID (insert_row k now row) = k" using assms(2) by (simp add: chainRootID_def)
  have "allows m' k c ''read''"
    unfolding allows_iff using m'(2) assms
    by (intro bexI [of _ "creator_grant k row"]) (auto simp: creator_grant_def Let_def hasRight_def grant_names_def)
  moreover have "project_freeze m' (insert_row k now row) = insert_row k now row"
    unfolding project_freeze_def root m'(1) by (simp add: insert_row_def)
  ultimately show ?thesis using m'(1) root assms(6) by (simp add: mem_Get_def tenantMatches_def)
qed

lemma classify_keeps:
  assumes "classify lib inp0 = (inp, inner)"
  shows "in_Owner inp = in_Owner inp0" "in_ParentID inp = in_ParentID inp0" "in_OwnerKind inp = in_OwnerKind inp0"
    "in_Data inp = in_Data inp0" "in_RetentionClass inp = in_RetentionClass inp0"
    "in_RetentionUntil inp = in_RetentionUntil inp0" "in_Serial inp = in_Serial inp0"
  using assms by (auto simp: classify_def split: option.splits)

text \<open>What a successful upload leaves: a row under a new identifier, with its bytes, which every reader
  gets.\<close>

lemma dev_ingested:
  assumes "svc_reachable (dev_service l lib ttl) NewBlobMemory w" and "env_ok ev (w_meta w)"
    and "svc_Ingest (dev_service l lib ttl) ev inp w = (Inr doc, w')"
  obtains inp1 inner keyRef where "classify lib inp = (inp1, inner)"
    and "rows (w_meta w) (e_id ev) = None"
    and "rows (w_meta w') = (rows (w_meta w))(e_id ev \<mapsto>
           insert_row (e_id ev) (e_storeNow ev) (ingest_row (dev_service l lib ttl) (e_now ev) inp1 inner (e_objKey ev) keyRef))"
    and "svc_Get (e_id ev) (readback_caller inp1) w' = Inr doc"
    and "\<And>c doc'. svc_Get (e_id ev) c w' = Inr doc' \<Longrightarrow>
      svc_Content (dev_service l lib ttl) (e_id ev) c w' = Inr (doc', in_Data inp) \<and>
      d_ContentHash doc' = CanonicalHash (in_Data inp) \<and> d_ID doc' = e_id ev"
proof -
  let ?sv = "New BlobMemory (LocalKMS l) lib ttl"
  have i: "intact objs ?sv w" by (rule dev.intact_reachable [OF assms(1) [unfolded dev_service_def]])
  obtain inp1 inner where cl: "classify lib inp = (inp1, inner)" by fastforce
  obtain r w1 where st: "sealAndStore ?sv ev (in_Data inp1) w = (r, w1)" by fastforce
  note w1 = dev.sealAndStore_cases [OF st i assms(2)]
  have lib: "sv_asice ?sv = lib" by (simp add: New_def)
  obtain objKey keyRef where r: "r = Inr (objKey, keyRef)"
    using assms(3) cl st lib by (auto simp: svc_Ingest_def dev_service_def split: sum.splits)
  with w1 have obj: "objKey = e_objKey ev" and op: "opens_to objs ?sv (w_blob w1) (e_objKey ev) keyRef (in_Data inp)"
    and meta: "w_meta w1 = w_meta w" using classify_keeps(4) [OF cl] by auto
  let ?row = "ingest_row ?sv (e_now ev) inp1 inner (e_objKey ev) keyRef"
  obtain x m where ins: "mem_Insert (e_ord ev) (e_id ev) (e_storeNow ev) ?row (w_meta w) = (x, m)" by fastforce
  have m: "x = Inr (e_id ev)" "rows m = (rows (w_meta w))(e_id ev \<mapsto> insert_row (e_id ev) (e_storeNow ev) ?row)"
    using ins assms(3) cl st lib r obj meta
    by (cases rule: Insert_cases; simp add: svc_Ingest_def dev_service_def)+
  then have w': "w' = w1\<lparr>w_meta := m\<rparr>" and get: "mem_Get m (e_id ev) (readback_caller inp1) = Inr doc"
    using ins assms(3) cl st lib r obj meta by (simp_all add: svc_Ingest_def dev_service_def)
  show ?thesis
  proof (rule that [OF cl])
    show "rows (w_meta w) (e_id ev) = None" using assms(2) by (simp add: env_ok_def fresh_id_def)
    show "rows (w_meta w') = (rows (w_meta w))(e_id ev \<mapsto>
        insert_row (e_id ev) (e_storeNow ev) (ingest_row (dev_service l lib ttl) (e_now ev) inp1 inner (e_objKey ev) keyRef))"
      using m w' by (simp add: dev_service_def)
    show "svc_Get (e_id ev) (readback_caller inp1) w' = Inr doc" using get w' by (simp add: svc_Get_def)
    fix c doc' assume g: "svc_Get (e_id ev) c w' = Inr doc'"
    then have "doc' = project_freeze m (insert_row (e_id ev) (e_storeNow ev) ?row)"
      using m w' by (auto simp: svc_Get_def mem_Get_def split: if_splits)
    then have "d_StorageRef doc' = e_objKey ev" "d_EncryptionKeyRef doc' = keyRef" "d_ID doc' = e_id ev"
        "d_ContentHash doc' = CanonicalHash (in_Data inp)"
      using classify_keeps(4) [OF cl] by (auto simp: project_freeze_def ingest_row_def split: option.splits)
    with dev.Content_opens [of w' "e_id ev" c doc' l lib ttl "in_Data inp"] assms(2) g op w' mem_blobs.get_ok
    show "svc_Content (dev_service l lib ttl) (e_id ev) c w' = Inr (doc', in_Data inp) \<and>
        d_ContentHash doc' = CanonicalHash (in_Data inp) \<and> d_ID doc' = e_id ev"
      by (simp add: svc_Get_def dev_service_def env_ok_def)
  qed
qed

section \<open>Integrity\<close>

text \<open>C1: no document is ever served wrong or lost while it is live.  In every world reachable by any
  sequence of service calls, for every caller who may read a document: if its row still points at
  bytes, reading the content succeeds and returns bytes whose canonical hash and length are those
  recorded on the row; if the row has been purged, the answer is \<open>ErrGone\<close>.\<close>

theorem content_integrity:
  assumes "svc_reachable (dev_service l lib ttl) NewBlobMemory w" and "svc_Get k c w = Inr doc"
  shows "if d_StorageRef doc = [] then svc_Content (dev_service l lib ttl) k c w = Inl (ErrGone, Some doc)
    else \<exists>data. svc_Content (dev_service l lib ttl) k c w = Inr (doc, data) \<and>
           CanonicalHash data = d_ContentHash doc \<and> int (length data) = d_Size doc"
  using dev.Content_intact [OF dev.intact_reachable [OF assms(1) [unfolded dev_service_def]]
      assms(2) [unfolded svc_Get_def] mem_blobs.get_ok]
  unfolding dev_service_def .

text \<open>C2: the blob store holds exactly the bytes the rows point at.  In every reachable world, an object
  is stored under a key if and only if some row points at it, so nothing readable has lost its
  bytes and nothing released has left any behind; and no two rows share an object.\<close>

theorem blobs_match_rows:
  assumes "svc_reachable (dev_service l lib ttl) NewBlobMemory w"
  shows "dom (objs (w_blob w)) = {d_StorageRef d |d. d \<in> ran (rows (w_meta w)) \<and> d_StorageRef d \<noteq> []} \<and>
    (\<forall>d \<in> ran (rows (w_meta w)). \<forall>e \<in> ran (rows (w_meta w)).
       d_StorageRef d = d_StorageRef e \<longrightarrow> d_StorageRef d \<noteq> [] \<longrightarrow> d = e)"
proof -
  note r = assms [unfolded dev_service_def]
  have i: "intact objs (dev_service l lib ttl) w" using dev.intact_reachable [OF r] by (simp add: dev_service_def)
  have t: "tidy objs w" using dev.tidy_reachable [OF r] by (simp add: NewBlobMemory_def)
  have "dom (objs (w_blob w)) \<subseteq> {d_StorageRef d |d. d \<in> ran (rows (w_meta w)) \<and> d_StorageRef d \<noteq> []}"
    using t by (auto simp: tidy_def unref_def)
  moreover have "{d_StorageRef d |d. d \<in> ran (rows (w_meta w)) \<and> d_StorageRef d \<noteq> []} \<subseteq> dom (objs (w_blob w))"
    using i by (auto simp: intact_def row_intact_def opens_to_def)
  moreover have "refs_distinct (w_meta w)" using i by (simp add: intact_def)
  then have "d = e" if "d \<in> ran (rows (w_meta w))" "e \<in> ran (rows (w_meta w))"
      "d_StorageRef d = d_StorageRef e" "d_StorageRef d \<noteq> []" for d e
    using that by (rule refs_distinct_ran)
  ultimately show ?thesis by blast
qed

section \<open>Upload\<close>

text \<open>A new document of a person can be stored in any world.\<close>

lemma dev_upload:
  assumes "svc_reachable (dev_service l lib ttl) NewBlobMemory w" and "env_ok ev (w_meta w)" and "env_full ev"
    and "in_ParentID inp = []" and "in_OwnerKind inp \<in> {[], ''sub''}" and "in_Owner inp \<noteq> []"
  shows "\<exists>doc w'. svc_Ingest (dev_service l lib ttl) ev inp w = (Inr doc, w') \<and>
    svc_Content (dev_service l lib ttl) (e_id ev) (sub_caller (in_Owner inp)) w' = Inr (doc, in_Data inp) \<and>
    d_ID doc = e_id ev \<and> d_Owner doc = in_Owner inp \<and> d_ContentHash doc = CanonicalHash (in_Data inp) \<and>
    d_Size doc = int (length (in_Data inp)) \<and>
    d_RetentionUntil doc =
      (if in_RetentionClass inp = ''durable'' then in_RetentionUntil inp else Some (e_now ev + ttl))"
proof -
  let ?sv = "dev_service l lib ttl"
  obtain inp1 inner where cl: "classify (sv_asice ?sv) inp = (inp1, inner)" by fastforce
  note keep = classify_keeps [OF cl]
  obtain keyRef sealed where st: "sealAndStore ?sv ev (in_Data inp1) w =
      (Inr (e_objKey ev, keyRef), w\<lparr>w_blob := w_blob w\<lparr>objs := (objs (w_blob w))(e_objKey ev \<mapsto> sealed)\<rparr>\<rparr>)"
    by (rule dev_seal [OF assms(2,3)])
  let ?w1 = "w\<lparr>w_blob := w_blob w\<lparr>objs := (objs (w_blob w))(e_objKey ev \<mapsto> sealed)\<rparr>\<rparr>"
  let ?row = "ingest_row ?sv (e_now ev) inp1 inner (e_objKey ev) keyRef"
  let ?doc = "insert_row (e_id ev) (e_storeNow ev) ?row"
  obtain m where ins: "mem_Insert (e_ord ev) (e_id ev) (e_storeNow ev) ?row (w_meta w) = (Inr (e_id ev), m)"
    using assms(4) keep(2) by (simp add: mem_Insert_def ingest_row_def Let_def)
  have int: "intact objs ?sv w"
    using dev.intact_reachable [OF assms(1) [unfolded dev_service_def]] by (simp add: dev_service_def)
  have get: "mem_Get m (e_id ev) c = Inr ?doc" if "cl_Sub c = in_Owner inp" "cl_Product c = []" for c
    using assms(4-6) keep that by (intro readback_root [OF ins]) (simp_all add: ingest_row_def)
  have "readback_caller inp1 = \<lparr>cl_Sub = in_Owner inp, cl_Serial = in_Serial inp, cl_Product = [], cl_Tenant = []\<rparr>"
    using assms(5) keep by (auto simp: readback_caller_def)
  then have ing: "svc_Ingest ?sv ev inp w = (Inr ?doc, ?w1\<lparr>w_meta := m\<rparr>)"
    using cl st ins get by (simp add: svc_Ingest_def)
  have "opens_to objs ?sv (w_blob ?w1) (e_objKey ev) keyRef (in_Data inp1)"
    using dev.sealAndStore_cases [OF st [unfolded dev_service_def] int [unfolded dev_service_def] assms(2)]
    by (simp add: dev_service_def)
  then have "svc_Content ?sv (e_id ev) (sub_caller (in_Owner inp)) (?w1\<lparr>w_meta := m\<rparr>) = Inr (?doc, in_Data inp)"
    using dev.Content_opens [of "?w1\<lparr>w_meta := m\<rparr>" "e_id ev" "sub_caller (in_Owner inp)" ?doc l lib ttl "in_Data inp"]
      get assms(2) keep(4) mem_blobs.get_ok
    by (simp add: dev_service_def ingest_row_def sub_caller_def env_ok_def)
  with ing show ?thesis
    using keep by (auto simp: ingest_row_def retentionFor_def dev_service_def New_def)
qed

text \<open>C18: an upload can be read back.  Whenever the random source works, storing a new document of a
  person succeeds in any world, under the identifier drawn for it; the owner then reads exactly
  the bytes that were uploaded, with their canonical hash and size on the row and the retention
  date of its class (the service's window, or the owner's own date, possibly none, when durable).\<close>

theorem upload_reads_back:
  assumes "svc_reachable (dev_service l lib ttl) NewBlobMemory w" and "env_ok ev (w_meta w)" and "env_full ev"
    and "in_ParentID inp = []" and "in_OwnerKind inp \<in> {[], ''sub''}" and "in_Owner inp \<noteq> []"
  shows "\<exists>doc w'. svc_Ingest (dev_service l lib ttl) ev inp w = (Inr doc, w') \<and>
    svc_Content (dev_service l lib ttl) (e_id ev) (sub_caller (in_Owner inp)) w' = Inr (doc, in_Data inp) \<and>
    d_ID doc = e_id ev \<and> d_Owner doc = in_Owner inp \<and> d_ContentHash doc = CanonicalHash (in_Data inp) \<and>
    d_Size doc = int (length (in_Data inp)) \<and>
    d_RetentionUntil doc =
      (if in_RetentionClass inp = ''durable'' then in_RetentionUntil inp else Some (e_now ev + ttl))"
  by (rule dev_upload [OF assms])

text \<open>A first upload, of a signed container, used to apply the properties at a concrete world.\<close>

definition sample_lib :: asice where
  "sample_lib =
     \<lparr>as_Inspect = (\<lambda>_. Inl ''not a container''), as_BuildUnsigned = (\<lambda>fs. Inr (concat (map pf_Data fs))),
      as_CheckReferences = (\<lambda>_ _. None), as_BuildContainer = (\<lambda>_ _. Inl ''''), as_AddDocuments = (\<lambda>_ _. Inl ''''),
      as_AddSignature = (\<lambda>_ _. Inl ''''), as_CoSign = (\<lambda>_ _. Inl ''''), as_DataObjects = (\<lambda>_. Inl ''''),
      as_MimeType = ''application/vnd.etsi.asic-e+zip''\<rparr>"

definition sample_kms :: local_kms where
  "sample_kms = \<lparr>lc_gcm = Gcm (replicate 32 5)\<rparr>"

definition sample_service :: "blob_memory service" where
  "sample_service = dev_service sample_kms sample_lib 100"

definition sample_env :: env where
  "sample_env =
     \<lparr>e_key = Some (replicate 32 1), e_wrapNonce = Some (replicate 12 2), e_sealNonce = Some (replicate 12 3),
      e_objKey = ''obj1'', e_id = ''01'', e_ord = [], e_now = 10, e_storeNow = 11\<rparr>"

definition sample_upload :: ingest_input where
  "sample_upload =
     \<lparr>in_Owner = ''ana'', in_Serial = [], in_TenantID = [], in_Kind = ''container'', in_ParentID = [],
      in_Filename = ''a.asice'', in_Mime = [], in_PreservationClass = [], in_Status = ''signed'', in_OwnerKind = [], in_RetentionClass = [],
      in_RetentionUntil = None, in_Data = [72, 105]\<rparr>"

definition empty_world :: "blob_memory world" where
  "empty_world = \<lparr>w_meta = NewMemory, w_blob = NewBlobMemory\<rparr>"

definition sample_world :: "blob_memory world" where
  "sample_world = svc_exec sample_service (SvIngest sample_env sample_upload) empty_world"

lemma reachable_empty: "svc_reachable (dev_service sample_kms sample_lib 100) NewBlobMemory empty_world"
  unfolding empty_world_def by (rule svc_reachable.start)

lemma sample_env_ok: "env_ok sample_env (w_meta empty_world)"
  by (simp add: env_ok_def sample_env_def empty_world_def NewMemory_def dataKeyLen_def NonceSize_def fresh_id_def
      unref_def visits_def)

lemma reachable_sample_world: "svc_reachable (dev_service sample_kms sample_lib 100) NewBlobMemory sample_world"
  unfolding sample_world_def sample_service_def
proof (rule svc_reachable.step [OF reachable_empty], rule svc_step.call)
  show "svc_ok (SvIngest sample_env sample_upload) (w_meta empty_world)"
    using sample_env_ok by (simp add: sample_upload_def sample_env_def)
qed

lemma upload_reads_back_witness:
  "\<exists>doc. fst (svc_Ingest (dev_service sample_kms sample_lib 100) sample_env sample_upload empty_world) = Inr doc \<and>
     d_RetentionUntil doc = Some 110 \<and>
     svc_Content (dev_service sample_kms sample_lib 100) ''01'' (sub_caller ''ana'') sample_world = Inr (doc, [72, 105])"
  using upload_reads_back [OF reachable_empty sample_env_ok, of sample_upload]
  by (auto simp: sample_world_def sample_service_def env_full_def sample_upload_def sample_env_def)

text \<open>The sample world's row, as its owner reads it.\<close>

lemma sample_world_row:
  obtains doc where "svc_Get ''01'' (sub_caller ''ana'') sample_world = Inr doc" and "d_StorageRef doc = ''obj1''"
    and "rows (w_meta sample_world) = [''01'' \<mapsto> doc]" and "d_Kind doc = ''container''" and "d_Status doc = ''signed''"
    and "d_ContentHash doc = CanonicalHash [72, 105]" and "d_ID doc = ''01''" and "d_ParentID doc = []"
    and "d_LegalHold doc = False" and "d_Owner doc = ''ana''" and "d_TenantID doc = []"
    and "d_RetentionUntil doc = Some 110" and "d_ResultFrozen doc = False"
    and "acl (w_meta sample_world) = [\<lparr>g_ChainRoot = ''01'', g_Kind = ''sub'', g_Principal = ''ana'', g_Rights = [''read'', ''cosign'']\<rparr>]"
proof -
  have full: "env_full sample_env" by (simp add: env_full_def sample_env_def)
  obtain keyRef sealed where st: "sealAndStore (dev_service sample_kms sample_lib 100) sample_env [72, 105] empty_world =
      (Inr (e_objKey sample_env, keyRef), empty_world\<lparr>w_blob := w_blob empty_world\<lparr>objs := (objs (w_blob empty_world))(e_objKey sample_env \<mapsto> sealed)\<rparr>\<rparr>)"
    by (rule dev_seal [OF sample_env_ok full])
  have cl: "classify (sv_asice (dev_service sample_kms sample_lib 100)) sample_upload = (sample_upload, [])"
    by (simp add: classify_def Inspect_def dev_service_def New_def sample_lib_def)
  let ?row = "ingest_row (dev_service sample_kms sample_lib 100) 10 sample_upload [] ''obj1'' keyRef"
  let ?doc = "insert_row ''01'' 11 ?row"
  obtain m where ins: "mem_Insert [] ''01'' 11 ?row (w_meta empty_world) = (Inr ''01'', m)"
    by (simp add: mem_Insert_def Let_def ingest_row_def sample_upload_def)
  have w: "w_meta sample_world = m"
    using cl st ins by (simp add: sample_world_def sample_service_def svc_Ingest_def sample_env_def sample_upload_def)
  have get: "mem_Get m ''01'' (sub_caller ''ana'') = Inr ?doc"
    by (rule readback_root [OF ins]) (simp_all add: ingest_row_def sample_upload_def sub_caller_def)
  have m: "rows m = [''01'' \<mapsto> ?doc]" "acl m = [creator_grant ''01'' ?row]"
    using ins by (auto simp: mem_Insert_def Let_def empty_world_def NewMemory_def ingest_row_def sample_upload_def)
  show ?thesis
    by (rule that [of ?doc])
       (use get m w in \<open>simp_all add: svc_Get_def ingest_row_def sample_upload_def creator_grant_def retentionFor_def dev_service_def New_def\<close>)
qed

lemma content_integrity_witness:
  "\<exists>doc data. svc_Content (dev_service sample_kms sample_lib 100) ''01'' (sub_caller ''ana'') sample_world = Inr (doc, data) \<and>
     CanonicalHash data = d_ContentHash doc"
proof -
  obtain doc where "svc_Get ''01'' (sub_caller ''ana'') sample_world = Inr doc" "d_StorageRef doc = ''obj1''"
    by (rule sample_world_row)
  with content_integrity [OF reachable_sample_world this(1)] show ?thesis by auto
qed

lemma blobs_match_rows_witness: "''obj1'' \<in> dom (objs (w_blob sample_world))"
proof -
  obtain doc where "rows (w_meta sample_world) = [''01'' \<mapsto> doc]" "d_StorageRef doc = ''obj1''"
    by (rule sample_world_row)
  then have "''obj1'' \<in> {d_StorageRef d |d. d \<in> ran (rows (w_meta sample_world)) \<and> d_StorageRef d \<noteq> []}"
    by (force intro: ranI)
  then show ?thesis using blobs_match_rows [OF reachable_sample_world] by simp
qed

section \<open>Replacing the signed head\<close>

text \<open>What a successful replace leaves: the row had the expected hash and now points at the new bytes, which
  every reader gets; the superseded object is gone.\<close>

lemma dev_replaced:
  assumes "svc_reachable (dev_service l lib ttl) NewBlobMemory w" and "env_ok ev (w_meta w)"
    and "svc_replaceContainer (dev_service l lib ttl) ev k h data pc w = (Inr doc, w')"
    and "svc_ok op (w_meta w)" and "svc_exec (dev_service l lib ttl) op w = w'"
  obtains d where "rows (w_meta w) k = Some d" and "d_ContentHash d = h" and "objs (w_blob w') (d_StorageRef d) = None"
    and "rows (w_meta w') k = Some doc" and "d_ContentHash doc = CanonicalHash data"
    and "\<And>c doc'. svc_Get k c w' = Inr doc' \<Longrightarrow>
      svc_Content (dev_service l lib ttl) k c w' = Inr (doc', data) \<and> d_ContentHash doc' = CanonicalHash data"
proof -
  let ?sv = "New BlobMemory (LocalKMS l) lib ttl"
  note r = assms(1) [unfolded dev_service_def]
  have i: "intact objs ?sv w" and t: "tidy objs w"
    using dev.intact_reachable [OF r] dev.tidy_reachable [OF r] by (simp_all add: NewBlobMemory_def)
  have t': "tidy objs w'" using dev.tidy_exec [OF i t assms(4)] assms(5) by (simp add: dev_service_def)
  from dev.replace_opens [OF i assms(2) assms(3) [unfolded dev_service_def]] obtain d where
      row: "rows (w_meta w') k = Some doc" "d_StorageRef doc = e_objKey ev" "d_ContentHash doc = CanonicalHash data"
      and op: "opens_to objs ?sv (w_blob w') (e_objKey ev) (d_EncryptionKeyRef doc) data"
      and d: "rows (w_meta w) k = Some d" "d_ContentHash d = h" "d_StorageRef d \<noteq> [] \<longrightarrow> unref (d_StorageRef d) (w_meta w')"
    by blast
  show ?thesis
  proof (rule that [OF d(1,2) _ row(1,3)])
    show "objs (w_blob w') (d_StorageRef d) = None" using t' d(3) by (auto simp: tidy_def)
    fix c doc' assume get: "svc_Get k c w' = Inr doc'"
    with row(1) have "doc' = project_freeze (w_meta w') doc"
      by (auto simp: svc_Get_def mem_Get_def split: if_splits)
    then have same: "d_StorageRef doc' = e_objKey ev" "d_EncryptionKeyRef doc' = d_EncryptionKeyRef doc"
        "d_ContentHash doc' = CanonicalHash data"
      using row by (auto simp: project_freeze_def split: option.splits)
    with dev.Content_opens [of w' k c doc' l lib ttl data] assms(2) get op mem_blobs.get_ok
    show "svc_Content (dev_service l lib ttl) k c w' = Inr (doc', data) \<and> d_ContentHash doc' = CanonicalHash data"
      by (simp add: svc_Get_def dev_service_def env_ok_def)
  qed
qed

text \<open>C19: a successful replace is keep-latest.  The head's row had the hash the caller expected, now
  carries the hash of the new bytes, serves exactly those to every caller who may read it, and the
  object it superseded is destroyed.\<close>

theorem replace_reads_back:
  assumes "svc_reachable (dev_service l lib ttl) NewBlobMemory w" and "env_ok ev (w_meta w)"
    and "svc_ReplaceContainer (dev_service l lib ttl) ev k h data w = (Inr doc, w')"
    and "svc_Get k c w' = Inr doc'"
  shows "svc_Content (dev_service l lib ttl) k c w' = Inr (doc', data) \<and> d_ContentHash doc' = CanonicalHash data \<and>
    (\<exists>d. rows (w_meta w) k = Some d \<and> d_ContentHash d = h \<and> objs (w_blob w') (d_StorageRef d) = None)"
proof -
  note rep = assms(3) [unfolded svc_ReplaceContainer_def]
  have "svc_ok (SvReplaceContainer ev k h data) (w_meta w)" using assms(2) by simp
  moreover have "svc_exec (dev_service l lib ttl) (SvReplaceContainer ev k h data) w = w'" using assms(3) by simp
  ultimately show ?thesis by (rule dev_replaced [OF assms(1,2) rep]) (use assms(4) in blast)
qed

definition sample_env2 :: env where
  "sample_env2 = sample_env\<lparr>e_objKey := ''obj2'', e_id := ''02'', e_ord := [''01''], e_now := 20, e_storeNow := 21\<rparr>"

lemma sample_env2_ok: "env_ok sample_env2 (w_meta sample_world)"
proof -
  obtain doc where "rows (w_meta sample_world) = [''01'' \<mapsto> doc]" "d_StorageRef doc = ''obj1''" "d_ParentID doc = []"
      "acl (w_meta sample_world) = [\<lparr>g_ChainRoot = ''01'', g_Kind = ''sub'', g_Principal = ''ana'', g_Rights = [''read'', ''cosign'']\<rparr>]"
    by (rule sample_world_row)
  then show ?thesis
    by (simp add: env_ok_def sample_env2_def sample_env_def dataKeyLen_def NonceSize_def fresh_id_def unref_def visits_def)
qed

text \<open>The sample document can be replaced, and its owner still reads it.\<close>

lemma sample_replace:
  assumes "pc \<in> {[], ''preservation''}"
  obtains doc w' doc' where "svc_replaceContainer (dev_service sample_kms sample_lib 100) sample_env2 ''01''
      (CanonicalHash [72, 105]) data pc sample_world = (Inr doc, w')" and "svc_Get ''01'' (sub_caller ''ana'') w' = Inr doc'"
proof -
  let ?sv = "dev_service sample_kms sample_lib 100"
  obtain d where d: "rows (w_meta sample_world) = [''01'' \<mapsto> d]" "d_Kind d = ''container''" "d_Status d = ''signed''"
      "d_ContentHash d = CanonicalHash [72, 105]" "d_ID d = ''01''" "d_ParentID d = []"
      and acl: "acl (w_meta sample_world) = [\<lparr>g_ChainRoot = ''01'', g_Kind = ''sub'', g_Principal = ''ana'', g_Rights = [''read'', ''cosign'']\<rparr>]"
    by (rule sample_world_row)
  have full: "env_full sample_env2" by (simp add: env_full_def sample_env2_def sample_env_def)
  obtain keyRef sealed where st: "sealAndStore ?sv sample_env2 data sample_world =
      (Inr (e_objKey sample_env2, keyRef), sample_world\<lparr>w_blob := w_blob sample_world\<lparr>objs := (objs (w_blob sample_world))(e_objKey sample_env2 \<mapsto> sealed)\<rparr>\<rparr>)"
    by (rule dev_seal [OF sample_env2_ok full])
  define doc where "doc = replace_row 21 \<lparr>ri_ID = ''01'', ri_ExpectedHash = CanonicalHash [72, 105], ri_StorageRef = ''obj2'',
      ri_ContentHash = CanonicalHash data, ri_Size = int (length data), ri_EncryptionKeyRef = keyRef, ri_PreservationClass = pc\<rparr> d"
  have doc: "d_ID doc = ''01''" "d_ParentID doc = []" using d by (simp_all add: doc_def replace_row_def)
  define w' where "w' = delete_refs ?sv [purged_of d] (sample_world\<lparr>w_blob := w_blob sample_world\<lparr>objs := (objs (w_blob sample_world))(e_objKey sample_env2 \<mapsto> sealed)\<rparr>,
      w_meta := put_row doc (w_meta sample_world)\<rparr>)"
  have rep: "svc_replaceContainer ?sv sample_env2 ''01'' (CanonicalHash [72, 105]) data pc sample_world = (Inr doc, w')"
    using st d assms by (auto simp: svc_replaceContainer_def mem_ReplaceContainerBlob_def Let_def doc_def w'_def sample_env2_def
        simp del: delete_refs.simps)
  have "w_meta w' = put_row doc (w_meta sample_world)" by (simp add: w'_def del: delete_refs.simps)
  then have "svc_Get ''01'' (sub_caller ''ana'') w' = Inr (project_freeze (put_row doc (w_meta sample_world)) doc)"
    using acl doc d by (simp add: svc_Get_def mem_Get_def allows_def hasRight_def grant_names_def sub_caller_def
        tenantMatches_def chainRootID_def put_row_def)
  with rep show ?thesis by (rule that)
qed

lemma replace_reads_back_witness:
  "\<exists>doc w' doc'. svc_ReplaceContainer (dev_service sample_kms sample_lib 100) sample_env2 ''01'' (CanonicalHash [72, 105]) [1, 2, 3] sample_world = (Inr doc, w') \<and>
     svc_Content (dev_service sample_kms sample_lib 100) ''01'' (sub_caller ''ana'') w' = Inr (doc', [1, 2, 3])"
proof -
  obtain doc w' doc' where rep: "svc_replaceContainer (dev_service sample_kms sample_lib 100) sample_env2 ''01''
      (CanonicalHash [72, 105]) [1, 2, 3] [] sample_world = (Inr doc, w')" and get: "svc_Get ''01'' (sub_caller ''ana'') w' = Inr doc'"
    by (rule sample_replace [of "[]"]) simp_all
  note rep' = rep [folded svc_ReplaceContainer_def]
  from replace_reads_back [OF reachable_sample_world sample_env2_ok rep' get] rep' show ?thesis by blast
qed

text \<open>C20: a refused replace leaves nothing behind.  When the swap is refused (the head moved, is gone,
  or is no signed form) or any earlier step fails, metadata and stored objects are exactly as
  before the call.\<close>

theorem refused_replace_changes_nothing:
  assumes "svc_reachable (dev_service l lib ttl) NewBlobMemory w" and "env_ok ev (w_meta w)"
    and "svc_replaceContainer (dev_service l lib ttl) ev k h data pc w = (Inl e, w')"
  shows "w_meta w' = w_meta w \<and> objs (w_blob w') = objs (w_blob w)"
proof -
  note r = assms(1) [unfolded dev_service_def]
  have "intact objs (New BlobMemory (LocalKMS l) lib ttl) w" and "tidy objs w"
    using dev.intact_reachable [OF r] dev.tidy_reachable [OF r] by (simp_all add: NewBlobMemory_def)
  then show ?thesis
    using assms(2) assms(3) [unfolded dev_service_def] by (rule dev.replace_refused)
qed

lemma refused_replace_changes_nothing_witness:
  "\<exists>w'. svc_replaceContainer (dev_service sample_kms sample_lib 100) sample_env2 ''99'' ''h'' [1] [] sample_world = (Inl ErrNotFound, w') \<and>
     objs (w_blob w') = objs (w_blob sample_world)"
proof -
  let ?sv = "dev_service sample_kms sample_lib 100"
  obtain d where d: "rows (w_meta sample_world) = [''01'' \<mapsto> d]" by (rule sample_world_row)
  have full: "env_full sample_env2" by (simp add: env_full_def sample_env2_def sample_env_def)
  obtain keyRef sealed where st: "sealAndStore ?sv sample_env2 [1] sample_world =
      (Inr (e_objKey sample_env2, keyRef), sample_world\<lparr>w_blob := w_blob sample_world\<lparr>objs := (objs (w_blob sample_world))(e_objKey sample_env2 \<mapsto> sealed)\<rparr>\<rparr>)"
    by (rule dev_seal [OF sample_env2_ok full])
  obtain w' where rep: "svc_replaceContainer ?sv sample_env2 ''99'' ''h'' [1] [] sample_world = (Inl ErrNotFound, w')"
    using st d by (simp add: svc_replaceContainer_def mem_ReplaceContainerBlob_def)
  from refused_replace_changes_nothing [OF reachable_sample_world sample_env2_ok rep] rep show ?thesis by blast
qed

section \<open>Destroying a chain's bytes\<close>

text \<open>C15: deletion is reference-counted and complete.  When a caller's successful delete removes the last
  access entry of a chain, no object any row of the chain pointed at is left in the blob store;
  while somebody else keeps access, not one stored object is touched.\<close>

theorem delete_destroys_chain:
  assumes "svc_reachable (dev_service l lib ttl) NewBlobMemory w"
    and "visits ord1 (rows (w_meta w))" and "visits ord2 (rows (w_meta w))"
    and "svc_Delete (dev_service l lib ttl) ord1 ord2 clk k c w = (Inr doc, w')" and "rows (w_meta w) k = Some d"
  shows "if \<exists>g \<in> set (acl (w_meta w')). g_ChainRoot g = chainRootID d
    then objs (w_blob w') = objs (w_blob w)
    else \<forall>x \<in> ran (rows (w_meta w)). in_chain (chainRootID d) x \<longrightarrow> objs (w_blob w') (d_StorageRef x) = None"
proof -
  note r = assms(1) [unfolded dev_service_def]
  have "intact objs (New BlobMemory (LocalKMS l) lib ttl) w" and "tidy objs w"
    using dev.intact_reachable [OF r] dev.tidy_reachable [OF r] by (simp_all add: NewBlobMemory_def)
  then show ?thesis
    using assms(2,3) assms(4) [unfolded dev_service_def] assms(5) by (rule dev.delete_shreds)
qed

lemma delete_destroys_chain_witness:
  "\<exists>doc w'. svc_Delete (dev_service sample_kms sample_lib 100) [''01''] [''01''] (\<lambda>_. 30) ''01'' (sub_caller ''ana'') sample_world = (Inr doc, w') \<and>
     objs (w_blob w') ''obj1'' = None"
proof -
  let ?sv = "dev_service sample_kms sample_lib 100"
  obtain d where get: "svc_Get ''01'' (sub_caller ''ana'') sample_world = Inr d" and ref: "d_StorageRef d = ''obj1''"
      and d: "rows (w_meta sample_world) = [''01'' \<mapsto> d]" "d_Status d = ''signed''" "d_ID d = ''01''" "d_ParentID d = []" "\<not> d_LegalHold d"
      and acl: "acl (w_meta sample_world) = [\<lparr>g_ChainRoot = ''01'', g_Kind = ''sub'', g_Principal = ''ana'', g_Rights = [''read'', ''cosign'']\<rparr>]"
    by (rule sample_world_row) blast
  have v: "visits [''01''] (rows (w_meta sample_world))" using d(1) by (simp add: visits_def)
  have root: "chainRootID d = ''01''" using d by (simp add: chainRootID_def)
  have al: "allows (w_meta sample_world) ''01'' (sub_caller ''ana'') ''read''"
    using acl by (simp add: allows_def hasRight_def grant_names_def sub_caller_def)
  have kept: "kept_grants ''01'' (sub_caller ''ana'') (w_meta sample_world) = []"
    using acl by (simp add: kept_grants_def grant_names_def sub_caller_def)
  obtain ps m where pc: "purge_chain ''01'' (\<lambda>_. 30) [''01''] ((w_meta sample_world)\<lparr>acl := []\<rparr>) = (ps, m)"
    by fastforce
  then have "acl m = []" using d root by (auto simp: put_row_def split: if_splits)
  obtain w' where del: "svc_Delete ?sv [''01''] [''01''] (\<lambda>_. 30) ''01'' (sub_caller ''ana'') sample_world = (Inr d, w')"
      and w': "acl (w_meta w') = []"
  proof
    have "mem_RemoveAccess [''01''] [''01''] (\<lambda>_. 30) ''01'' (sub_caller ''ana'') (w_meta sample_world) = (Inr ps, m)"
      using d al kept root pc by (simp add: mem_RemoveAccess_def Let_def tenantMatches_def sub_caller_def range_vals_def)
    then show "svc_Delete ?sv [''01''] [''01''] (\<lambda>_. 30) ''01'' (sub_caller ''ana'') sample_world =
        (Inr d, delete_refs ?sv ps (sample_world\<lparr>w_meta := m\<rparr>))"
      using get by (simp add: svc_Delete_def svc_Get_def)
  qed (simp add: \<open>acl m = []\<close>)
  have "\<forall>x \<in> ran (rows (w_meta sample_world)). in_chain ''01'' x \<longrightarrow> objs (w_blob w') (d_StorageRef x) = None"
    using delete_destroys_chain [OF reachable_sample_world v v del, of d] d root w' by simp
  then show ?thesis using d ref del by (auto simp: in_chain_def)
qed

section \<open>Bundle members\<close>

lemma next_free_fresh: "next_free seen name n \<notin> set seen"
  by (induction seen name n rule: next_free.induct) (subst next_free.simps, simp)

lemma uniqueObjectName_fresh:
  "uniqueObjectName seen name i = (c, seen') \<Longrightarrow> c \<notin> set seen \<and> seen' = c # seen"
  using next_free_fresh by (auto simp: uniqueObjectName_def Let_def split: if_split_asm)

lemma bundle_files_members:
  "bundle_files sv owner w seen i ids = Inr fs \<Longrightarrow>
     distinct (map pf_Name fs) \<and> set (map pf_Name fs) \<inter> set seen = {} \<and>
     list_all2 (\<lambda>k f. \<exists>doc. svc_Content sv k (sub_caller owner) w = Inr (doc, pf_Data f) \<and> d_Owner doc = owner \<and>
       Bundleable (d_Kind doc) (d_Status doc)) ids fs"
proof (induction ids arbitrary: seen i fs)
  case Nil
  then show ?case by simp
next
  case (Cons k ids)
  from Cons.prems obtain doc data where c: "svc_Content sv k (sub_caller owner) w = Inr (doc, data)"
    by (auto split: sum.splits)
  obtain name seen' where u: "uniqueObjectName seen (d_Filename doc) i = (name, seen')" by fastforce
  note fresh = uniqueObjectName_fresh [OF u]
  from Cons.prems c have ok: "d_Owner doc = owner" "Bundleable (d_Kind doc) (d_Status doc)"
    by (auto split: if_splits)
  obtain fs' where fs': "bundle_files sv owner w seen' (Suc i) ids = Inr fs'"
    using Cons.prems c u ok by (auto split: sum.splits)
  with Cons.prems c u ok have "fs = \<lparr>pf_Name = name, pf_Data = data\<rparr> # fs'" by simp
  with Cons.IH [OF fs'] fresh c ok show ?case by auto
qed

text \<open>C30: the members of a bundle.  When the member loop of \<open>Bundle\<close> accepts a list of documents, it yields
  one file per document in the given order, each with exactly the decrypted bytes of a document
  the owner owns and may bundle, under pairwise different names, however many share a filename;
  finding an unused name always ends.\<close>

theorem bundle_members_exact:
  assumes "bundle_files sv owner w [] 0 ids = Inr fs"
  shows "length fs = length ids \<and> distinct (map pf_Name fs) \<and>
    (\<forall>i < length ids. \<exists>doc. svc_Content sv (ids ! i) (sub_caller owner) w = Inr (doc, pf_Data (fs ! i)) \<and>
       d_Owner doc = owner \<and> Bundleable (d_Kind doc) (d_Status doc))"
  using bundle_files_members [OF assms] by (auto simp: list_all2_conv_all_nth)

lemma bundle_members_exact_witness:
  "\<exists>fs. bundle_files (dev_service sample_kms sample_lib 100) ''ana'' sample_world [] 0 [''01'', ''01''] = Inr fs \<and>
     length fs = 2 \<and> distinct (map pf_Name fs)"
proof -
  let ?sv = "dev_service sample_kms sample_lib 100"
  obtain d where get: "mem_Get (w_meta sample_world) ''01'' (sub_caller ''ana'') = Inr d" and ref: "d_StorageRef d = ''obj1''"
      and d: "d_Kind d = ''container''" "d_Status d = ''signed''" "d_Owner d = ''ana''"
    by (rule sample_world_row) (auto simp: svc_Get_def)
  obtain data where "svc_Content ?sv ''01'' (sub_caller ''ana'') sample_world = Inr (d, data)"
    using dev.Content_intact [OF dev.intact_reachable [OF reachable_sample_world [unfolded dev_service_def]] get
        mem_blobs.get_ok] ref by (auto simp: dev_service_def)
  moreover obtain n1 s1 where "uniqueObjectName [] (d_Filename d) 0 = (n1, s1)" by fastforce
  moreover obtain n2 s2 where "uniqueObjectName s1 (d_Filename d) (Suc 0) = (n2, s2)" by fastforce
  ultimately obtain fs where fs: "bundle_files ?sv ''ana'' sample_world [] 0 [''01'', ''01''] = Inr fs"
    using d by (simp add: Bundleable_def)
  from bundle_members_exact [OF fs] fs show ?thesis by simp
qed

end
