(* ===== verification/Retention.thy ===== *)
theory Retention
  imports ServiceProps
begin

text \<open>
  \<open>tasks/retention.go\<close>: the background task that enforces the retention dates.  A run sweeps due
  rows in batches until a batch comes back short, then, if a history window is configured, erases
  old terminal records the same way.  The two loops may run arbitrarily long, so they are partial
  functions with not returning as \<open>None\<close>; that a run returns is proved.

  The ticker and the goroutine that repeat the run are not modelled, nor the log lines.
\<close>

section \<open>The task\<close>

record retention_config =
  rc_Batch :: int
  rc_HistoryKeep :: duration

text \<open>
  What a run takes from outside: the instant it reads, the orders in which the store's loops visit
  the rows in iteration \<open>i\<close> (given over all rows; a loop meets those still present), and the store's
  clock.
\<close>

record run_env =
  re_now :: time
  re_sweep :: "nat \<Rightarrow> string list"
  re_history :: "nat \<Rightarrow> string list"
  re_orphans :: "nat \<Rightarrow> string list"
  re_clk :: "nat \<Rightarrow> string \<Rightarrow> time"

definition visiting :: "string list \<Rightarrow> memory \<Rightarrow> string list" where
  "visiting ord m = filter (\<lambda>k. rows m k \<noteq> None) ord"

partial_function (option) sweep_loop ::
  "'b service \<Rightarrow> run_env \<Rightarrow> int \<Rightarrow> nat \<Rightarrow> int \<Rightarrow> 'b world \<Rightarrow> (int, 'b world) res option" where
  "sweep_loop sv re batch i total_n w =
     (case svc_Sweep sv (visiting (re_sweep re i) (w_meta w)) (re_clk re i) (re_now re) batch w of
        (Inl e, w1) \<Rightarrow> Some (Inl e, w1)
      | (Inr n, w1) \<Rightarrow>
          if n < batch then Some (Inr (total_n + n), w1)
          else sweep_loop sv re batch (Suc i) (total_n + n) w1)"

partial_function (option) history_loop ::
  "run_env \<Rightarrow> time \<Rightarrow> int \<Rightarrow> nat \<Rightarrow> int \<Rightarrow> 'b world \<Rightarrow> (int, 'b world) res option" where
  "history_loop re before batch i erased w =
     (case svc_SweepHistory (visiting (re_history re i) (w_meta w)) (re_orphans re i) before batch w of
        (Inl e, w1) \<Rightarrow> Some (Inl e, w1)
      | (Inr n, w1) \<Rightarrow>
          if n < batch then Some (Inr (erased + n), w1)
          else history_loop re before batch (Suc i) (erased + n) w1)"

text \<open>What a run leaves beside the state: the count it audits, if any, and the error that stopped it.\<close>

record run_result =
  rr_swept :: "int option"
  rr_failed :: "err option"

definition runOnce :: "'b service \<Rightarrow> retention_config \<Rightarrow> run_env \<Rightarrow> 'b world \<Rightarrow> (run_result \<times> 'b world) option" where
  "runOnce sv cfg re w =
     (let batch = (if rc_Batch cfg \<le> 0 then 500 else rc_Batch cfg) in
      case sweep_loop sv re batch 0 0 w of
        None \<Rightarrow> None
      | Some (Inl e, w1) \<Rightarrow> Some (\<lparr>rr_swept = None, rr_failed = Some e\<rparr>, w1)
      | Some (Inr total_n, w1) \<Rightarrow>
          (let swept = (if total_n > 0 then Some total_n else None) in
           if rc_HistoryKeep cfg \<le> 0 then Some (\<lparr>rr_swept = swept, rr_failed = None\<rparr>, w1)
           else case history_loop re (re_now re - rc_HistoryKeep cfg) batch 0 0 w1 of
               None \<Rightarrow> None
             | Some (Inl e, w2) \<Rightarrow> Some (\<lparr>rr_swept = swept, rr_failed = Some e\<rparr>, w2)
             | Some (Inr erased, w2) \<Rightarrow> Some (\<lparr>rr_swept = swept, rr_failed = None\<rparr>, w2)))"

section \<open>One iteration\<close>

lemma visits_visiting:
  assumes "visits ord (rows m0)" and "dom (rows m) \<subseteq> dom (rows m0)"
  shows "visits (visiting ord m) (rows m)"
  using assms by (auto simp: visits_def visiting_def)

definition due_keys :: "time \<Rightarrow> memory \<Rightarrow> string set" where
  "due_keys now m = {k. \<exists>d. rows m k = Some d \<and> due now d}"

definition old_keys :: "time \<Rightarrow> memory \<Rightarrow> string set" where
  "old_keys before m = {k. \<exists>d. rows m k = Some d \<and> old_record before d}"

lemma finite_due_keys: "finite (dom (rows m)) \<Longrightarrow> finite (due_keys now m)"
  by (rule finite_subset [of _ "dom (rows m)"]) (auto simp: due_keys_def)

lemma finite_old_keys: "finite (dom (rows m)) \<Longrightarrow> finite (old_keys before m)"
  by (rule finite_subset [of _ "dom (rows m)"]) (auto simp: old_keys_def)

text \<open>The keys of a batch of rows: as many as there are rows.\<close>

lemma batch_keys:
  assumes "wf_mem m" and "visits ord (rows m)" and "ps = take n (filter P (range_vals ord (rows m)))"
  shows "card (d_ID ` set ps) = length ps" and "d_ID ` set ps \<subseteq> {k. \<exists>d. rows m k = Some d \<and> P d}"
    and "length ps < n \<Longrightarrow> d_ID ` set ps = {k. \<exists>d. rows m k = Some d \<and> P d}"
proof -
  let ?xs = "filter P (range_vals ord (rows m))"
  have ran: "set ?xs = {d \<in> ran (rows m). P d}" using assms(2) by (auto simp: visits_rows_set)
  have sub: "set ps \<subseteq> set ?xs" unfolding assms(3) by (rule set_take_subset)
  have id: "rows m k = Some d \<Longrightarrow> d_ID d = k" for k d using assms(1) by (simp add: wf_mem_def)
  have at: "rows m (d_ID d) = Some d" if "d \<in> set ps" for d
    using that sub ran id by (auto simp: ran_def)
  have "inj_on d_ID (set ps)"
  proof (rule inj_onI)
    fix x y assume xy: "x \<in> set ps" "y \<in> set ps" "d_ID x = d_ID y"
    have "Some x = rows m (d_ID y)" using at [OF xy(1)] unfolding xy(3) by (rule sym)
    also have "\<dots> = Some y" by (rule at [OF xy(2)])
    finally show "x = y" by (rule option.inject [THEN iffD1])
  qed
  moreover have "distinct ps" using distinct_rows [OF assms(1,2)] by (simp add: assms(3))
  ultimately show "card (d_ID ` set ps) = length ps" by (simp add: card_image distinct_card)
  have keys: "d_ID ` set ?xs = {k. \<exists>d. rows m k = Some d \<and> P d}"
  proof (intro equalityI subsetI)
    fix k assume "k \<in> {k. \<exists>d. rows m k = Some d \<and> P d}"
    then obtain d where "rows m k = Some d" "P d" by blast
    then show "k \<in> d_ID ` set ?xs" unfolding ran using id by (intro image_eqI [of _ _ d]) (auto intro: ranI)
  next
    fix k assume "k \<in> d_ID ` set ?xs"
    then show "k \<in> {k. \<exists>d. rows m k = Some d \<and> P d}" unfolding ran using id by (auto simp: ran_def)
  qed
  then show "d_ID ` set ps \<subseteq> {k. \<exists>d. rows m k = Some d \<and> P d}" using sub by blast
  show "d_ID ` set ps = {k. \<exists>d. rows m k = Some d \<and> P d}" if "length ps < n"
    using that keys by (simp add: assms(3))
qed

lemma Sweep_once:
  assumes "wf_mem (w_meta w)" and "visits ord (rows (w_meta w))" and "0 < batch"
  obtains n ks refs where "svc_Sweep sv ord clk now batch w =
      (Inr n, delete_refs sv refs (w\<lparr>w_meta := purge_keys ''expired'' clk ks (w_meta w)\<rparr>))"
    and "n = int (card ks)" and "ks \<subseteq> due_keys now (w_meta w)" and "n < batch \<Longrightarrow> ks = due_keys now (w_meta w)"
proof -
  define ps where "ps = take (nat batch) (filter (due now) (range_vals ord (rows (w_meta w))))"
  note b = batch_keys [OF assms(1,2) ps_def]
  have "svc_Sweep sv ord clk now batch w = (Inr (int (length ps)),
      delete_refs sv (map purged_of ps) (w\<lparr>w_meta := purge_keys ''expired'' clk (d_ID ` set ps) (w_meta w)\<rparr>))"
    using sweep_rows_eq [OF assms(1), of ord now clk batch "[]"] assms(2,3)
    by (simp add: svc_Sweep_def mem_SweepRetention_def visits_def Let_def take_limit_def ps_def)
  then show ?thesis
  proof (rule that)
    show "int (length ps) = int (card (d_ID ` set ps))" using b(1) by simp
    show "d_ID ` set ps \<subseteq> due_keys now (w_meta w)" using b(2) by (simp add: due_keys_def)
    show "d_ID ` set ps = due_keys now (w_meta w)" if "int (length ps) < batch"
      using b(3) that by (simp add: due_keys_def)
  qed
qed

lemma SweepHistory_once:
  assumes "wf_mem (w_meta w)" and "visits ord1 (rows (w_meta w))" and "0 < batch"
  obtains n ks where "svc_SweepHistory ord1 ord2 before batch w =
      (Inr n, w\<lparr>w_meta := drop_orphan_acl ord2 (drop_keys ks (w_meta w))\<rparr>)"
    and "n = int (card ks)" and "ks \<subseteq> old_keys before (w_meta w)" and "n < batch \<Longrightarrow> ks = old_keys before (w_meta w)"
proof -
  define ps where "ps = take (nat batch) (filter (old_record before) (range_vals ord1 (rows (w_meta w))))"
  note b = batch_keys [OF assms(1,2) ps_def]
  have "svc_SweepHistory ord1 ord2 before batch w =
      (Inr (int (length ps)), w\<lparr>w_meta := drop_orphan_acl ord2 (drop_keys (d_ID ` set ps) (w_meta w))\<rparr>)"
    using history_rows_eq [OF assms(1), of ord1 before batch 0] assms(2,3)
    by (simp add: svc_SweepHistory_def on_meta_def mem_SweepHistory_def visits_def Let_def ps_def)
  then show ?thesis
  proof (rule that)
    show "int (length ps) = int (card (d_ID ` set ps))" using b(1) by simp
    show "d_ID ` set ps \<subseteq> old_keys before (w_meta w)" using b(2) by (simp add: old_keys_def)
    show "d_ID ` set ps = old_keys before (w_meta w)" if "int (length ps) < batch"
      using b(3) that by (simp add: old_keys_def)
  qed
qed

section \<open>The loops end, and drain\<close>

text \<open>Every due row expired, at the clock of one of the iterations; everything else as it was.\<close>

definition swept :: "run_env \<Rightarrow> memory \<Rightarrow> memory \<Rightarrow> bool" where
  "swept re m m' \<longleftrightarrow> acl m' = acl m \<and>
     (\<forall>k. case rows m k of None \<Rightarrow> rows m' k = None
        | Some d \<Rightarrow> if due (re_now re) d then \<exists>i. rows m' k = Some (purge_row ''expired'' (re_clk re i k) d)
                    else rows m' k = Some d)"

lemma not_due_purged: "\<not> due now (purge_row ''expired'' t d)"
  by (simp add: due_def terminal_def purge_row_def)

lemma due_keys_purge:
  "ks \<subseteq> due_keys now m \<Longrightarrow> due_keys now (purge_keys ''expired'' clk ks m) = due_keys now m - ks"
  by (auto simp: due_keys_def rows_purge_keys not_due_purged)

lemma dom_purge_keys: "dom (rows (purge_keys st clk ks m)) = dom (rows m)"
  by (auto simp: rows_purge_keys dom_def)

lemma swept_purge:
  "swept re m (purge_keys ''expired'' (re_clk re i) (due_keys (re_now re) m) m)"
  by (auto simp: swept_def rows_purge_keys due_keys_def split: option.split)

lemma swept_after_purge:
  assumes "ks \<subseteq> due_keys (re_now re) m" and "swept re (purge_keys ''expired'' (re_clk re i) ks m) m'"
  shows "swept re m m'"
  unfolding swept_def
proof (intro conjI allI)
  show "acl m' = acl m" using assms(2) by (simp add: swept_def)
  fix k
  have at: "case rows (purge_keys ''expired'' (re_clk re i) ks m) k of None \<Rightarrow> rows m' k = None
      | Some d \<Rightarrow> if due (re_now re) d then \<exists>i. rows m' k = Some (purge_row ''expired'' (re_clk re i k) d)
                  else rows m' k = Some d"
    using assms(2) by (simp add: swept_def)
  show "case rows m k of None \<Rightarrow> rows m' k = None
      | Some d \<Rightarrow> if due (re_now re) d then \<exists>i. rows m' k = Some (purge_row ''expired'' (re_clk re i k) d)
                  else rows m' k = Some d"
  proof (cases "k \<in> ks")
    case True
    then obtain d where "rows m k = Some d" "due (re_now re) d" using assms(1) by (auto simp: due_keys_def)
    with True at show ?thesis by (auto simp: rows_purge_keys not_due_purged)
  next
    case False
    with at show ?thesis by (simp add: rows_purge_keys)
  qed
qed

lemma reachable_call:
  "svc_reachable sv b0 w \<Longrightarrow> svc_ok op (w_meta w) \<Longrightarrow> svc_exec sv op w = w' \<Longrightarrow> svc_reachable sv b0 w'"
  by (auto intro: svc_reachable.step svc_step.call)

lemma sweep_loop_drains:
  assumes "svc_reachable sv b0 w" and "\<And>w. svc_reachable sv b0 w \<Longrightarrow> wf_mem (w_meta w)"
    and "\<And>i. visits (re_sweep re i) (rows m0)" and "dom (rows (w_meta w)) = dom (rows m0)" and "0 < batch"
  shows "\<exists>w'. sweep_loop sv re batch i acc w = Some (Inr (acc + int (card (due_keys (re_now re) (w_meta w)))), w') \<and>
    swept re (w_meta w) (w_meta w') \<and> svc_reachable sv b0 w'"
  using assms(1,4)
proof (induction "card (due_keys (re_now re) (w_meta w))" arbitrary: i acc w rule: less_induct)
  case less
  let ?m = "w_meta w" and ?ord = "visiting (re_sweep re i) (w_meta w)"
  have wf: "wf_mem ?m" using less.prems(1) by (rule assms(2))
  have v: "visits ?ord (rows ?m)" using less.prems(2) by (intro visits_visiting [OF assms(3)]) simp
  have fin: "finite (due_keys (re_now re) ?m)" by (rule finite_due_keys [OF visits_finite [OF v]])
  obtain n ks refs where once: "svc_Sweep sv ?ord (re_clk re i) (re_now re) batch w =
      (Inr n, delete_refs sv refs (w\<lparr>w_meta := purge_keys ''expired'' (re_clk re i) ks ?m\<rparr>))"
    and n: "n = int (card ks)" and ks: "ks \<subseteq> due_keys (re_now re) ?m" and all: "n < batch \<Longrightarrow> ks = due_keys (re_now re) ?m"
    by (rule Sweep_once [OF wf v assms(5), of sv "re_clk re i" "re_now re"]) (rule that)
  let ?w1 = "delete_refs sv refs (w\<lparr>w_meta := purge_keys ''expired'' (re_clk re i) ks ?m\<rparr>)"
  have r1: "svc_reachable sv b0 ?w1"
    by (rule reachable_call [OF less.prems(1), of "SvSweep ?ord (re_clk re i) (re_now re) batch"]) (use v once in simp_all)
  show ?case
  proof (cases "n < batch")
    case True
    then have "sweep_loop sv re batch i acc w = Some (Inr (acc + n), ?w1)" using once by (subst sweep_loop.simps) simp
    moreover have "swept re ?m (w_meta ?w1)" using swept_purge [of re ?m i] unfolding all [OF True, symmetric] by simp
    ultimately show ?thesis using r1 n unfolding all [OF True, symmetric] by blast
  next
    case False
    have left: "due_keys (re_now re) (w_meta ?w1) = due_keys (re_now re) ?m - ks" using ks by (simp add: due_keys_purge)
    have le: "card ks \<le> card (due_keys (re_now re) ?m)" using fin ks by (rule card_mono)
    have card: "card (due_keys (re_now re) (w_meta ?w1)) = card (due_keys (re_now re) ?m) - card ks"
      unfolding left using fin ks by (simp add: card_Diff_subset finite_subset)
    have pos: "0 < card ks" using False n assms(5) by simp
    then have lt: "card (due_keys (re_now re) (w_meta ?w1)) < card (due_keys (re_now re) ?m)" using card le by simp
    have dom: "dom (rows (w_meta ?w1)) = dom (rows m0)" using less.prems(2) by (simp add: dom_purge_keys)
    from less.hyps [OF lt r1 dom, of "Suc i" "acc + n"] obtain w' where
      "sweep_loop sv re batch (Suc i) (acc + n) ?w1 = Some (Inr (acc + n + int (card (due_keys (re_now re) (w_meta ?w1)))), w')"
      "swept re (w_meta ?w1) (w_meta w')" "svc_reachable sv b0 w'" by blast
    moreover have "acc + n + int (card (due_keys (re_now re) (w_meta ?w1))) = acc + int (card (due_keys (re_now re) ?m))"
      using card le n by simp
    moreover have "sweep_loop sv re batch i acc w = sweep_loop sv re batch (Suc i) (acc + n) ?w1"
      using once False by (subst sweep_loop.simps) simp
    ultimately show ?thesis using swept_after_purge [OF ks] by auto
  qed
qed

text \<open>Every old record erased, and with it the access entries of chains that have no row left.\<close>

definition erased :: "time \<Rightarrow> memory \<Rightarrow> memory \<Rightarrow> bool" where
  "erased before m m' \<longleftrightarrow> rows m' = rows m |` (- old_keys before m) \<and>
     (\<forall>g. g \<in> set (acl m') \<longleftrightarrow> g \<in> set (acl m) \<and> (\<exists>d \<in> ran (rows m'). chainRootID d = g_ChainRoot g))"

lemma set_acl_drop_orphan:
  assumes "dom (rows m) \<subseteq> set ord"
  shows "g \<in> set (acl (drop_orphan_acl ord m)) \<longleftrightarrow>
    g \<in> set (acl m) \<and> (\<exists>d \<in> ran (rows m). chainRootID d = g_ChainRoot g)"
proof -
  have "set (range_vals ord (rows m)) = ran (rows m)" using assms by (auto simp: set_range_vals ran_def)
  then show ?thesis by (simp add: drop_orphan_acl_def list_ex_iff)
qed

lemma old_keys_drop: "old_keys before (drop_orphan_acl ord (drop_keys ks m)) = old_keys before m - ks"
  by (auto simp: old_keys_def restrict_map_def)

lemma erased_after_drop:
  assumes "ks \<subseteq> old_keys before m" and "dom (rows (drop_keys ks m)) \<subseteq> set ord"
    and "erased before (drop_orphan_acl ord (drop_keys ks m)) m'"
  shows "erased before m m'"
proof -
  have "- ks \<inter> - (old_keys before m - ks) = - old_keys before m" using assms(1) by blast
  then have "rows m' = rows m |` (- old_keys before m)"
    using assms(3) by (simp only: erased_def old_keys_drop rows_drop_orphan_acl rows_drop_keys restrict_restrict)
  moreover have "ran (rows m') \<subseteq> ran (rows (drop_keys ks m))"
    using assms(3) by (auto simp: erased_def ran_def restrict_map_def split: if_splits)
  ultimately show ?thesis
    using assms(3) set_acl_drop_orphan [OF assms(2)] unfolding erased_def acl_drop_keys by blast
qed

lemma history_loop_drains:
  assumes "svc_reachable sv b0 w" and "\<And>w. svc_reachable sv b0 w \<Longrightarrow> wf_mem (w_meta w)"
    and "\<And>i. visits (re_history re i) (rows m0)" and "\<And>i. visits (re_orphans re i) (rows m0)"
    and "dom (rows (w_meta w)) \<subseteq> dom (rows m0)" and "0 < batch"
  shows "\<exists>w'. history_loop re before batch i acc w = Some (Inr (acc + int (card (old_keys before (w_meta w)))), w') \<and>
    erased before (w_meta w) (w_meta w') \<and> w_blob w' = w_blob w \<and> svc_reachable sv b0 w'"
  using assms(1,5)
proof (induction "card (old_keys before (w_meta w))" arbitrary: i acc w rule: less_induct)
  case less
  let ?m = "w_meta w" and ?ord = "visiting (re_history re i) (w_meta w)"
  have wf: "wf_mem ?m" using less.prems(1) by (rule assms(2))
  have v: "visits ?ord (rows ?m)" using less.prems(2) by (intro visits_visiting [OF assms(3)])
  have fin: "finite (old_keys before ?m)" by (rule finite_old_keys [OF visits_finite [OF v]])
  obtain n ks where once: "svc_SweepHistory ?ord (re_orphans re i) before batch w =
      (Inr n, w\<lparr>w_meta := drop_orphan_acl (re_orphans re i) (drop_keys ks ?m)\<rparr>)"
    and n: "n = int (card ks)" and ks: "ks \<subseteq> old_keys before ?m" and all: "n < batch \<Longrightarrow> ks = old_keys before ?m"
    by (rule SweepHistory_once [OF wf v assms(6), of "re_orphans re i" before]) (rule that)
  let ?w1 = "w\<lparr>w_meta := drop_orphan_acl (re_orphans re i) (drop_keys ks ?m)\<rparr>"
  have r1: "svc_reachable sv b0 ?w1"
    by (rule reachable_call [OF less.prems(1), of "SvSweepHistory ?ord (re_orphans re i) before batch"])
       (use v once in simp_all)
  have ord2: "dom (rows (drop_keys ks ?m)) \<subseteq> set (re_orphans re i)"
    using less.prems(2) assms(4) [of i] by (auto simp: visits_def)
  show ?case
  proof (cases "n < batch")
    case True
    have "history_loop re before batch i acc w = Some (Inr (acc + n), ?w1)"
      using True once by (subst history_loop.simps) simp
    moreover have "erased before ?m (w_meta ?w1)"
      using set_acl_drop_orphan [OF ord2] unfolding erased_def all [OF True, symmetric] by simp
    ultimately show ?thesis using r1 n unfolding all [OF True, symmetric] by auto
  next
    case False
    have left: "old_keys before (w_meta ?w1) = old_keys before ?m - ks" by (simp add: old_keys_drop)
    have le: "card ks \<le> card (old_keys before ?m)" using fin ks by (rule card_mono)
    have card: "card (old_keys before (w_meta ?w1)) = card (old_keys before ?m) - card ks"
      unfolding left using fin ks by (simp add: card_Diff_subset finite_subset)
    have pos: "0 < card ks" using False n assms(6) by simp
    then have lt: "card (old_keys before (w_meta ?w1)) < card (old_keys before ?m)" using card le by simp
    have dom: "dom (rows (w_meta ?w1)) \<subseteq> dom (rows m0)" using less.prems(2) by auto
    from less.hyps [OF lt r1 dom, of "Suc i" "acc + n"] obtain w' where
      "history_loop re before batch (Suc i) (acc + n) ?w1 = Some (Inr (acc + n + int (card (old_keys before (w_meta ?w1)))), w')"
      "erased before (w_meta ?w1) (w_meta w')" "w_blob w' = w_blob ?w1" "svc_reachable sv b0 w'" by blast
    moreover have "acc + n + int (card (old_keys before (w_meta ?w1))) = acc + int (card (old_keys before ?m))"
      using card le n by simp
    moreover have "history_loop re before batch i acc w = history_loop re before batch (Suc i) (acc + n) ?w1"
      using once False by (subst history_loop.simps) simp
    ultimately show ?thesis using erased_after_drop [OF ks ord2] by auto
  qed
qed

section \<open>A run\<close>

lemma due_keys_swept:
  assumes "swept re m m'"
  shows "due_keys (re_now re) m' = {}"
proof -
  have "\<not> due (re_now re) d" if "rows m' k = Some d" for k d
    using assms [unfolded swept_def, THEN conjunct2, THEN spec, of k] that not_due_purged
    by (auto split: option.splits if_splits)
  then show ?thesis by (auto simp: due_keys_def)
qed

lemma due_keys_erased: "erased before m m' \<Longrightarrow> due_keys now m = {} \<Longrightarrow> due_keys now m' = {}"
  by (auto simp: erased_def due_keys_def restrict_map_def)

lemma dom_swept: "swept re m m' \<Longrightarrow> dom (rows m') = dom (rows m)"
  by (auto simp: swept_def split: option.splits if_splits)

text \<open>A row that points at bytes after a sweep was there before, as it is, and not due.\<close>

lemma swept_origin:
  assumes "swept re m m'" and "x \<in> ran (rows m')" and "d_StorageRef x \<noteq> []"
  shows "x \<in> ran (rows m) \<and> \<not> due (re_now re) x"
proof -
  obtain k where k: "rows m' k = Some x" using assms(2) by (auto simp: ran_def)
  have at: "case rows m k of None \<Rightarrow> rows m' k = None
      | Some d \<Rightarrow> if due (re_now re) d then \<exists>i. rows m' k = Some (purge_row ''expired'' (re_clk re i k) d)
                  else rows m' k = Some d"
    using assms(1) by (simp add: swept_def)
  show ?thesis
  proof (cases "rows m k")
    case None
    with at k show ?thesis by simp
  next
    case (Some d)
    then have "\<not> due (re_now re) d" using at k assms(3) by (auto simp: purge_row_def)
    with Some at k show ?thesis by (auto intro: ranI)
  qed
qed

text \<open>The objects of the rows that were due are gone after the sweep.\<close>

lemma swept_objects_gone:
  assumes "svc_reachable (dev_service l lib ttl) NewBlobMemory w" and "svc_reachable (dev_service l lib ttl) NewBlobMemory w1"
    and "swept re (w_meta w) (w_meta w1)" and "d \<in> ran (rows (w_meta w))" and "due (re_now re) d"
  shows "objs (w_blob w1) (d_StorageRef d) = None"
proof (rule ccontr)
  assume some: "objs (w_blob w1) (d_StorageRef d) \<noteq> None"
  have "tidy objs w1" using dev.tidy_reachable [OF assms(2) [unfolded dev_service_def]] by (simp add: NewBlobMemory_def)
  with some obtain x where x: "x \<in> ran (rows (w_meta w1))" "d_StorageRef x = d_StorageRef d" "d_StorageRef x \<noteq> []"
    by (auto simp: tidy_def unref_def)
  from swept_origin [OF assms(3) x(1,3)] have old: "x \<in> ran (rows (w_meta w))" "\<not> due (re_now re) x" by simp_all
  have "refs_distinct (w_meta w)"
    using dev.intact_reachable [OF assms(1) [unfolded dev_service_def]] by (simp add: intact_def)
  with old(1) have "x = d" using refs_distinct_ran assms(4) x(2,3) by blast
  then show False using old(2) assms(5) by simp
qed

text \<open>C14: a retention run ends and enforces every date.  From any reachable world, whatever batch size
  is configured, the run returns without error; the rows that were due are expired and all others
  untouched; if a history window is set, the terminal records older than it are erased and nothing
  else; no due row is left, no object a due row pointed at is left in the blob store, and the count
  audited is the number of rows that were due.\<close>

theorem retention_run_drains:
  assumes "svc_reachable (dev_service l lib ttl) NewBlobMemory w"
    and "\<forall>i. visits (re_sweep re i) (rows (w_meta w)) \<and> visits (re_history re i) (rows (w_meta w)) \<and>
           visits (re_orphans re i) (rows (w_meta w))"
  shows "\<exists>w1 w2. runOnce (dev_service l lib ttl) cfg re w =
      Some (\<lparr>rr_swept = (if due_keys (re_now re) (w_meta w) = {} then None
                       else Some (int (card (due_keys (re_now re) (w_meta w))))), rr_failed = None\<rparr>, w2) \<and>
    swept re (w_meta w) (w_meta w1) \<and>
    (if rc_HistoryKeep cfg \<le> 0 then w2 = w1
     else erased (re_now re - rc_HistoryKeep cfg) (w_meta w1) (w_meta w2)) \<and>
    due_keys (re_now re) (w_meta w2) = {} \<and>
    (\<forall>d \<in> ran (rows (w_meta w)). due (re_now re) d \<longrightarrow> objs (w_blob w2) (d_StorageRef d) = None)"
proof -
  let ?sv = "dev_service l lib ttl" and ?now = "re_now re" and ?keep = "rc_HistoryKeep cfg"
  let ?due = "due_keys ?now (w_meta w)"
  let ?batch = "if rc_Batch cfg \<le> 0 then 500 else rc_Batch cfg"
  have batch: "0 < ?batch" by simp
  have wf: "wf_mem (w_meta x)" if "svc_reachable ?sv NewBlobMemory x" for x
    using dev.intact_reachable [OF that [unfolded dev_service_def]] by (simp add: intact_def)
  have fin: "finite ?due" using assms(2) by (blast intro: finite_due_keys visits_finite)
  obtain w1 where l1: "sweep_loop ?sv re ?batch 0 0 w = Some (Inr (int (card ?due)), w1)"
      and sw: "swept re (w_meta w) (w_meta w1)" and r1: "svc_reachable ?sv NewBlobMemory w1"
    using sweep_loop_drains [OF assms(1) wf _ refl batch, of re 0 0] assms(2) by auto
  note clean = swept_objects_gone [OF assms(1) r1 sw]
  have total: "(if 0 < int (card ?due) then Some (int (card ?due)) else None) =
      (if ?due = {} then None else Some (int (card ?due)))"
    using fin by (simp add: card_gt_0_iff)
  show ?thesis
  proof (cases "?keep \<le> 0")
    case True
    then have "runOnce ?sv cfg re w = Some (\<lparr>rr_swept = (if ?due = {} then None else Some (int (card ?due))), rr_failed = None\<rparr>, w1)"
      using l1 total by (simp add: runOnce_def Let_def)
    then show ?thesis
      using True clean by (intro exI [of _ w1] conjI) (simp_all add: sw due_keys_swept [OF sw])
  next
    case False
    obtain n w2 where l2: "history_loop re (?now - ?keep) ?batch 0 0 w1 = Some (Inr n, w2)"
        and er: "erased (?now - ?keep) (w_meta w1) (w_meta w2)" and b: "w_blob w2 = w_blob w1"
      using history_loop_drains [OF r1 wf _ _ eq_refl [OF dom_swept [OF sw]] batch, of re "?now - ?keep" 0 0] assms(2) by auto
    have "runOnce ?sv cfg re w = Some (\<lparr>rr_swept = (if ?due = {} then None else Some (int (card ?due))), rr_failed = None\<rparr>, w2)"
      using l1 l2 total False by (simp add: runOnce_def Let_def)
    then show ?thesis
      using False er clean b
      by (intro exI [of _ w1] exI [of _ w2] conjI) (simp_all add: sw due_keys_erased [OF er due_keys_swept [OF sw]])
  qed
qed

definition sample_run :: run_env where
  "sample_run = \<lparr>re_now = 200, re_sweep = (\<lambda>_. [''01'']), re_history = (\<lambda>_. [''01'']), re_orphans = (\<lambda>_. [''01'']),
     re_clk = (\<lambda>_ _. 201)\<rparr>"

lemma retention_run_drains_witness:
  "\<exists>w2. runOnce (dev_service sample_kms sample_lib 100) \<lparr>rc_Batch = 0, rc_HistoryKeep = 0\<rparr> sample_run sample_world =
       Some (\<lparr>rr_swept = Some 1, rr_failed = None\<rparr>, w2) \<and>
     due_keys 200 (w_meta w2) = {} \<and> objs (w_blob w2) ''obj1'' = None"
proof -
  obtain d where d: "rows (w_meta sample_world) = [''01'' \<mapsto> d]" "d_StorageRef d = ''obj1''" "d_Status d = ''signed''"
      "d_LegalHold d = False" "d_RetentionUntil d = Some 110"
    by (rule sample_world_row)
  then have due: "due 200 d" by (simp add: due_def terminal_def)
  then have keys: "due_keys 200 (w_meta sample_world) = {''01''}" using d by (auto simp: due_keys_def)
  have ran: "d \<in> ran (rows (w_meta sample_world))" using d by (auto intro: ranI)
  have v: "\<forall>i. visits (re_sweep sample_run i) (rows (w_meta sample_world)) \<and>
      visits (re_history sample_run i) (rows (w_meta sample_world)) \<and> visits (re_orphans sample_run i) (rows (w_meta sample_world))"
    using d by (simp add: sample_run_def visits_def)
  have now: "re_now sample_run = 200" by (simp add: sample_run_def)
  from retention_run_drains [OF reachable_sample_world v, of "\<lparr>rc_Batch = 0, rc_HistoryKeep = 0\<rparr>", unfolded now keys]
  obtain w2 where "runOnce (dev_service sample_kms sample_lib 100) \<lparr>rc_Batch = 0, rc_HistoryKeep = 0\<rparr> sample_run sample_world =
       Some (\<lparr>rr_swept = Some 1, rr_failed = None\<rparr>, w2)"
    and "due_keys 200 (w_meta w2) = {}"
    and "\<forall>d \<in> ran (rows (w_meta sample_world)). due 200 d \<longrightarrow> objs (w_blob w2) (d_StorageRef d) = None"
    by auto
  then show ?thesis using ran due d(2) by force
qed

end
