(* ===== verification/TaskLoop.thy ===== *)
theory TaskLoop
  imports Retention
begin

text \<open>
  The life of the retention task (\<open>Start\<close> and \<open>Stop\<close> of \<open>tasks/retention.go\<close>): a goroutine that runs
  once at the start and then on every tick, until it takes the stop signal.  The state is what the
  task's fields and its goroutine hold; the platform starts a task once.
\<close>

section \<open>Steps\<close>

text \<open>Where the goroutine is: not started, inside \<open>runOnce\<close>, at the \<open>select\<close>, or returned.\<close>

datatype loop_point = NotStarted | InRun | AtSelect | Returned

text \<open>
  \<open>t.ticker\<close> set; the ticker not stopped; a tick waiting in its channel (of capacity one); a \<open>Stop\<close> that
  is blocked in its send on the unbuffered \<open>t.stop\<close>; a \<open>Stop\<close> that has returned; the runs begun.
\<close>

record task_state =
  tk_ticker :: bool
  tk_ticking :: bool
  tk_tick :: bool
  tk_loop :: loop_point
  tk_stopping :: bool
  tk_stopped :: bool
  tk_runs :: nat

definition NewRetentionTask :: task_state where
  "NewRetentionTask = \<lparr>tk_ticker = False, tk_ticking = False, tk_tick = False, tk_loop = NotStarted,
     tk_stopping = False, tk_stopped = False, tk_runs = 0\<rparr>"

datatype task_event =
    TaskStart
  | Tick
  | RunEnds
  | TakeTick
  | StopCalled
  | StopIgnored
  | TakeStop

text \<open>A tick that finds one waiting is dropped.  When both a tick and the stop signal are ready, the
  \<open>select\<close> takes either.  A stopped ticker sends no more, but what it has sent may still be taken.\<close>

inductive task_step :: "task_state \<Rightarrow> task_event \<Rightarrow> task_state \<Rightarrow> bool" where
  start: "tk_loop s = NotStarted \<Longrightarrow>
    task_step s TaskStart (s\<lparr>tk_ticker := True, tk_ticking := True, tk_loop := InRun, tk_runs := Suc (tk_runs s)\<rparr>)"
| tick: "tk_ticking s \<Longrightarrow> task_step s Tick (s\<lparr>tk_tick := True\<rparr>)"
| run_ends: "tk_loop s = InRun \<Longrightarrow> task_step s RunEnds (s\<lparr>tk_loop := AtSelect\<rparr>)"
| take_tick: "tk_loop s = AtSelect \<Longrightarrow> tk_tick s \<Longrightarrow>
    task_step s TakeTick (s\<lparr>tk_tick := False, tk_loop := InRun, tk_runs := Suc (tk_runs s)\<rparr>)"
| stop_called: "tk_ticker s \<Longrightarrow> \<not> tk_stopping s \<Longrightarrow>
    task_step s StopCalled (s\<lparr>tk_ticking := False, tk_stopping := True\<rparr>)"
| stop_ignored: "\<not> tk_ticker s \<Longrightarrow> task_step s StopIgnored s"
| take_stop: "tk_loop s = AtSelect \<Longrightarrow> tk_stopping s \<Longrightarrow>
    task_step s TakeStop (s\<lparr>tk_loop := Returned, tk_stopping := False, tk_stopped := True, tk_ticker := False\<rparr>)"

inductive_cases task_stepE: "task_step s e s'"

inductive task_path :: "task_state \<Rightarrow> task_event list \<Rightarrow> task_state \<Rightarrow> bool" where
  stay: "task_path s [] s"
| more: "task_step s e s' \<Longrightarrow> task_path s' es s'' \<Longrightarrow> task_path s (e # es) s''"

inductive_cases task_pathE: "task_path s es s'"

section \<open>Invariant\<close>

text \<open>The goroutine lives exactly while the ticker is set; a blocked \<open>Stop\<close> means a stopped ticker.\<close>

definition task_inv :: "task_state \<Rightarrow> bool" where
  "task_inv s \<longleftrightarrow>
     (tk_ticker s \<longleftrightarrow> tk_loop s = InRun \<or> tk_loop s = AtSelect) \<and>
     (tk_stopping s \<longrightarrow> tk_ticker s \<and> \<not> tk_ticking s) \<and>
     (tk_ticking s \<longrightarrow> tk_ticker s) \<and>
     (tk_stopped s \<longleftrightarrow> tk_loop s = Returned)"

lemma task_inv_step: "task_step s e s' \<Longrightarrow> task_inv s \<Longrightarrow> task_inv s'"
  by (induction rule: task_step.induct) (auto simp: task_inv_def)

lemma task_inv_path: "task_path s es s' \<Longrightarrow> task_inv s \<Longrightarrow> task_inv s'"
  by (induction rule: task_path.induct) (auto intro: task_inv_step)

lemma task_inv_new: "task_inv NewRetentionTask"
  by (simp add: task_inv_def NewRetentionTask_def)

text \<open>Once a \<open>Stop\<close> has returned nothing changes any more.\<close>

lemma stopped_step: "task_step s e s' \<Longrightarrow> task_inv s \<Longrightarrow> tk_stopped s \<Longrightarrow> s' = s"
  by (induction rule: task_step.induct) (auto simp: task_inv_def)

lemma stopped_path: "task_path s es s' \<Longrightarrow> task_inv s \<Longrightarrow> tk_stopped s \<Longrightarrow> s' = s"
  by (induction rule: task_path.induct) (auto dest: stopped_step)

text \<open>The runs begun and the one a waiting tick may still begin; once \<open>Stop\<close> was called they do not grow.\<close>

definition runs_due :: "task_state \<Rightarrow> nat" where
  "runs_due s = tk_runs s + (if tk_tick s then 1 else 0)"

lemma stopping_step:
  "task_step s e s' \<Longrightarrow> task_inv s \<Longrightarrow> tk_stopping s \<Longrightarrow> (tk_stopping s' \<or> tk_stopped s') \<and> runs_due s' = runs_due s"
  by (induction rule: task_step.induct) (auto simp: task_inv_def runs_due_def)

lemma stopping_path:
  "task_path s es s' \<Longrightarrow> task_inv s \<Longrightarrow> tk_stopping s \<or> tk_stopped s \<Longrightarrow> runs_due s' = runs_due s"
proof (induction rule: task_path.induct)
  case (more s e s' es s'')
  have "task_inv s'" using more.hyps(1) more.prems(1) by (rule task_inv_step)
  moreover have "(tk_stopping s' \<or> tk_stopped s') \<and> runs_due s' = runs_due s"
    using stopping_step [OF more.hyps(1)] stopped_step [OF more.hyps(1)] more.prems by auto
  ultimately show ?case using more.IH by simp
qed simp

text \<open>C29: stopping the task ends it, and soon.  After a \<open>Stop\<close> has returned no run is in progress and none
  ever begins; from the call of \<open>Stop\<close> on, at most one more run begins (the tick that was already
  waiting); and a \<open>Stop\<close> that is waiting can always return once the current run, if any, has ended.\<close>

theorem stop_ends_the_task:
  assumes "task_path NewRetentionTask es s"
  shows "(tk_stopped s \<longrightarrow> tk_loop s = Returned \<and> (\<forall>es' s'. task_path s es' s' \<longrightarrow> tk_loop s' = Returned \<and> tk_runs s' = tk_runs s)) \<and>
    (\<forall>s1 es' s'. task_step s StopCalled s1 \<and> task_path s1 es' s' \<longrightarrow> tk_runs s' \<le> tk_runs s + 1) \<and>
    (tk_stopping s \<longrightarrow> (\<exists>es' s'. es' \<in> {[TakeStop], [RunEnds, TakeStop]} \<and> task_path s es' s' \<and> tk_stopped s'))"
proof -
  have inv: "task_inv s" using task_inv_path [OF assms task_inv_new] .
  have "tk_runs s' \<le> tk_runs s + 1" if "task_step s StopCalled s1" "task_path s1 es' s'" for s1 es' s'
  proof -
    have "tk_stopping s1" and "runs_due s1 = runs_due s"
      using that(1) by (auto elim!: task_stepE simp: runs_due_def)
    with stopping_path [OF that(2) task_inv_step [OF that(1) inv]] show ?thesis
      by (simp add: runs_due_def split: if_splits)
  qed
  moreover have "\<exists>es' s'. es' \<in> {[TakeStop], [RunEnds, TakeStop]} \<and> task_path s es' s' \<and> tk_stopped s'"
    if stopping: "tk_stopping s"
  proof (cases "tk_loop s = AtSelect")
    case True
    from task_path.more [OF take_stop [OF this stopping] stay] show ?thesis by fastforce
  next
    case False
    with inv stopping have "tk_loop s = InRun" by (auto simp: task_inv_def)
    then have "task_step s RunEnds (s\<lparr>tk_loop := AtSelect\<rparr>)" by (rule run_ends)
    moreover have "task_step (s\<lparr>tk_loop := AtSelect\<rparr>) TakeStop
        (s\<lparr>tk_loop := Returned, tk_stopping := False, tk_stopped := True, tk_ticker := False\<rparr>)"
      using take_stop [of "s\<lparr>tk_loop := AtSelect\<rparr>"] stopping by simp
    ultimately show ?thesis by (fastforce intro: task_path.intros)
  qed
  moreover have "tk_loop s' = Returned \<and> tk_runs s' = tk_runs s" if "tk_stopped s" and "task_path s es' s'" for es' s'
    using stopped_path [OF that(2) inv that(1)] inv that(1) by (simp add: task_inv_def)
  moreover have "tk_loop s = Returned" if "tk_stopped s" using inv that by (simp add: task_inv_def)
  ultimately show ?thesis by blast
qed

lemma stop_ends_the_task_witness:
  "\<exists>s. task_path NewRetentionTask [TaskStart, StopCalled] s \<and>
     (\<exists>es' s'. es' \<in> {[TakeStop], [RunEnds, TakeStop]} \<and> task_path s es' s' \<and> tk_stopped s')"
proof -
  let ?s1 = "NewRetentionTask\<lparr>tk_ticker := True, tk_ticking := True, tk_loop := InRun, tk_runs := 1\<rparr>"
  let ?s2 = "?s1\<lparr>tk_ticking := False, tk_stopping := True\<rparr>"
  have "task_step NewRetentionTask TaskStart ?s1"
    using start [of NewRetentionTask] by (simp add: NewRetentionTask_def)
  moreover have "task_step ?s1 StopCalled ?s2"
    using stop_called [of ?s1] by (simp add: NewRetentionTask_def)
  ultimately have path: "task_path NewRetentionTask [TaskStart, StopCalled] ?s2"
    by (blast intro: task_path.intros)
  moreover have "tk_stopping ?s2" by simp
  ultimately show ?thesis using stop_ends_the_task [OF path] by blast
qed

end
