(* ===== verification/AuditEvents.thy ===== *)
theory AuditEvents
  imports StoreTypes
begin

text \<open>
  \<open>audit/audit.go\<close>: what the service reports about itself.  A recorder has up to three channels
  (security telemetry, personal-data access records, domain events); each method of it yields the
  events it hands to its channel, none when that channel is not wired.  Delivery is the channel's
  own: a failed delivery is logged by the recorder and changes nothing for its caller, so it does
  not appear here.
\<close>

section \<open>Events\<close>

datatype severity = SeverityInfo | SeverityWarning | SeverityHigh

datatype outcome = OutcomeSuccess | OutcomeFailure | OutcomeDenied

datatype operation = OpRead | OpCreate | OpDelete

datatype category = CategorySecurity | CategorySigning

datatype attr = AttrStr string | AttrInt int

record envelope =
  ev_EventType :: string
  ev_Category :: category
  ev_Actor :: "string option"
  ev_Resource :: "string option"
  ev_Operation :: "operation option"
  ev_Outcome :: outcome
  ev_Severity :: "severity option"
  ev_Attributes :: "(string \<times> attr) list"

text \<open>The severity is the attribute under the security library's own key.\<close>

text \<open>What reaches a channel: a scope denial, a security event, an access record (who read whose
  document), a published domain event.  The fields the code sets to constants (the actor type, the reason of a
  denial; operation, lawful basis, purpose and channel of an access record) are the same in every
  event and left out.\<close>

datatype audit_event =
    Denial (dn_Actor: string) (dn_Scope: string)
  | Security envelope
  | Access (ac_Actor: string) (ac_Subject: string) (ac_Document: string)
  | Publish (pb_Topic: string) envelope

record recorder =
  rd_sec :: bool
  rd_gdpr :: bool
  rd_pub :: bool
  rd_topic :: string

section \<open>Security telemetry\<close>

definition EventIngest :: string where "EventIngest = ''document.ingest''"
definition EventDelete :: string where "EventDelete = ''document.delete''"
definition EventCapExceeded :: string where "EventCapExceeded = ''document.cap_exceeded''"
definition EventIntegrityFailure :: string where "EventIntegrityFailure = ''document.integrity_failure''"
definition EventRetentionSwept :: string where "EventRetentionSwept = ''document.retention_swept''"
definition EventDocUploaded :: string where "EventDocUploaded = ''document.uploaded''"
definition EventDocDeleted :: string where "EventDocDeleted = ''document.deleted''"

definition outcomeOf :: "bool \<Rightarrow> outcome" where
  "outcomeOf success = (if success then OutcomeSuccess else OutcomeFailure)"

definition Denied :: "recorder \<Rightarrow> string \<Rightarrow> string \<Rightarrow> audit_event list" where
  "Denied rd caller requiredScope = (if rd_sec rd then [Denial caller requiredScope] else [])"

definition security :: "recorder \<Rightarrow> string \<Rightarrow> string \<Rightarrow> severity \<Rightarrow> outcome \<Rightarrow> (string \<times> attr) list \<Rightarrow> audit_event list" where
  "security rd eventType caller sev oc attrs =
     (if \<not> rd_sec rd then []
      else [Security
        \<lparr>ev_EventType = eventType, ev_Category = CategorySecurity,
         ev_Actor = (if caller \<noteq> [] then Some caller else None), ev_Resource = None, ev_Operation = None,
         ev_Outcome = oc, ev_Severity = Some sev, ev_Attributes = attrs\<rparr>])"

definition IngestOutcome :: "recorder \<Rightarrow> string \<Rightarrow> bool \<Rightarrow> audit_event list" where
  "IngestOutcome rd caller success = security rd EventIngest caller SeverityInfo (outcomeOf success) []"

definition DeleteOutcome :: "recorder \<Rightarrow> string \<Rightarrow> bool \<Rightarrow> audit_event list" where
  "DeleteOutcome rd caller success = security rd EventDelete caller SeverityInfo (outcomeOf success) []"

definition CapExceeded :: "recorder \<Rightarrow> string \<Rightarrow> audit_event list" where
  "CapExceeded rd caller = security rd EventCapExceeded caller SeverityWarning OutcomeDenied []"

definition IDORAttempt :: "recorder \<Rightarrow> string \<Rightarrow> string \<Rightarrow> audit_event list" where
  "IDORAttempt rd caller documentID =
     security rd ''document.idor_attempt'' caller SeverityWarning OutcomeDenied [(''document_id'', AttrStr documentID)]"

definition IntegrityFailure :: "recorder \<Rightarrow> string \<Rightarrow> string \<Rightarrow> audit_event list" where
  "IntegrityFailure rd caller detail =
     security rd EventIntegrityFailure caller SeverityHigh OutcomeFailure [(''detail'', AttrStr detail)]"

definition RetentionSwept :: "recorder \<Rightarrow> int \<Rightarrow> audit_event list" where
  "RetentionSwept rd purged =
     security rd EventRetentionSwept [] SeverityInfo OutcomeSuccess [(''purged'', AttrInt purged)]"

section \<open>Access records and domain events\<close>

definition DocumentAccessed :: "recorder \<Rightarrow> string \<Rightarrow> string \<Rightarrow> string \<Rightarrow> audit_event list" where
  "DocumentAccessed rd caller owner documentID =
     (if \<not> rd_gdpr rd \<or> owner = [] then [] else [Access caller owner documentID])"

definition domain_event :: "recorder \<Rightarrow> string \<Rightarrow> string \<Rightarrow> operation \<Rightarrow> document \<Rightarrow> audit_event list" where
  "domain_event rd eventType caller op doc =
     (if \<not> rd_pub rd then []
      else [Publish (rd_topic rd)
        \<lparr>ev_EventType = eventType, ev_Category = CategorySigning, ev_Actor = Some caller,
         ev_Resource = Some (d_ID doc), ev_Operation = Some op, ev_Outcome = OutcomeSuccess,
         ev_Severity = None, ev_Attributes =
           [(''kind'', AttrStr (d_Kind doc)), (''content_hash'', AttrStr (d_ContentHash doc)),
            (''mime'', AttrStr (d_Mime doc)), (''size'', AttrInt (d_Size doc)),
            (''preservation_class'', AttrStr (d_PreservationClass doc))] @
           (if d_ParentID doc \<noteq> [] then [(''parent_id'', AttrStr (d_ParentID doc))] else [])\<rparr>])"

definition Uploaded :: "recorder \<Rightarrow> string \<Rightarrow> document \<Rightarrow> audit_event list" where
  "Uploaded rd caller doc = domain_event rd EventDocUploaded caller OpCreate doc"

definition Deleted :: "recorder \<Rightarrow> string \<Rightarrow> document \<Rightarrow> audit_event list" where
  "Deleted rd caller doc = domain_event rd EventDocDeleted caller OpDelete doc"

end
