(* ===== verification/Responses.thy ===== *)
theory Responses
  imports StoreTypes
begin

text \<open>
  \<open>routes/response/response.go\<close> and \<open>routes/request/request.go\<close>: what the HTTP API answers with, as
  records with the fields of the JSON objects, the projections of stored rows onto them, and the
  two checks on small form fields.
\<close>

section \<open>Request checks\<close>

definition ValidPreservationClasses :: "string list" where
  "ValidPreservationClasses = [''none'', ''b_lt'', ''preservation'']"

definition ValidPreservationClass :: "string \<Rightarrow> bool" where
  "ValidPreservationClass class \<longleftrightarrow> class = [] \<or> class \<in> set ValidPreservationClasses"

definition ValidRetentionClasses :: "string list" where
  "ValidRetentionClasses = [''ttl'', ''durable'']"

definition ValidRetentionClass :: "string \<Rightarrow> bool" where
  "ValidRetentionClass class \<longleftrightarrow> class = [] \<or> class \<in> set ValidRetentionClasses"

section \<open>Response objects\<close>

record r_ingested =
  ri_id :: string
  ri_contentHash :: string
  ri_mime :: string
  ri_size :: int
  ri_preservationClass :: string
  ri_retentionClass :: string
  ri_hasSignatures :: bool

record r_inner_file =
  rf_name :: string
  rf_mediaType :: string
  rf_size :: int

record r_document =
  rd_id :: string
  rd_owner :: string
  rd_tenantId :: string
  rd_kind :: string
  rd_parentId :: string
  rd_filename :: string
  rd_contentHash :: string
  rd_mime :: string
  rd_size :: int
  rd_status :: string
  rd_preservationClass :: string
  rd_retentionClass :: string
  rd_retentionUntil :: "time option"
  rd_legalHold :: bool
  rd_innerFiles :: "r_inner_file list"
  rd_createdAt :: time
  rd_updatedAt :: time

definition inner_files :: "manifest_file list \<Rightarrow> r_inner_file list" where
  "inner_files fs = map (\<lambda>f. \<lparr>rf_name = mf_Name f, rf_mediaType = mf_MediaType f, rf_size = mf_Size f\<rparr>) fs"

definition FromStore :: "document \<Rightarrow> r_document" where
  "FromStore d =
     \<lparr>rd_id = d_ID d, rd_owner = d_Owner d, rd_tenantId = d_TenantID d, rd_kind = d_Kind d,
      rd_parentId = d_ParentID d, rd_filename = d_Filename d, rd_contentHash = d_ContentHash d,
      rd_mime = d_Mime d, rd_size = d_Size d, rd_status = d_Status d,
      rd_preservationClass = d_PreservationClass d, rd_retentionClass = d_RetentionClass d,
      rd_retentionUntil = d_RetentionUntil d, rd_legalHold = d_LegalHold d,
      rd_innerFiles = inner_files (d_InnerFiles d), rd_createdAt = d_CreatedAt d, rd_updatedAt = d_UpdatedAt d\<rparr>"

record r_document_list =
  dl_documents :: "r_document list"
  dl_count :: nat

record r_chain =
  rc_chainRootId :: string
  rc_id :: string
  rc_kind :: string
  rc_status :: string
  rc_filename :: string
  rc_mime :: string
  rc_size :: int
  rc_retentionUntil :: "time option"
  rc_legalHold :: bool
  rc_preservationClass :: string
  rc_hasSignatures :: bool
  rc_platformSigned :: bool
  rc_resultFrozen :: bool
  rc_innerFiles :: "r_inner_file list"
  rc_chainCreatedAt :: time
  rc_createdAt :: time
  rc_updatedAt :: time

definition ChainFromStore :: "chain \<Rightarrow> r_chain" where
  "ChainFromStore c =
     \<lparr>rc_chainRootId = c_ChainRootID c, rc_id = c_ID c, rc_kind = c_Kind c, rc_status = c_Status c,
      rc_filename = c_Filename c, rc_mime = c_Mime c, rc_size = c_Size c,
      rc_retentionUntil = c_RetentionUntil c, rc_legalHold = c_LegalHold c,
      rc_preservationClass = c_PreservationClass c, rc_hasSignatures = c_HasSignatures c,
      rc_platformSigned = c_PlatformSigned c, rc_resultFrozen = c_ResultFrozen c,
      rc_innerFiles = inner_files (c_InnerFiles c), rc_chainCreatedAt = c_ChainCreatedAt c,
      rc_createdAt = c_CreatedAt c, rc_updatedAt = c_UpdatedAt c\<rparr>"

record r_chain_list =
  cl_chains :: "r_chain list"
  cl_count :: nat

record r_history_chain =
  rh_chainRootId :: string
  rh_id :: string
  rh_kind :: string
  rh_status :: string
  rh_filename :: string
  rh_mime :: string
  rh_size :: int
  rh_hasSignatures :: bool
  rh_platformSigned :: bool
  rh_chainCreatedAt :: time
  rh_destroyedAt :: time

definition HistoryFromStore :: "history_chain \<Rightarrow> r_history_chain" where
  "HistoryFromStore h =
     \<lparr>rh_chainRootId = h_ChainRootID h, rh_id = h_ID h, rh_kind = h_Kind h, rh_status = h_Status h,
      rh_filename = h_Filename h, rh_mime = h_Mime h, rh_size = h_Size h,
      rh_hasSignatures = h_HasSignatures h, rh_platformSigned = h_PlatformSigned h,
      rh_chainCreatedAt = h_ChainCreatedAt h, rh_destroyedAt = h_DestroyedAt h\<rparr>"

record r_history_list =
  hl_chains :: "r_history_chain list"
  hl_count :: nat

text \<open>\<open>Archived\<close>, \<open>Container\<close> and \<open>SignedDocument\<close> carry the same four facts of a stored artifact.\<close>

record r_archived =
  ra_id :: string
  ra_contentHash :: string
  ra_mime :: string
  ra_size :: int

record r_container =
  ro_containerId :: string
  ro_contentHash :: string
  ro_mime :: string
  ro_size :: int

record r_signed_document =
  rs_signedDocumentId :: string
  rs_contentHash :: string
  rs_mime :: string
  rs_size :: int

record r_digest =
  rg_id :: string
  rg_contentHash :: string
  rg_algorithm :: string

record r_data_object =
  ob_name :: string
  ob_contentHash :: string
  ob_algorithm :: string

record r_data_objects =
  os_containerId :: string
  os_dataObjects :: "r_data_object list"

record r_chain_retention =
  rr_retentionUntil :: time
  rr_liveRows :: int

record r_chain_head =
  rx_id :: string
  rx_kind :: string
  rx_contentHash :: string

end
