(* ===== verification/Config.thy ===== *)
theory Config
  imports Sha256 StoreTypes "HOL-Library.Monad_Syntax"
begin

text \<open>
  \<open>config.go\<close> and \<open>secretfile.go\<close>: the settings, what is derived from them (which product a client
  stores documents for, which backends are used, whether access records are posted, the master key),
  their validation, and how they are read from the environment and the secret store.
\<close>

text \<open>The inbound authentication settings are the authentication library's; of them the code touches
  the issuer and the two client credentials.\<close>

record auth_config =
  au_IssuerURL :: string
  au_ServiceClientID :: string
  au_ServiceClientSecret :: string

record configuration =
  cf_Auth :: auth_config
  cf_StoreDSN :: string
  cf_MaxFileBytes :: int
  cf_S3Endpoint :: string
  cf_S3AccessKey :: string
  cf_S3SecretKey :: string
  cf_S3UseSSL :: bool
  cf_S3Bucket :: string
  cf_S3Prefix :: string
  cf_KMSMasterKey :: string
  cf_RetentionTTL :: duration
  cf_RetentionSweepInterval :: duration
  cf_RetentionSweepBatch :: int
  cf_HistoryRetention :: duration
  cf_ServiceClientID :: string
  cf_ServiceClientSecret :: string
  cf_AuditIssuerURL :: string
  cf_AccessAuditURL :: string
  cf_AccessAuditAudience :: string
  cf_AccessAuditScope :: string
  cf_AccessAuditOutboxDir :: string
  cf_ClamAVEndpoint :: string
  cf_DocumentEventsTopic :: string
  cf_DocumentProductClients :: string

text \<open>The loop of \<open>ProductFor\<close> over the comma-separated pairs: the first pair that names the client
  decides, a pair without an equals sign is skipped.\<close>

primrec product_pairs :: "string \<Rightarrow> string list \<Rightarrow> string" where
  "product_pairs clientID [] = []"
| "product_pairs clientID (pair # pairs) =
     (case cut (CHR ''='') (trim_space pair) of
        (name, product, ok) \<Rightarrow>
          if \<not> ok then product_pairs clientID pairs
          else if trim_space name = clientID then trim_space product
          else product_pairs clientID pairs)"

definition ProductFor :: "configuration \<Rightarrow> string \<Rightarrow> string" where
  "ProductFor c clientID =
     (if clientID = [] \<or> cf_DocumentProductClients c = [] then []
      else product_pairs clientID (split_byte (CHR '','') (cf_DocumentProductClients c)))"

datatype store_backend = StoreBackendPostgres | StoreBackendMemory

definition StoreBackend :: "configuration \<Rightarrow> store_backend" where
  "StoreBackend c = (if trim_space (cf_StoreDSN c) \<noteq> [] then StoreBackendPostgres else StoreBackendMemory)"

datatype blob_backend = BlobBackendS3 | BlobBackendMemory

definition BlobBackend :: "configuration \<Rightarrow> blob_backend" where
  "BlobBackend c =
     (if trim_space (cf_S3Endpoint c) \<noteq> [] \<and> trim_space (cf_S3Bucket c) \<noteq> [] then BlobBackendS3
      else BlobBackendMemory)"

definition AccessAuditEnabled :: "configuration \<Rightarrow> bool" where
  "AccessAuditEnabled c \<longleftrightarrow> trim_space (cf_AccessAuditURL c) \<noteq> []"

definition OutboundEnabled :: "configuration \<Rightarrow> bool" where
  "OutboundEnabled c \<longleftrightarrow> AccessAuditEnabled c"

definition auditIssuer :: "configuration \<Rightarrow> string" where
  "auditIssuer c = (let u = trim_space (cf_AuditIssuerURL c) in if u \<noteq> [] then u else au_IssuerURL (cf_Auth c))"

definition OutboundAuthClientConfig :: "configuration \<Rightarrow> auth_config" where
  "OutboundAuthClientConfig c =
     (cf_Auth c)\<lparr>au_IssuerURL := auditIssuer c, au_ServiceClientID := cf_ServiceClientID c,
                 au_ServiceClientSecret := cf_ServiceClientSecret c\<rparr>"

text \<open>Of the access-record client's configuration, what is not one of the library's default constants.\<close>

record gdpr_config =
  gd_Endpoint :: string
  gd_Audience :: string
  gd_Scope :: string

definition GDPRConfig :: "configuration \<Rightarrow> gdpr_config" where
  "GDPRConfig c =
     \<lparr>gd_Endpoint = cf_AccessAuditURL c, gd_Audience = cf_AccessAuditAudience c, gd_Scope = cf_AccessAuditScope c\<rparr>"

text \<open>\<open>secretfile.go\<close>: a secret named as a file but with no value stops the start; \<open>env\<close> reads the
  environment.\<close>

definition refuseEmptyFileSecret :: "(string \<Rightarrow> string) \<Rightarrow> string \<Rightarrow> string \<Rightarrow> err + unit" where
  "refuseEmptyFileSecret env name val =
     (if env (name @ ''_FILE'') \<noteq> [] \<and> trim_space val = []
      then Inl (ErrOther (name @ ''_FILE is set but gives no value: the file is missing or empty'')) else Inr ())"

text \<open>The validation tags on the service's own settings: the numeric bounds; the two optional URLs are
  checked by the validation library (\<open>is_url\<close>).  The base and the authentication configuration validate
  themselves (\<open>base_Validate\<close>, \<open>auth_Validate\<close>).\<close>

definition valid_Struct :: "(string \<Rightarrow> bool) \<Rightarrow> configuration \<Rightarrow> bool" where
  "valid_Struct is_url c \<longleftrightarrow>
     cf_MaxFileBytes c > 0 \<and> cf_RetentionTTL c > 0 \<and> cf_RetentionSweepInterval c > 0 \<and>
     cf_RetentionSweepBatch c \<ge> 0 \<and> cf_HistoryRetention c \<ge> 0 \<and>
     (cf_AuditIssuerURL c \<noteq> [] \<longrightarrow> is_url (cf_AuditIssuerURL c)) \<and>
     (cf_AccessAuditURL c \<noteq> [] \<longrightarrow> is_url (cf_AccessAuditURL c))"

definition Validate ::
  "(string \<Rightarrow> string) \<Rightarrow> err option \<Rightarrow> (auth_config \<Rightarrow> err option) \<Rightarrow> (string \<Rightarrow> bool) \<Rightarrow> configuration \<Rightarrow> err + unit" where
  "Validate env base_Validate auth_Validate is_url c =
     (case refuseEmptyFileSecret env ''DOCUMENT_STORE_DSN'' (cf_StoreDSN c) of
        Inl e \<Rightarrow> Inl e
      | Inr u \<Rightarrow> (case base_Validate of
            Some e \<Rightarrow> Inl e
          | None \<Rightarrow> (case auth_Validate (cf_Auth c) of
                Some e \<Rightarrow> Inl e
              | None \<Rightarrow> if valid_Struct is_url c then Inr () else Inl (ErrOther ''validation''))))"

text \<open>No key configured decodes to the empty key; what is not base64 is an error.\<close>

definition MasterKeyBytes :: "configuration \<Rightarrow> err + bytes" where
  "MasterKeyBytes c =
     (if trim_space (cf_KMSMasterKey c) = [] then Inr []
      else case b64_decode (trim_space (cf_KMSMasterKey c)) of
        None \<Rightarrow> Inl (ErrOther ''illegal base64 data'')
      | Some k \<Rightarrow> Inr k)"

section \<open>Reading the settings\<close>

text \<open>
  The configuration library (\<open>viper\<close>) holds, by key, a default and the environment variable bound to it; a
  variable that is set and not empty wins over the default.  The settings are the tagged fields of
  the struct; numbers, durations and truth values in the environment are parsed by the library
  (\<open>parsers\<close>).
\<close>

datatype setting = SText string | SInt int | SBool bool

record viper =
  vp_default :: "string \<rightharpoonup> setting"
  vp_env :: "string \<rightharpoonup> string"

definition SetDefault :: "string \<Rightarrow> setting \<Rightarrow> viper \<Rightarrow> viper" where
  "SetDefault key x v = v\<lparr>vp_default := (vp_default v)(key \<mapsto> x)\<rparr>"

definition BindEnv :: "string \<Rightarrow> string \<Rightarrow> viper \<Rightarrow> viper" where
  "BindEnv key name v = v\<lparr>vp_env := (vp_env v)(key \<mapsto> name)\<rparr>"

text \<open>A secret becomes the default of its key, so that the variable still overrides it; \<open>remote\<close> reads
  the secret store, \<open>None\<close> when it has no such secret.\<close>

definition loadSecret :: "(string \<Rightarrow> string option) \<Rightarrow> string \<Rightarrow> string \<Rightarrow> viper \<Rightarrow> viper" where
  "loadSecret remote key name v =
     (case remote name of None \<Rightarrow> v | Some secret \<Rightarrow> if secret \<noteq> [] then SetDefault key (SText secret) v else v)"

text \<open>A duration is its number of nanoseconds.\<close>

definition second :: duration where "second = 1000000000"
definition minute :: duration where "minute = 60 * second"
definition hour :: duration where "hour = 60 * minute"

datatype binding = Default string setting | Env string string | Secret string string

primrec bind_one :: "(string \<Rightarrow> string option) \<Rightarrow> binding \<Rightarrow> viper \<Rightarrow> viper" where
  "bind_one remote (Default key x) = SetDefault key x"
| "bind_one remote (Env key name) = BindEnv key name"
| "bind_one remote (Secret key name) = loadSecret remote key name"

definition bindings :: "binding list" where
  "bindings =
    [Default ''max_file_bytes'' (SInt (25 * 1024 * 1024)),
     Default ''document_retention_ttl'' (SInt (24 * hour)),
     Default ''document_retention_sweep_interval'' (SInt (15 * minute)),
     Default ''document_retention_sweep_batch'' (SInt 500),
     Default ''document_history_retention'' (SInt (90 * 24 * hour)),
     Env ''document_history_retention'' ''DOCUMENT_HISTORY_RETENTION'',
     Env ''document_product_clients'' ''DOCUMENT_PRODUCT_CLIENTS'',
     Secret ''document_store_dsn'' ''DOCUMENT_STORE_DSN'',
     Env ''document_store_dsn'' ''DOCUMENT_STORE_DSN'',
     Env ''max_file_bytes'' ''MAX_FILE_BYTES'',
     Env ''document_retention_ttl'' ''DOCUMENT_RETENTION_TTL'',
     Env ''document_retention_sweep_interval'' ''DOCUMENT_RETENTION_SWEEP_INTERVAL'',
     Env ''document_retention_sweep_batch'' ''DOCUMENT_RETENTION_SWEEP_BATCH'',
     Default ''s3_use_ssl'' (SBool False),
     Secret ''s3_access_key'' ''S3_ACCESS_KEY'',
     Secret ''s3_secret_key'' ''S3_SECRET_KEY'',
     Env ''s3_endpoint'' ''S3_ENDPOINT'',
     Env ''s3_access_key'' ''S3_ACCESS_KEY'',
     Env ''s3_secret_key'' ''S3_SECRET_KEY'',
     Env ''s3_use_ssl'' ''S3_USE_SSL'',
     Env ''s3_bucket'' ''S3_BUCKET'',
     Env ''s3_prefix'' ''S3_PREFIX'',
     Secret ''document_kms_master_key'' ''DOCUMENT_KMS_MASTER_KEY'',
     Env ''document_kms_master_key'' ''DOCUMENT_KMS_MASTER_KEY'',
     Default ''service_client_id'' (SText ''svc:document''),
     Secret ''service_client_secret'' ''SERVICE_CLIENT_SECRET'',
     Env ''service_client_id'' ''SERVICE_CLIENT_ID'',
     Env ''service_client_secret'' ''SERVICE_CLIENT_SECRET'',
     Env ''audit_issuer_url'' ''AUDIT_ISSUER_URL'',
     Default ''access_audit_audience'' (SText ''svc:access-audit''),
     Default ''access_audit_scope'' (SText ''access-audit:write''),
     Env ''access_audit_url'' ''ACCESS_AUDIT_URL'',
     Env ''access_audit_audience'' ''ACCESS_AUDIT_AUDIENCE'',
     Env ''access_audit_scope'' ''ACCESS_AUDIT_SCOPE'',
     Env ''access_audit_outbox_dir'' ''ACCESS_AUDIT_OUTBOX_DIR'',
     Env ''clamav_endpoint'' ''CLAMAV_ENDPOINT'',
     Default ''document_events_topic'' (SText ''document.events''),
     Env ''document_events_topic'' ''DOCUMENT_EVENTS_TOPIC'']"

definition Bind :: "(string \<Rightarrow> string option) \<Rightarrow> viper \<Rightarrow> viper" where
  "Bind remote v = fold (bind_one remote) bindings v"

record parsers =
  ps_int :: "string \<Rightarrow> int option"
  ps_duration :: "string \<Rightarrow> duration option"
  ps_bool :: "string \<Rightarrow> bool option"

definition get_setting :: "(string \<Rightarrow> string) \<Rightarrow> viper \<Rightarrow> string \<Rightarrow> setting option" where
  "get_setting env v key =
     (case vp_env v key of
        Some name \<Rightarrow> if env name \<noteq> [] then Some (SText (env name)) else vp_default v key
      | None \<Rightarrow> vp_default v key)"

definition text_of :: "setting option \<Rightarrow> string" where
  "text_of x = (case x of Some (SText s) \<Rightarrow> s | _ \<Rightarrow> [])"

definition number_of :: "(string \<Rightarrow> int option) \<Rightarrow> setting option \<Rightarrow> int option" where
  "number_of parse x = (case x of Some (SText s) \<Rightarrow> parse s | Some (SInt n) \<Rightarrow> Some n | _ \<Rightarrow> Some 0)"

definition truth_of :: "(string \<Rightarrow> bool option) \<Rightarrow> setting option \<Rightarrow> bool option" where
  "truth_of parse x = (case x of Some (SText s) \<Rightarrow> parse s | Some (SBool b) \<Rightarrow> Some b | _ \<Rightarrow> Some False)"

text \<open>The fields by their tags; the authentication settings (\<open>au\<close>) are bound by their own library.\<close>

definition Unmarshal :: "parsers \<Rightarrow> (string \<Rightarrow> string) \<Rightarrow> auth_config \<Rightarrow> viper \<Rightarrow> configuration option" where
  "Unmarshal ps env au v =
     (let txt = (\<lambda>key. text_of (get_setting env v key));
          num = (\<lambda>key. number_of (ps_int ps) (get_setting env v key));
          dur = (\<lambda>key. number_of (ps_duration ps) (get_setting env v key))
      in do {
        max_bytes \<leftarrow> num ''max_file_bytes'';
        ssl \<leftarrow> truth_of (ps_bool ps) (get_setting env v ''s3_use_ssl'');
        ttl \<leftarrow> dur ''document_retention_ttl'';
        interval \<leftarrow> dur ''document_retention_sweep_interval'';
        batch \<leftarrow> num ''document_retention_sweep_batch'';
        keep \<leftarrow> dur ''document_history_retention'';
        Some \<lparr>cf_Auth = au, cf_StoreDSN = txt ''document_store_dsn'', cf_MaxFileBytes = max_bytes,
          cf_S3Endpoint = txt ''s3_endpoint'', cf_S3AccessKey = txt ''s3_access_key'',
          cf_S3SecretKey = txt ''s3_secret_key'', cf_S3UseSSL = ssl, cf_S3Bucket = txt ''s3_bucket'',
          cf_S3Prefix = txt ''s3_prefix'', cf_KMSMasterKey = txt ''document_kms_master_key'', cf_RetentionTTL = ttl,
          cf_RetentionSweepInterval = interval, cf_RetentionSweepBatch = batch, cf_HistoryRetention = keep,
          cf_ServiceClientID = txt ''service_client_id'', cf_ServiceClientSecret = txt ''service_client_secret'',
          cf_AuditIssuerURL = txt ''audit_issuer_url'', cf_AccessAuditURL = txt ''access_audit_url'',
          cf_AccessAuditAudience = txt ''access_audit_audience'', cf_AccessAuditScope = txt ''access_audit_scope'',
          cf_AccessAuditOutboxDir = txt ''access_audit_outbox_dir'', cf_ClamAVEndpoint = txt ''clamav_endpoint'',
          cf_DocumentEventsTopic = txt ''document_events_topic'', cf_DocumentProductClients = txt ''document_product_clients''\<rparr> })"

text \<open>The settings of a start: what the platform registered first (\<open>v0\<close>), the bindings, the values.\<close>

definition read_settings ::
  "parsers \<Rightarrow> (string \<Rightarrow> string) \<Rightarrow> (string \<Rightarrow> string option) \<Rightarrow> auth_config \<Rightarrow> viper \<Rightarrow> configuration option" where
  "read_settings ps env remote au v0 = Unmarshal ps env au (Bind remote v0)"

text \<open>A secret's value: the variable, else the secret store's, else what was registered before.  A key
  is bound as a secret when it has no other default and no other names.\<close>

primrec keeps_secret :: "string \<Rightarrow> string \<Rightarrow> binding \<Rightarrow> bool" where
  "keeps_secret key name (Default k x) \<longleftrightarrow> k \<noteq> key"
| "keeps_secret key name (Env k n) \<longleftrightarrow> (k = key \<longrightarrow> n = name)"
| "keeps_secret key name (Secret k n) \<longleftrightarrow> (k = key \<longrightarrow> n = name)"

definition binds_secret :: "string \<Rightarrow> string \<Rightarrow> binding list \<Rightarrow> bool" where
  "binds_secret key name bs \<longleftrightarrow>
     list_all (keeps_secret key name) bs \<and>
     list_ex (\<lambda>b. case b of Env k n \<Rightarrow> k = key \<and> n = name | _ \<Rightarrow> False) bs \<and>
     list_ex (\<lambda>b. case b of Secret k n \<Rightarrow> k = key \<and> n = name | _ \<Rightarrow> False) bs"

lemma binds_secret_iff:
  "binds_secret key name bs \<longleftrightarrow>
     (\<forall>b \<in> set bs. keeps_secret key name b) \<and> Env key name \<in> set bs \<and> Secret key name \<in> set bs"
proof -
  have env: "(case b of Env k n \<Rightarrow> k = key \<and> n = name | _ \<Rightarrow> False) \<longleftrightarrow> b = Env key name" for b by (cases b) auto
  have secret: "(case b of Secret k n \<Rightarrow> k = key \<and> n = name | _ \<Rightarrow> False) \<longleftrightarrow> b = Secret key name" for b by (cases b) auto
  show ?thesis by (simp add: binds_secret_def env secret list_all_iff list_ex_iff)
qed

lemma bind_secret:
  assumes "binds_secret key name bs"
  shows "vp_env (fold (bind_one remote) bs v) key = Some name \<and>
    vp_default (fold (bind_one remote) bs v) key =
      (case remote name of Some s \<Rightarrow> if s \<noteq> [] then Some (SText s) else vp_default v key | None \<Rightarrow> vp_default v key)"
proof -
  let ?secret = "\<lambda>v. case remote name of Some s \<Rightarrow> if s \<noteq> [] then Some (SText s) else vp_default v key | None \<Rightarrow> vp_default v key"
  have default: "vp_default (bind_one remote b v) key = (if b = Secret key name then ?secret v else vp_default v key)"
    and env: "vp_env (bind_one remote b v) key = (if b = Env key name then Some name else vp_env v key)"
    if "keeps_secret key name b" for b v
    using that by (cases b; auto simp: SetDefault_def BindEnv_def loadSecret_def split: option.split)+
  note bound = assms [unfolded binds_secret_iff]
  from bound have all: "\<forall>b \<in> set bs. keeps_secret key name b" ..
  have "vp_env (fold (bind_one remote) bs v) key = (if Env key name \<in> set bs then Some name else vp_env v key) \<and>
    vp_default (fold (bind_one remote) bs v) key = (if Secret key name \<in> set bs then ?secret v else vp_default v key)"
    using all
  proof (induction bs arbitrary: v)
    case (Cons b bs)
    then show ?case using default [of b v] env [of b v] by (auto split: option.splits)
  qed simp
  with bound show ?thesis by simp
qed

definition secret_value :: "(string \<Rightarrow> string) \<Rightarrow> (string \<Rightarrow> string option) \<Rightarrow> string \<Rightarrow> string" where
  "secret_value env remote name =
     (if env name \<noteq> [] then env name else case remote name of Some s \<Rightarrow> s | None \<Rightarrow> [])"

lemma read_secret:
  assumes "binds_secret key name bindings" and "vp_default v0 key = None"
  shows "text_of (get_setting env (Bind remote v0) key) = secret_value env remote name"
  using bind_secret [OF assms(1), of remote v0] assms(2)
  by (auto simp: Bind_def get_setting_def secret_value_def text_of_def split: option.split)

lemma secrets_bound:
  "binds_secret ''document_store_dsn'' ''DOCUMENT_STORE_DSN'' bindings"
  "binds_secret ''document_kms_master_key'' ''DOCUMENT_KMS_MASTER_KEY'' bindings"
  by code_simp+

lemma read_settings_secrets:
  assumes "read_settings ps env remote au v0 = Some cfg"
    and "vp_default v0 ''document_store_dsn'' = None" and "vp_default v0 ''document_kms_master_key'' = None"
  shows "cf_StoreDSN cfg = secret_value env remote ''DOCUMENT_STORE_DSN''"
    and "cf_KMSMasterKey cfg = secret_value env remote ''DOCUMENT_KMS_MASTER_KEY''"
proof -
  have "cf_StoreDSN cfg = text_of (get_setting env (Bind remote v0) ''document_store_dsn'')"
    and "cf_KMSMasterKey cfg = text_of (get_setting env (Bind remote v0) ''document_kms_master_key'')"
    using assms(1) by (auto simp: read_settings_def Unmarshal_def Let_def bind_eq_Some_conv)
  then show "cf_StoreDSN cfg = secret_value env remote ''DOCUMENT_STORE_DSN''"
    and "cf_KMSMasterKey cfg = secret_value env remote ''DOCUMENT_KMS_MASTER_KEY''"
    by (simp_all only: read_secret [OF secrets_bound(1) assms(2)] read_secret [OF secrets_bound(2) assms(3)])
qed

end
