(* ===== verification/Clamav.thy ===== *)
theory Clamav
  imports Sha256 StoreTypes
begin

text \<open>
  \<open>clamav/clamav.go\<close>: the client of the malware scanner.  A scan dials the scanner, writes the
  document as a stream of length-prefixed chunks and reads one reply line.  The connection is a
  parameter: whether dialling, setting the deadline and each write succeed, and what each read
  delivers until the deadline, after which a read fails.
\<close>

section \<open>The client\<close>

record verdict =
  vd_Clean :: bool
  vd_Signature :: string

record conn =
  cn_Dial :: "string option"
  cn_SetDeadline :: "string option"
  cn_Write :: "nat \<Rightarrow> string option"
  cn_Reads :: "(bytes \<times> string option) list"

definition chunkSize :: nat where "chunkSize = 2 ^ 15"

definition to_bytes :: "string \<Rightarrow> bytes" where
  "to_bytes s = map (\<lambda>c. of_nat (of_char c)) s"

definition of_bytes :: "bytes \<Rightarrow> string" where
  "of_bytes b = map (\<lambda>x. char_of (unat x)) b"

text \<open>The chunk loop: for each chunk the write of its length and the write of its bytes.  Each write carries
  what an error in it is reported as.\<close>

function chunk_writes :: "nat \<Rightarrow> bytes \<Rightarrow> (string \<times> bytes) list" where
  "chunk_writes off data =
     (if off < length data then
        let fin = (if off + chunkSize > length data then length data else off + chunkSize) in
        (''send chunk header'', bytes_be32 (of_nat (fin - off))) #
        (''send chunk'', take (fin - off) (drop off data)) # chunk_writes (off + chunkSize) data
      else [])"
  by pat_completeness auto
termination
  by (relation "measure (\<lambda>(off, data). length data - off)") (auto simp: chunkSize_def)

declare chunk_writes.simps [simp del]

definition scan_writes :: "bytes \<Rightarrow> (string \<times> bytes) list" where
  "scan_writes data =
     (''send command'', to_bytes ''zINSTREAM'' @ [0]) # chunk_writes 0 data @ [(''terminate stream'', bytes_be32 0)]"

primrec send :: "(nat \<Rightarrow> string option) \<Rightarrow> nat \<Rightarrow> (string \<times> bytes) list \<Rightarrow> err + unit" where
  "send wr i [] = Inr ()"
| "send wr i (w # ws) =
     (case wr i of
        Some e \<Rightarrow> Inl (ErrOther (''clamav: '' @ fst w @ '': '' @ e))
      | None \<Rightarrow> send wr (Suc i) ws)"

text \<open>The read loop: until a zero byte has arrived or a read fails.\<close>

primrec read_reply :: "(bytes \<times> string option) list \<Rightarrow> bytes \<Rightarrow> err + bytes" where
  "read_reply [] reply = Inl (ErrOther ''clamav: read reply: i/o timeout'')"
| "read_reply (r # rs) reply =
     (let reply' = reply @ fst r in
      case index_byte (CHR 0x00) (of_bytes reply') of
        Some i \<Rightarrow> Inr (take i reply')
      | None \<Rightarrow> (case snd r of
            Some e \<Rightarrow> Inl (ErrOther (''clamav: read reply: '' @ e))
          | None \<Rightarrow> read_reply rs reply'))"

definition trim_prefix :: "string \<Rightarrow> string \<Rightarrow> string" where
  "trim_prefix s p = (if has_prefix s p then drop (length p) s else s)"

definition trim_suffix :: "string \<Rightarrow> string \<Rightarrow> string" where
  "trim_suffix s p = (if has_suffix s p then take (length s - length p) s else s)"

definition scan_verdict :: "string \<Rightarrow> err + verdict" where
  "scan_verdict line =
     (if has_suffix line ''OK'' then Inr \<lparr>vd_Clean = True, vd_Signature = []\<rparr>
      else if has_suffix line ''FOUND'' then
        Inr \<lparr>vd_Clean = False, vd_Signature = trim_space (trim_suffix (trim_prefix line ''stream:'') ''FOUND'')\<rparr>
      else Inl (ErrOther ''clamav: unexpected reply''))"

definition Scan :: "conn \<Rightarrow> string \<Rightarrow> bytes \<Rightarrow> err + verdict" where
  "Scan cn addr data =
     (case cn_Dial cn of
        Some e \<Rightarrow> Inl (ErrOther (''clamav: dial '' @ addr @ '': '' @ e))
      | None \<Rightarrow> (case cn_SetDeadline cn of
            Some e \<Rightarrow> Inl (ErrOther (''clamav: set deadline: '' @ e))
          | None \<Rightarrow> (case send (cn_Write cn) 0 (scan_writes data) of
                Inl e \<Rightarrow> Inl e
              | Inr u \<Rightarrow> (case read_reply (cn_Reads cn) [] of
                    Inl e \<Rightarrow> Inl e
                  | Inr reply \<Rightarrow> scan_verdict (trim_space (of_bytes reply))))))"

section \<open>The other end\<close>

text \<open>What the scanner's protocol prescribes for the receiving end: the command, then chunks of
  a big-endian 32-bit length and as many bytes, up to a chunk of length zero.\<close>

function instream :: "bytes \<Rightarrow> (bytes list \<times> bytes) option" where
  "instream s =
     (if length s < 4 then None
      else let n = unat (be32 (take 4 s)); rest = drop 4 s in
        if n = 0 then Some ([], rest)
        else if length rest < n then None
        else map_option (\<lambda>(cs, r). (take n rest # cs, r)) (instream (drop n rest)))"
  by pat_completeness auto
termination
  by (relation "measure length") auto

declare instream.simps [simp del]

definition received :: "bytes \<Rightarrow> bytes option" where
  "received s =
     (if take 10 s = to_bytes ''zINSTREAM'' @ [0]
      then case instream (drop 10 s) of Some (cs, []) \<Rightarrow> Some (concat cs) | _ \<Rightarrow> None
      else None)"

lemma length_bytes_be32 [simp]: "length (bytes_be32 w) = 4"
  by (simp add: bytes_be32_def)

lemma be32_bytes_be32: "be32 (bytes_be32 w) = w"
proof (rule bit_word_eqI)
  fix n assume n: "n < LENGTH(32)"
  then consider "n < 8" | "8 \<le> n" "n < 16" | "16 \<le> n" "n < 24" | "24 \<le> n" "n < 32" by force
  then show "bit (be32 (bytes_be32 w)) n = bit w n"
    by cases (use n in \<open>simp_all add: be32_def bytes_be32_def bit_simps, linarith+\<close>)
qed

lemma unat_be32_nat: "n < 2 ^ 32 \<Longrightarrow> unat (be32 (bytes_be32 (of_nat n))) = n"
  by (simp add: be32_bytes_be32 unat_of_nat take_bit_nat_eq_self)

text \<open>One chunk, as the receiver reads it.\<close>

lemma instream_chunk:
  assumes "c \<noteq> []" and "length c < 2 ^ 32"
  shows "instream (bytes_be32 (of_nat (length c)) @ c @ rest) = map_option (\<lambda>(cs, r). (c # cs, r)) (instream rest)"
  using assms by (subst instream.simps) (simp add: unat_be32_nat Let_def)

lemma instream_end: "instream (bytes_be32 0 @ rest) = Some ([], rest)"
  by (subst instream.simps) (simp add: be32_bytes_be32 Let_def)

text \<open>The chunks of the loop, in the receiver's view.\<close>

lemma chunk_writes_received:
  "\<exists>cs. instream (concat (map snd (chunk_writes off data)) @ bytes_be32 0) = Some (cs, []) \<and> concat cs = drop off data"
proof (induction off data rule: chunk_writes.induct)
  case (1 off data)
  show ?case
  proof (cases "off < length data")
    case True
    define fin where "fin = (if off + chunkSize > length data then length data else off + chunkSize)"
    define c where "c = take (fin - off) (drop off data)"
    have fin: "off < fin" "fin \<le> length data" "fin - off \<le> chunkSize" and rest: "drop fin data = drop (off + chunkSize) data"
      using True by (auto simp: fin_def chunkSize_def)
    then have c: "length c = fin - off" "c \<noteq> []" "length c < 2 ^ 32"
      using True by (auto simp: c_def chunkSize_def)
    have "drop off data = c @ drop fin data"
      using fin by (simp add: c_def) (metis add.commute append_take_drop_id drop_drop le_add_diff_inverse less_imp_le)
    moreover from 1 [OF True fin_def] obtain cs where
      "instream (concat (map snd (chunk_writes (off + chunkSize) data)) @ bytes_be32 0) = Some (cs, [])"
      "concat cs = drop (off + chunkSize) data" by blast
    moreover have "chunk_writes off data =
        (''send chunk header'', bytes_be32 (of_nat (length c))) # (''send chunk'', c) # chunk_writes (off + chunkSize) data"
      using True by (subst chunk_writes.simps) (simp only: if_True Let_def fin_def [symmetric] c(1), simp only: c_def)
    ultimately show ?thesis using instream_chunk [OF c(2,3)] rest by simp
  next
    case False
    then show ?thesis using instream_end [of "[]"] by (subst chunk_writes.simps) simp
  qed
qed

lemma chunk_writes_bounded: "(what, b) \<in> set (chunk_writes off data) \<Longrightarrow> length b \<le> chunkSize"
proof (induction off data rule: chunk_writes.induct)
  case (1 off data)
  then show ?case by (subst (asm) chunk_writes.simps) (auto simp: Let_def chunkSize_def split: if_splits)
qed

lemma send_ok: "send wr i ws = Inr u \<Longrightarrow> j < length ws \<Longrightarrow> wr (i + j) = None"
proof (induction ws arbitrary: i j)
  case (Cons w ws)
  then show ?case by (cases j) (fastforce split: option.splits)+
qed simp

lemma char_zero: "char_of (unat (x :: 8 word)) = CHR 0x00 \<longleftrightarrow> x = 0"
proof
  assume "char_of (unat x) = CHR 0x00"
  then have "of_char (char_of (unat x) :: char) = (0 :: nat)" by simp
  then show "x = 0" using unat_byte [of x] by (simp add: unat_eq_zero)
qed (simp add: char_of_def)

lemma index_zero:
  "index_byte (CHR 0x00) (of_bytes b) = Some i \<Longrightarrow> (\<exists>post. b = take i b @ 0 # post) \<and> 0 \<notin> set (take i b)"
  "index_byte (CHR 0x00) (of_bytes b) = None \<Longrightarrow> 0 \<notin> set b"
proof (induction b arbitrary: i)
  case (Cons x b)
  { case 1 then show ?case using Cons by (auto simp: of_bytes_def char_zero split: if_splits) }
  { case 2 then show ?case using Cons by (auto simp: of_bytes_def char_zero split: if_splits) }
qed (simp_all add: of_bytes_def)

lemma read_reply_line:
  assumes "read_reply rs reply = Inr line" and "0 \<notin> set reply"
  shows "\<exists>post. reply @ concat (map fst rs) = line @ 0 # post \<and> 0 \<notin> set line"
  using assms
proof (induction rs arbitrary: reply)
  case (Cons r rs)
  show ?case
  proof (cases "index_byte (CHR 0x00) (of_bytes (reply @ fst r))")
    case None
    then have "0 \<notin> set (reply @ fst r)" by (rule index_zero(2))
    moreover from None Cons.prems(1) have "read_reply rs (reply @ fst r) = Inr line"
      by (simp add: Let_def split: option.splits)
    ultimately show ?thesis using Cons.IH [of "reply @ fst r"] by simp
  next
    case (Some i)
    with Cons.prems(1) have line: "line = take i (reply @ fst r)" by (simp add: Let_def)
    from index_zero(1) [OF Some] obtain post where "reply @ fst r = line @ 0 # post" "0 \<notin> set line"
      unfolding line by blast
    then have "reply @ concat (map fst (r # rs)) = line @ 0 # (post @ concat (map fst rs)) \<and> 0 \<notin> set line" by simp
    then show ?thesis by blast
  qed
qed simp

text \<open>C28: a verdict is the scanner's verdict on exactly this document.  If a scan yields a verdict, every
  write was accepted and no write is longer than the chunk size; what was written is, by the protocol's
  own reading, the command and a complete stream of exactly the document's bytes, so no length
  prefix was truncated; and the verdict is clean only if the first line that came back ends in OK,
  infected only if it ends in FOUND.\<close>

theorem scan_verdict_exact:
  assumes "Scan cn addr data = Inr v"
  shows "(\<forall>i < length (scan_writes data). cn_Write cn i = None) \<and>
    (\<forall>x \<in> set (scan_writes data). length (snd x) \<le> chunkSize) \<and>
    received (concat (map snd (scan_writes data))) = Some data \<and>
    (\<exists>line post. concat (map fst (cn_Reads cn)) = line @ 0 # post \<and> 0 \<notin> set line \<and>
       (if vd_Clean v then has_suffix (trim_space (of_bytes line)) ''OK''
        else has_suffix (trim_space (of_bytes line)) ''FOUND''))"
proof -
  from assms obtain line where s: "send (cn_Write cn) 0 (scan_writes data) = Inr ()"
      and l: "read_reply (cn_Reads cn) [] = Inr line" "scan_verdict (trim_space (of_bytes line)) = Inr v"
    by (auto simp: Scan_def split: option.splits sum.splits)
  have "cn_Write cn i = None" if "i < length (scan_writes data)" for i
    using send_ok [OF s that] by simp
  moreover have "length (snd x) \<le> chunkSize" if "x \<in> set (scan_writes data)" for x
    using that chunk_writes_bounded [of "fst x" "snd x" 0 data]
    by (auto simp: scan_writes_def to_bytes_def chunkSize_def)
  moreover have "received (concat (map snd (scan_writes data))) = Some data"
    using chunk_writes_received [of 0 data] by (auto simp: received_def scan_writes_def to_bytes_def)
  moreover have "if vd_Clean v then has_suffix (trim_space (of_bytes line)) ''OK''
        else has_suffix (trim_space (of_bytes line)) ''FOUND''"
    using l(2) by (auto simp: scan_verdict_def split: if_splits)
  moreover obtain post where "concat (map fst (cn_Reads cn)) = line @ 0 # post \<and> 0 \<notin> set line"
    using read_reply_line [OF l(1)] by auto
  ultimately show ?thesis by blast
qed

text \<open>A scanner that answers in two reads and finds something.\<close>

definition sample_conn :: conn where
  "sample_conn =
     \<lparr>cn_Dial = None, cn_SetDeadline = None, cn_Write = (\<lambda>_. None),
      cn_Reads = [(to_bytes ''stream: Eicar'', None), (to_bytes ''-Test FOUND'' @ [0], None)]\<rparr>"

lemma sample_scan: "Scan sample_conn ''av:3310'' [1, 2, 3] = Inr \<lparr>vd_Clean = False, vd_Signature = ''Eicar-Test''\<rparr>"
proof -
  have send: "send (\<lambda>_. None) i ws = Inr ()" for i ws by (induction ws arbitrary: i) simp_all
  have reply: "read_reply (cn_Reads sample_conn) [] = Inr (to_bytes ''stream: Eicar-Test FOUND'')" by code_simp
  have line: "of_bytes (to_bytes ''stream: Eicar-Test FOUND'') = ''stream: Eicar-Test FOUND''" by code_simp
  have trim: "trim_space ''stream: Eicar-Test FOUND'' = ''stream: Eicar-Test FOUND''" by code_simp
  have ok: "has_suffix ''stream: Eicar-Test FOUND'' ''OK'' = False" by code_simp
  have found: "has_suffix ''stream: Eicar-Test FOUND'' ''FOUND'' = True" by code_simp
  have sig: "trim_suffix (trim_prefix ''stream: Eicar-Test FOUND'' ''stream:'') ''FOUND'' = '' Eicar-Test ''" by code_simp
  have sig_trim: "trim_space '' Eicar-Test '' = ''Eicar-Test''" by code_simp
  have "Scan sample_conn ''av:3310'' [1, 2, 3] = scan_verdict (trim_space (of_bytes (to_bytes ''stream: Eicar-Test FOUND'')))"
    unfolding Scan_def reply by (simp only: sample_conn_def conn.simps send option.case sum.case)
  then show ?thesis by (simp only: line trim scan_verdict_def ok found sig sig_trim if_False if_True)
qed

lemma scan_verdict_exact_witness:
  "Scan sample_conn ''av:3310'' [1, 2, 3] = Inr \<lparr>vd_Clean = False, vd_Signature = ''Eicar-Test''\<rparr> \<and>
   received (concat (map snd (scan_writes [1, 2, 3]))) = Some [1, 2, 3]"
proof (rule conjI [OF sample_scan])
  from scan_verdict_exact [OF sample_scan] show "received (concat (map snd (scan_writes [1, 2, 3]))) = Some [1, 2, 3]"
    by (elim conjE)
qed

end
