(* ===== verification/Router.thy ===== *)
theory Router
  imports DocService AuditEvents Responses Config Clamav
begin

text \<open>
  The HTTP layer's frame and \<open>routes/router.go\<close>.  A handler is a program: a tree of the service calls
  it makes, what it does with each possible answer, the audit events it emits on the way and the
  reply it ends with.  Nothing is said here about what happens between two calls of one handler;
  the runs of a program, in which the calls of other requests come in between, are defined
  over the service's model separately.
\<close>

section \<open>Requests\<close>

text \<open>
  What a handler reads of its request through the web framework: the authenticated user, path and
  query parameters, form fields and uploaded files.  The integer and Boolean query parameters come
  parsed, a parse failure as \<open>Inl\<close>.
\<close>

record user =
  us_ID :: string
  us_HasScopeLevel :: "string \<Rightarrow> string \<Rightarrow> bool"
  us_ClaimValue :: "string \<Rightarrow> string"

record file_header =
  fh_Filename :: string
  fh_Size :: int
  fh_ContentType :: string
  fh_Data :: "bytes option"

record http_ctx =
  rq_User :: user
  rq_Param :: "string \<Rightarrow> string"
  rq_QueryString :: "string \<Rightarrow> string option"
  rq_QueryInt :: "string \<Rightarrow> string + int option"
  rq_QueryBool :: "string \<Rightarrow> string + bool option"
  rq_FormString :: "string \<Rightarrow> string option"
  rq_File :: "string \<Rightarrow> file_header option"
  rq_Files :: "string \<Rightarrow> file_header list"

section \<open>Replies\<close>

text \<open>A problem document; without an explicit status the platform library gives it the one of its
  code.\<close>

record problem =
  pr_Code :: string
  pr_Status :: "nat option"
  pr_Title :: "string option"
  pr_Detail :: "string option"

datatype body =
    NoBody
  | JStatus string
  | JIngested r_ingested
  | JDocument r_document
  | JDocumentList r_document_list
  | JChainList r_chain_list
  | JChain r_chain
  | JDigest r_digest
  | JDataObjects r_data_objects
  | JContainer r_container
  | JSignedDocument r_signed_document
  | JArchived r_archived
  | JChainHead r_chain_head
  | JChainRetention r_chain_retention
  | JHistoryList r_history_list
  | Raw bytes

text \<open>A reply with status, headers and body; a problem; or the framework's own answer to a request
  body it could not decode.\<close>

datatype reply =
    Reply nat "(string \<times> string) list" body
  | Problem problem
  | BadBody string

definition NewProblem :: "string \<Rightarrow> nat option \<Rightarrow> string option \<Rightarrow> string option \<Rightarrow> reply" where
  "NewProblem code status title detail =
     Problem \<lparr>pr_Code = code, pr_Status = status, pr_Title = title, pr_Detail = detail\<rparr>"

definition OK :: "body \<Rightarrow> reply" where "OK b = Reply 200 [] b"
definition Created :: "body \<Rightarrow> reply" where "Created b = Reply 201 [] b"
definition NoContent :: reply where "NoContent = Reply 204 [] NoBody"

section \<open>Handler programs\<close>

text \<open>The calls that answer with a document row.\<close>

datatype doc_call =
    CIngest ingest_input
  | CBundle string string "string list" string
  | CRebundle string string "bundle_entry list"
  | CReplaceContainer string string bytes
  | CReplaceContainerArchived string string bytes
  | CGet string caller
  | CGetContainerByParent string caller
  | CGetLatestSignedPdfByChain string caller
  | CDelete string caller

text \<open>The calls that answer with success or an error only.\<close>

datatype unit_call =
    CGrant grant_input
  | CExtendRetention string string
  | CSetResultFreeze string bool
  | CDeleteHistoryChain string string

datatype ping_target = PingStore | PingBlob

datatype prog =
    Done reply
  | Emit audit_event prog
  | DocCall doc_call "err + document \<Rightarrow> prog"
  | UnitCall unit_call "err + unit \<Rightarrow> prog"
  | ContentCall string caller "(err \<times> document option) + document \<times> bytes \<Rightarrow> prog"
  | ListCall caller int string "err + document list \<Rightarrow> prog"
  | ListChainsCall caller int string bool "err + chain list \<Rightarrow> prog"
  | GetChainCall caller string "err + chain \<Rightarrow> prog"
  | ListHistoryCall string int string "err + history_chain list \<Rightarrow> prog"
  | ChainRetentionCall string "err + time \<times> int \<Rightarrow> prog"
  | ScanCall string bytes "err + verdict \<Rightarrow> prog"
  | PingCall ping_target "string + unit \<Rightarrow> prog"
  | NowCall "time \<Rightarrow> prog"

primrec emits :: "audit_event list \<Rightarrow> prog \<Rightarrow> prog" where
  "emits [] p = p"
| "emits (e # es) p = Emit e (emits es p)"

section \<open>The router\<close>

text \<open>
  The third-party packages the handlers call: the document gate (\<open>docgate\<close>), the identity-code
  spellings (\<open>identitycode\<close>), the name of the tenant claim, and the container library.
\<close>

record gate_result =
  gt_Kind :: string
  gt_HasSignatures :: bool

record gate_error =
  ge_TooLarge :: bool
  ge_Message :: string

record libs =
  lb_Check :: "string \<Rightarrow> bytes \<Rightarrow> int \<Rightarrow> gate_error + gate_result"
  lb_KindPDF :: string
  lb_Key :: "string \<Rightarrow> string"
  lb_Canonical :: "string \<Rightarrow> string \<Rightarrow> string + string"
  lb_ClaimTenant :: string
  lb_asice :: asice

record router =
  ro_Audit :: recorder
  ro_Config :: configuration
  ro_libs :: libs

definition callerID :: "http_ctx \<Rightarrow> string" where
  "callerID ctx = us_ID (rq_User ctx)"

text \<open>Run \<open>k\<close> if the token carries the scope, else report the denial and refuse.\<close>

definition requireScope :: "router \<Rightarrow> http_ctx \<Rightarrow> string \<Rightarrow> prog \<Rightarrow> prog" where
  "requireScope r ctx level k =
     (if us_HasScopeLevel (rq_User ctx) ''documents'' level then k
      else emits (Denied (ro_Audit r) (callerID ctx) (''documents:'' @ level))
             (Done (NewProblem ''err:document:forbidden'' None None
                (Some (''missing documents:'' @ level @ '' scope'')))))"

definition productPrincipal :: "router \<Rightarrow> http_ctx \<Rightarrow> string \<times> string" where
  "productPrincipal r ctx =
     (let tenant = us_ClaimValue (rq_User ctx) (lb_ClaimTenant (ro_libs r));
          product = ProductFor (ro_Config r) (us_ID (rq_User ctx))
      in if product = [] \<or> tenant = [] then ([], tenant)
         else (''product:'' @ product @ '':'' @ tenant, tenant))"

definition reqCaller :: "router \<Rightarrow> http_ctx \<Rightarrow> caller" where
  "reqCaller r ctx =
     (let serial0 = us_ClaimValue (rq_User ctx) ''serial_number'';
          serial = (if serial0 \<noteq> [] then lb_Key (ro_libs r) serial0 else serial0);
          (princ, tenant) = productPrincipal r ctx
      in \<lparr>cl_Sub = us_ID (rq_User ctx), cl_Serial = serial, cl_Product = princ, cl_Tenant = tenant\<rparr>)"

definition store_problem :: "err \<Rightarrow> reply" where
  "store_problem e =
     (case e of
        ErrNotFound \<Rightarrow> NewProblem ''err:document:notFound'' None (Some ''Document not found'')
          (Some ''document not found'')
      | ErrLegalHold \<Rightarrow> NewProblem ''err:document:legalHold'' (Some 409) (Some ''Document under legal hold'')
          (Some ''document is under legal hold'')
      | ErrChainAdvanced \<Rightarrow> NewProblem ''err:document:chainAdvanced'' (Some 409)
          (Some ''Document changed since signing began'')
          (Some ''the document changed since signing began; reload the latest and retry'')
      | ErrNotBundleable \<Rightarrow> NewProblem ''err:document:notBundleable'' (Some 422) (Some ''Document not bundleable'')
          (Some ''only an unsigned source or an already-signed file (PDF or ASiC-E) can be bundled, and only an unsigned bundle can be rebundled'')
      | ErrGone \<Rightarrow> NewProblem ''err:document:gone'' None (Some ''Document no longer available'')
          (Some ''document bytes are no longer available (purged on TTL/delete)'')
      | ErrChainLive \<Rightarrow> NewProblem ''err:document:internal'' None None None
      | ErrOther msg \<Rightarrow> NewProblem ''err:document:internal'' None None None)"

definition writeStoreErr :: "err \<Rightarrow> prog" where
  "writeStoreErr e = Done (store_problem e)"

text \<open>The message of an error, where a handler puts it on the wire.\<close>

definition Error :: "err \<Rightarrow> string" where
  "Error e =
     (case e of
        ErrNotFound \<Rightarrow> ''document: not found''
      | ErrLegalHold \<Rightarrow> ''document: under legal hold''
      | ErrChainAdvanced \<Rightarrow> ''document: chain advanced since signing began''
      | ErrChainLive \<Rightarrow> ''document: chain is live or under legal hold''
      | ErrNotBundleable \<Rightarrow> ''document: not bundleable''
      | ErrGone \<Rightarrow> ''documents: bytes no longer available''
      | ErrOther msg \<Rightarrow> msg)"

end
