(* ===== verification/Routes.thy ===== *)
theory Routes
  imports Router GoTime
begin

text \<open>
  \<open>routes/documents.go\<close> and \<open>routes/health.go\<close>: the handlers, each as the program of its service calls.
\<close>

section \<open>Form and file helpers\<close>

definition formField :: "http_ctx \<Rightarrow> string \<Rightarrow> string" where
  "formField ctx name = (case rq_FormString ctx name of None \<Rightarrow> [] | Some v \<Rightarrow> trim_space v)"

definition too_large :: "router \<Rightarrow> http_ctx \<Rightarrow> string \<Rightarrow> prog" where
  "too_large r ctx field =
     emits (CapExceeded (ro_Audit r) (callerID ctx))
       (Done (NewProblem ''err:document:fileTooLarge'' (Some 413) (Some ''File too large'')
          (Some (field @ '' exceeds MAX_FILE_BYTES''))))"

definition unreadable :: "string \<Rightarrow> prog" where
  "unreadable field =
     Done (NewProblem ''err:document:invalidUpload'' (Some 400) None (Some (''could not read '' @ field)))"

definition readRequiredFile :: "router \<Rightarrow> http_ctx \<Rightarrow> string \<Rightarrow> (file_header \<Rightarrow> bytes \<Rightarrow> prog) \<Rightarrow> prog" where
  "readRequiredFile r ctx field k =
     (case rq_File ctx field of
        None \<Rightarrow> Done (NewProblem ''err:document:missingFile'' (Some 400) None
                  (Some (field @ '' is required (multipart/form-data)'')))
      | Some fh \<Rightarrow>
          if fh_Size fh > cf_MaxFileBytes (ro_Config r) then too_large r ctx field
          else (case fh_Data fh of None \<Rightarrow> unreadable field | Some data \<Rightarrow> k fh data))"

text \<open>All files of a field, in order; the first one too large or unreadable ends the request.\<close>

primrec readFiles :: "router \<Rightarrow> http_ctx \<Rightarrow> string \<Rightarrow> file_header list \<Rightarrow> (pkg_file list \<Rightarrow> prog) \<Rightarrow> prog" where
  "readFiles r ctx field [] k = k []"
| "readFiles r ctx field (fh # fhs) k =
     (if fh_Size fh > cf_MaxFileBytes (ro_Config r) then too_large r ctx field
      else case fh_Data fh of
        None \<Rightarrow> unreadable field
      | Some data \<Rightarrow> readFiles r ctx field fhs (\<lambda>files. k (\<lparr>pf_Name = fh_Filename fh, pf_Data = data\<rparr> # files)))"

definition containerName :: "string \<Rightarrow> string" where
  "containerName sourceFilename =
     (if sourceFilename = [] then ''container.asice''
      else case last_index_byte (CHR ''.'') sourceFilename of
        Some i \<Rightarrow> if i > 0 then take i sourceFilename @ ''.asice'' else sourceFilename @ ''.asice''
      | None \<Rightarrow> sourceFilename @ ''.asice'')"

section \<open>Download headers\<close>

definition sanitizeFilename :: "string \<Rightarrow> string" where
  "sanitizeFilename name = filter (\<lambda>c. c \<notin> set [CHR 0x22, CHR 0x0D, CHR 0x0A, CHR 0x5C]) name"

definition browserActiveMimeTypes :: "string list" where
  "browserActiveMimeTypes =
     [''text/html'', ''application/xhtml+xml'', ''image/svg+xml'', ''text/xml'', ''application/xml'']"

definition mime_base :: "string \<Rightarrow> string" where
  "mime_base mime = (case index_byte (CHR '';'') mime of Some i \<Rightarrow> take i mime | None \<Rightarrow> mime)"

definition inertMime :: "string \<Rightarrow> string" where
  "inertMime mime =
     (if to_lower (trim_space (mime_base mime)) \<in> set browserActiveMimeTypes then ''application/octet-stream'' else mime)"

definition setDownloadHeaders :: "string \<Rightarrow> string \<Rightarrow> (string \<times> string) list" where
  "setDownloadHeaders filename mime =
     (if filename \<noteq> []
      then [(''Content-Disposition'', ''attachment; filename='' @ [CHR 0x22] @ sanitizeFilename filename @ [CHR 0x22])]
      else []) @
     [(''X-Content-Type-Options'', ''nosniff''), (''Content-Type'', inertMime mime)]"

definition isConduit :: "http_ctx \<Rightarrow> bool" where
  "isConduit ctx =
     (case rq_QueryString ctx ''conduit'' of
        Some v \<Rightarrow> v = ''signing'' \<or> v = ''render'' \<or> v = ''review''
      | None \<Rightarrow> False)"

definition result_frozen :: prog where
  "result_frozen =
     Done (NewProblem ''err:document:resultFrozen'' (Some 409) None
       (Some ''the signed result is locked while its signing workflow is in progress; it becomes available when the workflow reaches a final state''))"

definition packaging_failed :: "string \<Rightarrow> err \<Rightarrow> prog" where
  "packaging_failed what e =
     Done (NewProblem ''err:document:packagingFailed'' (Some 422) None (Some (what @ Error e)))"

section \<open>Upload\<close>

definition writeGateErr :: "router \<Rightarrow> http_ctx \<Rightarrow> gate_error \<Rightarrow> prog" where
  "writeGateErr r ctx e =
     (if ge_TooLarge e
      then emits (CapExceeded (ro_Audit r) (callerID ctx))
             (Done (NewProblem ''err:document:fileTooLarge'' (Some 413) (Some ''File too large'') (Some (ge_Message e))))
      else Done (NewProblem ''err:document:malformedUpload'' (Some 422) (Some ''Upload rejected'') (Some (ge_Message e))))"

definition bad_until :: "string \<Rightarrow> prog" where
  "bad_until detail = Done (NewProblem ''err:document:invalidRetentionUntil'' (Some 400) None (Some detail))"

text \<open>Owner kind, owner, tenant and date of a new upload, settled before any byte is stored.\<close>

definition resolveRetention ::
  "router \<Rightarrow> http_ctx \<Rightarrow> string \<Rightarrow> (string \<Rightarrow> string \<Rightarrow> string \<Rightarrow> time option \<Rightarrow> prog) \<Rightarrow> prog" where
  "resolveRetention r ctx rclass k =
     (if rclass \<noteq> RetentionDurable then
        if formField ctx ''retention_until'' \<noteq> []
        then bad_until ''retention_until may only be set with retention_class=durable''
        else k PrincipalSub (callerID ctx) [] None
      else requireScope r ctx ''durable''
        (case productPrincipal r ctx of
           (princ, tenantID) \<Rightarrow>
             if princ = [] then
               emits (Denied (ro_Audit r) (callerID ctx) ''documents:durable'')
                 (Done (NewProblem ''err:document:forbidden'' None None
                    (Some ''a durable document needs a product identity acting for an organisation'')))
             else if formField ctx ''retention_until'' \<noteq> [] then
               (case parse_rfc3339 (formField ctx ''retention_until'') of
                  None \<Rightarrow> bad_until ''retention_until must be an RFC3339 instant''
                | Some t \<Rightarrow> NowCall (\<lambda>now.
                    if \<not> now < t then bad_until ''retention_until must be in the future''
                    else k PrincipalProduct princ tenantID (Some t)))
             else k PrincipalProduct princ tenantID None))"

text \<open>The optional malware scan: a match refuses the upload, an unavailable scanner admits it.\<close>

definition scan_upload :: "router \<Rightarrow> http_ctx \<Rightarrow> bytes \<Rightarrow> prog \<Rightarrow> prog" where
  "scan_upload r ctx data k =
     (let ep = cf_ClamAVEndpoint (ro_Config r) in
      if ep = [] then k
      else ScanCall ep data (\<lambda>x. case x of
          Inl e \<Rightarrow> k
        | Inr v \<Rightarrow>
            if \<not> vd_Clean v then
              emits (IngestOutcome (ro_Audit r) (callerID ctx) False)
                (Done (NewProblem ''err:document:infectedUpload'' (Some 422) (Some ''Upload rejected by malware scan'')
                   (Some (''the malware scan rejected this file ('' @ vd_Signature v @ '')''))))
            else k))"

text \<open>The row of an upload: a PDF the gate found signatures in is recorded as signed.\<close>

definition upload_input ::
  "router \<Rightarrow> http_ctx \<Rightarrow> file_header \<Rightarrow> bytes \<Rightarrow> gate_result \<Rightarrow> string \<Rightarrow> string \<Rightarrow> string \<Rightarrow> time option \<Rightarrow> ingest_input" where
  "upload_input r ctx fh data gate ownerKind owner tenant until =
     (let mime = (if formField ctx ''mime'' = [] then fh_ContentType fh else formField ctx ''mime'');
          signed = (gt_Kind gate = lb_KindPDF (ro_libs r) \<and> gt_HasSignatures gate) in
      \<lparr>in_Owner = owner, in_Serial = [], in_TenantID = tenant,
       in_Kind = (if signed then ''pdf'' else []), in_ParentID = [], in_Filename = fh_Filename fh,
       in_Mime = mime, in_PreservationClass = formField ctx ''preservation_class'',
       in_Status = (if signed then ''signed'' else []), in_OwnerKind = ownerKind,
       in_RetentionClass = formField ctx ''retention_class'', in_RetentionUntil = until, in_Data = data\<rparr>)"

definition upload_answer :: "router \<Rightarrow> http_ctx \<Rightarrow> gate_result \<Rightarrow> err + document \<Rightarrow> prog" where
  "upload_answer r ctx gate x =
     (case x of
        Inl e \<Rightarrow> emits (IngestOutcome (ro_Audit r) (callerID ctx) False) (writeStoreErr e)
      | Inr doc \<Rightarrow>
          emits (IngestOutcome (ro_Audit r) (callerID ctx) True @ Uploaded (ro_Audit r) (callerID ctx) doc)
            (Done (Created (JIngested
               \<lparr>ri_id = d_ID doc, ri_contentHash = d_ContentHash doc, ri_mime = d_Mime doc, ri_size = d_Size doc,
                ri_preservationClass = d_PreservationClass doc, ri_retentionClass = d_RetentionClass doc,
                ri_hasSignatures = gt_HasSignatures gate\<rparr>))))"

definition ingest :: "router \<Rightarrow> http_ctx \<Rightarrow> prog" where
  "ingest r ctx = requireScope r ctx ''write'' (readRequiredFile r ctx ''file'' (\<lambda>fh data.
     if \<not> ValidPreservationClass (formField ctx ''preservation_class'') then
       Done (NewProblem ''err:document:invalidPreservationClass'' (Some 400) None
         (Some ''preservation_class must be none, b_lt or preservation''))
     else if \<not> ValidRetentionClass (formField ctx ''retention_class'') then
       Done (NewProblem ''err:document:invalidRetentionClass'' (Some 400) None
         (Some ''retention_class must be ttl or durable''))
     else resolveRetention r ctx (formField ctx ''retention_class'') (\<lambda>ownerKind owner tenant until.
       case lb_Check (ro_libs r) (fh_Filename fh) data (cf_MaxFileBytes (ro_Config r)) of
         Inl e \<Rightarrow> emits (IngestOutcome (ro_Audit r) (callerID ctx) False) (writeGateErr r ctx e)
       | Inr gate \<Rightarrow> scan_upload r ctx data
           (DocCall (CIngest (upload_input r ctx fh data gate ownerKind owner tenant until)) (upload_answer r ctx gate)))))"

section \<open>Reads\<close>

definition query_int :: "http_ctx \<Rightarrow> string \<Rightarrow> int" where
  "query_int ctx name = (case rq_QueryInt ctx name of Inr (Some l) \<Rightarrow> l | _ \<Rightarrow> 0)"

definition query_string :: "http_ctx \<Rightarrow> string \<Rightarrow> string" where
  "query_string ctx name = (case rq_QueryString ctx name of Some v \<Rightarrow> v | None \<Rightarrow> [])"

definition query_bool :: "http_ctx \<Rightarrow> string \<Rightarrow> bool" where
  "query_bool ctx name = (case rq_QueryBool ctx name of Inr (Some b) \<Rightarrow> b | _ \<Rightarrow> False)"

definition list_documents :: "router \<Rightarrow> http_ctx \<Rightarrow> prog" where
  "list_documents r ctx = requireScope r ctx ''read''
     (let limit = query_int ctx ''limit''; after = query_string ctx ''after'' in
      if rq_QueryString ctx ''view'' = Some ''chains'' then
        ListChainsCall (reqCaller r ctx) limit after (query_bool ctx ''includeExpired'') (\<lambda>x. case x of
            Inl e \<Rightarrow> writeStoreErr e
          | Inr cs \<Rightarrow>
              Done (OK (JChainList \<lparr>cl_chains = map ChainFromStore cs, cl_count = length cs\<rparr>)))
      else
        ListCall (reqCaller r ctx) limit after (\<lambda>x. case x of
            Inl e \<Rightarrow> writeStoreErr e
          | Inr docs \<Rightarrow>
              Done (OK (JDocumentList \<lparr>dl_documents = map FromStore docs, dl_count = length docs\<rparr>))))"

definition getDocument :: "router \<Rightarrow> http_ctx \<Rightarrow> prog" where
  "getDocument r ctx = requireScope r ctx ''read''
     (DocCall (CGet (rq_Param ctx ''id'') (reqCaller r ctx)) (\<lambda>x. case x of
         Inl e \<Rightarrow> writeStoreErr e
       | Inr doc \<Rightarrow> Done (OK (JDocument (FromStore doc)))))"

definition getDigest :: "router \<Rightarrow> http_ctx \<Rightarrow> prog" where
  "getDigest r ctx = requireScope r ctx ''read''
     (DocCall (CGet (rq_Param ctx ''id'') (reqCaller r ctx)) (\<lambda>x. case x of
         Inl e \<Rightarrow> writeStoreErr e
       | Inr doc \<Rightarrow> Done (OK (JDigest
           \<lparr>rg_id = d_ID doc, rg_contentHash = d_ContentHash doc, rg_algorithm = ''SHA-256''\<rparr>))))"

definition getContent :: "router \<Rightarrow> http_ctx \<Rightarrow> prog" where
  "getContent r ctx = requireScope r ctx ''read''
     (ContentCall (rq_Param ctx ''id'') (reqCaller r ctx) (\<lambda>x. case x of
         Inl (e, d) \<Rightarrow>
           if e = ErrNotFound \<or> e = ErrGone then writeStoreErr e
           else emits (IntegrityFailure (ro_Audit r) (callerID ctx) ''content decrypt/read failed'') (writeStoreErr e)
       | Inr (doc, data) \<Rightarrow>
           if d_ResultFrozen doc \<and> d_Kind doc \<noteq> ''source'' \<and> \<not> isConduit ctx then result_frozen
           else emits (DocumentAccessed (ro_Audit r) (callerID ctx) (d_Owner doc) (d_ID doc))
                  (Done (Reply 200 (setDownloadHeaders (d_Filename doc) (d_Mime doc)) (Raw data)))))"

definition chainHead :: "router \<Rightarrow> http_ctx \<Rightarrow> prog" where
  "chainHead r ctx = requireScope r ctx ''read''
     (let root = rq_Param ctx ''id'';
          head = (\<lambda>d. Done (OK (JChainHead \<lparr>rx_id = d_ID d, rx_kind = d_Kind d, rx_contentHash = d_ContentHash d\<rparr>))) in
      DocCall (CGetLatestSignedPdfByChain root (reqCaller r ctx)) (\<lambda>x. case x of
          Inr pdf \<Rightarrow> head pdf
        | Inl e \<Rightarrow>
            if e \<noteq> ErrNotFound then writeStoreErr e
            else DocCall (CGetContainerByParent root (reqCaller r ctx)) (\<lambda>y. case y of
                Inr cont \<Rightarrow> head cont
              | Inl e' \<Rightarrow>
                  if e' \<noteq> ErrNotFound then writeStoreErr e'
                  else Done (OK (JChainHead \<lparr>rx_id = [], rx_kind = [], rx_contentHash = []\<rparr>)))))"

definition chain_handler :: "router \<Rightarrow> http_ctx \<Rightarrow> prog" where
  "chain_handler r ctx = requireScope r ctx ''read''
     (GetChainCall (reqCaller r ctx) (rq_Param ctx ''id'') (\<lambda>x. case x of
         Inl e \<Rightarrow> writeStoreErr e
       | Inr c \<Rightarrow> Done (OK (JChain (ChainFromStore c)))))"

definition not_a_container :: prog where
  "not_a_container =
     Done (NewProblem ''err:document:notAContainer'' (Some 422) None (Some ''document is not an ASiC-E container''))"

definition dataObjects :: "router \<Rightarrow> http_ctx \<Rightarrow> prog" where
  "dataObjects r ctx = requireScope r ctx ''read''
     (ContentCall (rq_Param ctx ''id'') (reqCaller r ctx) (\<lambda>x. case x of
         Inl (e, d) \<Rightarrow> writeStoreErr e
       | Inr (doc, data) \<Rightarrow>
           if d_Kind doc \<noteq> ''container'' then not_a_container
           else (case DataObjects (lb_asice (ro_libs r)) data of
               Inl e \<Rightarrow> packaging_failed ''could not read the container data objects: '' e
             | Inr members \<Rightarrow>
                 Done (OK (JDataObjects
                   \<lparr>os_containerId = d_ID doc,
                    os_dataObjects = map (\<lambda>f. \<lparr>ob_name = pf_Name f, ob_contentHash = CanonicalHash (pf_Data f),
                                               ob_algorithm = ''SHA-256''\<rparr>) members\<rparr>)))))"

definition inner_mime :: "manifest_file list \<Rightarrow> string \<Rightarrow> string" where
  "inner_mime fs name =
     (case find (\<lambda>f. mf_Name f = name \<and> mf_MediaType f \<noteq> []) fs of
        Some f \<Rightarrow> mf_MediaType f
      | None \<Rightarrow> ''application/octet-stream'')"

definition extractObject :: "router \<Rightarrow> http_ctx \<Rightarrow> prog" where
  "extractObject r ctx = requireScope r ctx ''read''
     (ContentCall (rq_Param ctx ''id'') (reqCaller r ctx) (\<lambda>x. case x of
         Inl (e, d) \<Rightarrow> writeStoreErr e
       | Inr (doc, data) \<Rightarrow>
           if d_Kind doc \<noteq> ''container'' then not_a_container
           else if d_ResultFrozen doc \<and> \<not> isConduit ctx then result_frozen
           else (case DataObjects (lb_asice (ro_libs r)) data of
               Inl e \<Rightarrow> packaging_failed ''could not read the container data objects: '' e
             | Inr members \<Rightarrow>
                 (let name = rq_Param ctx ''name'' in
                  case find (\<lambda>f. pf_Name f = name) members of
                    None \<Rightarrow> Done (NewProblem ''err:document:notFound'' None (Some ''Inner file not found'')
                              (Some ''the container holds no inner file with that name''))
                  | Some f \<Rightarrow>
                      emits (DocumentAccessed (ro_Audit r) (callerID ctx) (d_Owner doc) (d_ID doc))
                        (Done (Reply 200 (setDownloadHeaders name (inner_mime (d_InnerFiles doc) name)) (Raw (pf_Data f))))))))"

definition listHistory :: "router \<Rightarrow> http_ctx \<Rightarrow> prog" where
  "listHistory r ctx = requireScope r ctx ''read''
     (ListHistoryCall (callerID ctx) (query_int ctx ''limit'') (query_string ctx ''after'') (\<lambda>x. case x of
         Inl e \<Rightarrow> writeStoreErr e
       | Inr cs \<Rightarrow>
           Done (OK (JHistoryList \<lparr>hl_chains = map HistoryFromStore cs, hl_count = length cs\<rparr>))))"

section \<open>Delete, access and freeze\<close>

definition deleteDocument :: "router \<Rightarrow> http_ctx \<Rightarrow> prog" where
  "deleteDocument r ctx = requireScope r ctx ''write''
     (DocCall (CDelete (rq_Param ctx ''id'') (reqCaller r ctx)) (\<lambda>x. case x of
         Inl e \<Rightarrow> writeStoreErr e
       | Inr doc \<Rightarrow>
           emits (DeleteOutcome (ro_Audit r) (callerID ctx) True @ Deleted (ro_Audit r) (callerID ctx) doc)
             (Done NoContent)))"

definition deleteHistory :: "router \<Rightarrow> http_ctx \<Rightarrow> prog" where
  "deleteHistory r ctx = requireScope r ctx ''write''
     (UnitCall (CDeleteHistoryChain (callerID ctx) (rq_Param ctx ''chainRoot'')) (\<lambda>x. case x of
         Inl e \<Rightarrow>
           if e = ErrChainLive
           then Done (NewProblem ''err:document:chainLive'' (Some 409) None (Some ''the chain is live or under legal hold''))
           else writeStoreErr e
       | Inr u \<Rightarrow> Done NoContent))"

record grant_acl_request =
  ga_Serial :: string
  ga_Rights :: "string list"

definition grantACL :: "router \<Rightarrow> string + grant_acl_request \<Rightarrow> http_ctx \<Rightarrow> prog" where
  "grantACL r body ctx = requireScope r ctx ''grant''
     (case body of
        Inl e \<Rightarrow> Done (BadBody e)
      | Inr req \<Rightarrow>
          (let serial = trim_space (ga_Serial req) in
           if serial = [] then
             Done (NewProblem ''err:document:missingSerial'' (Some 400) None (Some ''serial is required''))
           else (case lb_Canonical (ro_libs r) serial [] of
               Inl e \<Rightarrow> Done (NewProblem ''err:document:invalidSerial'' (Some 422) None
                         (Some ''serial must be a fully qualified identity code, e.g. PNO<CC>-<code>''))
             | Inr canonical \<Rightarrow>
                 if list_ex (\<lambda>right. right \<noteq> ''read'' \<and> right \<noteq> ''cosign'') (ga_Rights req) then
                   Done (NewProblem ''err:document:invalidRight'' (Some 422) None
                     (Some ''rights must be a subset of {read, cosign}''))
                 else UnitCall (CGrant
                     \<lparr>gi_DocID = rq_Param ctx ''id'', gi_PrincipalKind = ''serial'', gi_PrincipalID = canonical,
                      gi_Rights = ga_Rights req, gi_TenantID = [], gi_GrantedBy = callerID ctx\<rparr>)
                   (\<lambda>x. case x of Inl e \<Rightarrow> writeStoreErr e | Inr u \<Rightarrow> Done NoContent))))"

text \<open>The body arrives validated: the framework refuses one without the flag.\<close>

definition resultFreeze :: "router \<Rightarrow> string + bool \<Rightarrow> http_ctx \<Rightarrow> prog" where
  "resultFreeze r body ctx = requireScope r ctx ''grant''
     (case body of
        Inl e \<Rightarrow> Done (BadBody e)
      | Inr frozen \<Rightarrow>
          UnitCall (CSetResultFreeze (rq_Param ctx ''id'') frozen)
            (\<lambda>x. case x of Inl e \<Rightarrow> writeStoreErr e | Inr u \<Rightarrow> Done NoContent))"

definition chainRetention :: "router \<Rightarrow> http_ctx \<Rightarrow> prog" where
  "chainRetention r ctx = requireScope r ctx ''grant''
     (ChainRetentionCall (rq_Param ctx ''id'') (\<lambda>x. case x of
         Inl e \<Rightarrow> writeStoreErr e
       | Inr (until, live) \<Rightarrow>
           Done (OK (JChainRetention \<lparr>rr_retentionUntil = until, rr_liveRows = live\<rparr>))))"

section \<open>Signing\<close>

definition container_reply :: "document \<Rightarrow> reply" where
  "container_reply doc =
     Created (JContainer \<lparr>ro_containerId = d_ID doc, ro_contentHash = d_ContentHash doc, ro_mime = d_Mime doc, ro_size = d_Size doc\<rparr>)"

definition signed_reply :: "document \<Rightarrow> reply" where
  "signed_reply doc =
     Created (JSignedDocument \<lparr>rs_signedDocumentId = d_ID doc, rs_contentHash = d_ContentHash doc, rs_mime = d_Mime doc, rs_size = d_Size doc\<rparr>)"

text \<open>The audit events of a stored artifact.\<close>

definition stored_events :: "router \<Rightarrow> string \<Rightarrow> document \<Rightarrow> audit_event list" where
  "stored_events r caller doc = IngestOutcome (ro_Audit r) caller True @ Uploaded (ro_Audit r) caller doc"

definition coSignInto :: "router \<Rightarrow> string \<Rightarrow> document \<Rightarrow> bytes \<Rightarrow> bytes \<Rightarrow> prog" where
  "coSignInto r caller contDoc contBytes fileless =
     (case CoSign (lb_asice (ro_libs r)) contBytes fileless of
        Inl e \<Rightarrow> emits (IntegrityFailure (ro_Audit r) caller (''asice co-sign failed: '' @ Error e))
                  (packaging_failed ''could not co-sign the container: '' e)
      | Inr completed \<Rightarrow>
          DocCall (CReplaceContainer (d_ID contDoc) (d_ContentHash contDoc) completed) (\<lambda>x. case x of
              Inl e \<Rightarrow> writeStoreErr e
            | Inr doc \<Rightarrow> emits (stored_events r caller doc) (Done (container_reply doc))))"

definition container_input :: "router \<Rightarrow> string \<Rightarrow> string \<Rightarrow> string \<Rightarrow> string \<Rightarrow> string \<Rightarrow> bytes \<Rightarrow> ingest_input" where
  "container_input r caller serial parentID presv filename container =
     \<lparr>in_Owner = caller, in_Serial = serial, in_TenantID = [], in_Kind = ''container'', in_ParentID = parentID,
      in_Filename = filename, in_Mime = as_MimeType (lb_asice (ro_libs r)), in_PreservationClass = presv,
      in_Status = ''signed'', in_OwnerKind = [], in_RetentionClass = [], in_RetentionUntil = None, in_Data = container\<rparr>"

text \<open>The first container of a source, or, when another party created it in between, a co-signature
  into theirs.\<close>

definition complete_answer :: "router \<Rightarrow> http_ctx \<Rightarrow> bytes \<Rightarrow> err + document \<Rightarrow> prog" where
  "complete_answer r ctx fileless y =
     (case y of
        Inr doc \<Rightarrow> emits (stored_events r (callerID ctx) doc) (Done (container_reply doc))
      | Inl e \<Rightarrow>
          if e \<noteq> ErrChainAdvanced
          then emits (IngestOutcome (ro_Audit r) (callerID ctx) False) (writeStoreErr e)
          else DocCall (CGetContainerByParent (rq_Param ctx ''id'') (reqCaller r ctx)) (\<lambda>z. case z of
              Inl werr \<Rightarrow> writeStoreErr werr
            | Inr winner \<Rightarrow>
                ContentCall (d_ID winner) (reqCaller r ctx) (\<lambda>u. case u of
                    Inl (werr, d) \<Rightarrow> writeStoreErr werr
                  | Inr (winnerDoc, winnerBytes) \<Rightarrow>
                      coSignInto r (callerID ctx) winnerDoc winnerBytes fileless)))"

definition complete :: "router \<Rightarrow> http_ctx \<Rightarrow> prog" where
  "complete r ctx = requireScope r ctx ''write'' (readRequiredFile r ctx ''container'' (\<lambda>fh fileless.
     let caller = callerID ctx; k = rq_Param ctx ''id''; rc = reqCaller r ctx in
     ContentCall k rc (\<lambda>x. case x of
         Inl (e, d) \<Rightarrow> writeStoreErr e
       | Inr (srcDoc, srcBytes) \<Rightarrow>
           if d_Kind srcDoc = ''container'' then coSignInto r caller srcDoc srcBytes fileless
           else (case Complete (lb_asice (ro_libs r)) fileless [\<lparr>pf_Name = d_Filename srcDoc, pf_Data = srcBytes\<rparr>] of
               Inl e \<Rightarrow> emits (IntegrityFailure (ro_Audit r) caller (''asice complete (fill) failed: '' @ Error e))
                         (packaging_failed ''could not complete the container: '' e)
             | Inr completed \<Rightarrow>
                 DocCall (CIngest (container_input r caller (cl_Serial rc) k (d_PreservationClass srcDoc)
                            (containerName (d_Filename srcDoc)) completed)) (complete_answer r ctx fileless)))))"

definition storeContainer :: "router \<Rightarrow> http_ctx \<Rightarrow> string \<Rightarrow> string \<Rightarrow> string \<Rightarrow> string \<Rightarrow> bytes \<Rightarrow> prog" where
  "storeContainer r ctx caller parentID presv filename container =
     DocCall (CIngest (container_input r caller (cl_Serial (reqCaller r ctx)) parentID presv filename container))
       (\<lambda>x. case x of
          Inl e \<Rightarrow> emits (IngestOutcome (ro_Audit r) caller False) (writeStoreErr e)
        | Inr doc \<Rightarrow> emits (stored_events r caller doc) (Done (container_reply doc)))"

definition assemble :: "router \<Rightarrow> http_ctx \<Rightarrow> prog" where
  "assemble r ctx = requireScope r ctx ''write''
     (readFiles r ctx ''documents'' (rq_Files ctx ''documents'') (\<lambda>docs.
      readFiles r ctx ''signatures'' (rq_Files ctx ''signatures'') (\<lambda>sigs.
        if docs = [] \<or> sigs = [] then
          Done (NewProblem ''err:document:missingFiles'' (Some 400) None
            (Some ''documents and signatures are both required''))
        else (case Assemble (lb_asice (ro_libs r)) docs sigs of
            Inl e \<Rightarrow> emits (IntegrityFailure (ro_Audit r) (callerID ctx) (''asice assemble failed: '' @ Error e))
                      (packaging_failed ''could not assemble the container: '' e)
          | Inr container \<Rightarrow> storeContainer r ctx (callerID ctx) [] ''none'' ''container.asice'' container))))"

text \<open>The reply is written before the retention of the chain root is rolled forward.\<close>

definition addSignature :: "router \<Rightarrow> http_ctx \<Rightarrow> prog" where
  "addSignature r ctx = requireScope r ctx ''write'' (readRequiredFile r ctx ''signature'' (\<lambda>fh sig.
     let caller = callerID ctx; k = rq_Param ctx ''id'' in
     ContentCall k (reqCaller r ctx) (\<lambda>x. case x of
         Inl (e, d) \<Rightarrow> writeStoreErr e
       | Inr (contDoc, contBytes) \<Rightarrow>
           (case AddSignature (lb_asice (ro_libs r)) contBytes sig of
              Inl e \<Rightarrow> emits (IntegrityFailure (ro_Audit r) caller (''asice add-signature failed: '' @ Error e))
                        (packaging_failed ''could not add the signature: '' e)
            | Inr updated \<Rightarrow>
                DocCall (CReplaceContainer k (d_ContentHash contDoc) updated) (\<lambda>y. case y of
                    Inl e \<Rightarrow> writeStoreErr e
                  | Inr doc \<Rightarrow>
                      emits (stored_events r caller doc)
                        (if d_ParentID contDoc \<noteq> []
                         then UnitCall (CExtendRetention (d_ParentID contDoc) caller) (\<lambda>u. Done (container_reply doc))
                         else Done (container_reply doc)))))))"

text \<open>The largest \<open>int64\<close>: the size cap of a signing service's own result.\<close>

definition MaxInt64 :: int where "MaxInt64 = 2 ^ 63 - 1"

definition signedFormIsPdf :: "router \<Rightarrow> string \<Rightarrow> bytes \<Rightarrow> prog \<Rightarrow> prog" where
  "signedFormIsPdf r caller data k =
     (let mismatch = (\<lambda>observed.
            emits (IngestOutcome (ro_Audit r) caller False @
                   IntegrityFailure (ro_Audit r) caller (''signed-PDF store received '' @ observed @ '' instead of PDF content''))
              (Done (NewProblem ''err:document:signedFormMismatch'' (Some 422) (Some ''Signed document is not a PDF'')
                 (Some (''the signed document was stored as a PDF but the bytes are '' @ observed @
                        ''; nothing was stored and the document is unchanged''))))) in
      case lb_Check (ro_libs r) ''signed'' data MaxInt64 of
        Inr gate \<Rightarrow> if gt_Kind gate = lb_KindPDF (ro_libs r) then k else mismatch (gt_Kind gate)
      | Inl e \<Rightarrow> mismatch (''unreadable content ('' @ ge_Message e @ '')''))"

definition supersedeSignedPdf :: "router \<Rightarrow> http_ctx \<Rightarrow> string \<Rightarrow> string \<Rightarrow> bytes \<Rightarrow> prog" where
  "supersedeSignedPdf r ctx caller chainRoot data =
     DocCall (CGetLatestSignedPdfByChain chainRoot (reqCaller r ctx)) (\<lambda>x. case x of
         Inl e \<Rightarrow> emits (IngestOutcome (ro_Audit r) caller False) (writeStoreErr e)
       | Inr head \<Rightarrow>
           DocCall (CReplaceContainer (d_ID head) (d_ContentHash head) data) (\<lambda>y. case y of
               Inl e \<Rightarrow> emits (IngestOutcome (ro_Audit r) caller False) (writeStoreErr e)
             | Inr doc \<Rightarrow>
                 emits (stored_events r caller doc)
                   (UnitCall (CExtendRetention chainRoot caller) (\<lambda>u. Done (signed_reply doc)))))"

definition signed_input :: "router \<Rightarrow> http_ctx \<Rightarrow> file_header \<Rightarrow> bytes \<Rightarrow> document \<Rightarrow> string \<Rightarrow> ingest_input" where
  "signed_input r ctx fh data parent chainRoot =
     \<lparr>in_Owner = callerID ctx, in_Serial = cl_Serial (reqCaller r ctx), in_TenantID = [], in_Kind = ''pdf'',
      in_ParentID = chainRoot, in_Filename = fh_Filename fh,
      in_Mime = (if formField ctx ''mime'' = [] then fh_ContentType fh else formField ctx ''mime''),
      in_PreservationClass = d_PreservationClass parent, in_Status = ''signed'', in_OwnerKind = [],
      in_RetentionClass = [], in_RetentionUntil = None, in_Data = data\<rparr>"

definition signed_answer :: "router \<Rightarrow> http_ctx \<Rightarrow> string \<Rightarrow> bytes \<Rightarrow> err + document \<Rightarrow> prog" where
  "signed_answer r ctx chainRoot data y =
     (case y of
        Inl e \<Rightarrow>
          if e = ErrChainAdvanced then supersedeSignedPdf r ctx (callerID ctx) chainRoot data
          else emits (IngestOutcome (ro_Audit r) (callerID ctx) False) (writeStoreErr e)
      | Inr doc \<Rightarrow>
          emits (stored_events r (callerID ctx) doc)
            (UnitCall (CExtendRetention chainRoot (callerID ctx)) (\<lambda>u. Done (signed_reply doc))))"

definition storeSigned :: "router \<Rightarrow> http_ctx \<Rightarrow> prog" where
  "storeSigned r ctx = requireScope r ctx ''write'' (readRequiredFile r ctx ''signed'' (\<lambda>fh data.
     signedFormIsPdf r (callerID ctx) data
      (DocCall (CGet (rq_Param ctx ''id'') (reqCaller r ctx)) (\<lambda>x. case x of
           Inl e \<Rightarrow> writeStoreErr e
         | Inr parent \<Rightarrow>
             (let chainRoot = (if d_ParentID parent = [] then d_ID parent else d_ParentID parent) in
              if d_Kind parent = ''pdf'' then supersedeSignedPdf r ctx (callerID ctx) chainRoot data
              else DocCall (CIngest (signed_input r ctx fh data parent chainRoot)) (signed_answer r ctx chainRoot data))))))"

definition storeArchived :: "router \<Rightarrow> http_ctx \<Rightarrow> prog" where
  "storeArchived r ctx = requireScope r ctx ''write'' (readRequiredFile r ctx ''archived'' (\<lambda>fh data.
     DocCall (CGet (rq_Param ctx ''id'') (reqCaller r ctx)) (\<lambda>x. case x of
         Inl e \<Rightarrow> writeStoreErr e
       | Inr head \<Rightarrow>
           if d_Kind head = ''source'' then
             Done (NewProblem ''err:document:notSigned'' (Some 422) None
               (Some ''only a signed document can carry an archive timestamp''))
           else DocCall (CReplaceContainerArchived (d_ID head) (d_ContentHash head) data) (\<lambda>y. case y of
               Inl e \<Rightarrow> writeStoreErr e
             | Inr doc \<Rightarrow> Done (OK (JArchived
                 \<lparr>ra_id = d_ID doc, ra_contentHash = d_ContentHash doc, ra_mime = d_Mime doc, ra_size = d_Size doc\<rparr>))))))"

section \<open>Bundles\<close>

record bundle_request =
  br_SourceIDs :: "string list"
  br_Filename :: string

definition bundle_too_small :: "string \<Rightarrow> prog" where
  "bundle_too_small detail = Done (NewProblem ''err:document:bundleTooSmall'' (Some 422) None (Some detail))"

definition bundle_handler :: "router \<Rightarrow> string + bundle_request \<Rightarrow> http_ctx \<Rightarrow> prog" where
  "bundle_handler r body ctx = requireScope r ctx ''write''
     (case body of
        Inl e \<Rightarrow> Done (BadBody e)
      | Inr req \<Rightarrow>
          if length (br_SourceIDs req) < 1 then bundle_too_small ''a bundle needs at least one source document''
          else DocCall (CBundle (callerID ctx) [] (br_SourceIDs req) (br_Filename req)) (\<lambda>x. case x of
              Inl e \<Rightarrow> writeStoreErr e
            | Inr doc \<Rightarrow>
                emits (Uploaded (ro_Audit r) (callerID ctx) doc) (Done (Created (JDocument (FromStore doc))))))"

definition rebundle_handler :: "router \<Rightarrow> string + bundle_entry list \<Rightarrow> http_ctx \<Rightarrow> prog" where
  "rebundle_handler r body ctx = requireScope r ctx ''write''
     (case body of
        Inl e \<Rightarrow> Done (BadBody e)
      | Inr entries \<Rightarrow>
          if length entries < 1 then bundle_too_small ''a bundle needs at least one entry''
          else DocCall (CRebundle (callerID ctx) (rq_Param ctx ''id'') entries) (\<lambda>x. case x of
              Inl e \<Rightarrow> writeStoreErr e
            | Inr doc \<Rightarrow> Done (OK (JDocument (FromStore doc)))))"

section \<open>Health\<close>

definition healthz :: prog where
  "healthz = Done (OK (JStatus ''ok''))"

definition notReady :: prog where
  "notReady = Done (Reply 503 [] (JStatus ''not_ready''))"

definition readyz :: prog where
  "readyz = PingCall PingStore (\<lambda>x. case x of
       Inl e \<Rightarrow> notReady
     | Inr u \<Rightarrow> PingCall PingBlob (\<lambda>y. case y of
           Inl e \<Rightarrow> notReady
         | Inr v \<Rightarrow> Done (OK (JStatus ''ready''))))"

section \<open>The route table\<close>

datatype request =
    GetHealthz
  | GetReadyz
  | PostDocuments http_ctx
  | GetDocuments http_ctx
  | GetDocument http_ctx
  | GetDocumentContent http_ctx
  | GetDocumentDigest http_ctx
  | GetDocumentDataObjects http_ctx
  | GetDocumentHead http_ctx
  | GetDocumentChain http_ctx
  | DeleteDocument http_ctx
  | PostDocumentACL "string + grant_acl_request" http_ctx
  | PostResultFreeze "string + bool" http_ctx
  | GetDocumentRetention http_ctx
  | PostComplete http_ctx
  | PostAssemble http_ctx
  | PostAddSignature http_ctx
  | PostBundle "string + bundle_request" http_ctx
  | PostRebundle "string + bundle_entry list" http_ctx
  | GetDataObject http_ctx
  | PostSigned http_ctx
  | PostArchived http_ctx
  | GetHistory http_ctx
  | DeleteHistory http_ctx

primrec serve :: "router \<Rightarrow> request \<Rightarrow> prog" where
  "serve r GetHealthz = healthz"
| "serve r GetReadyz = readyz"
| "serve r (PostDocuments ctx) = ingest r ctx"
| "serve r (GetDocuments ctx) = list_documents r ctx"
| "serve r (GetDocument ctx) = getDocument r ctx"
| "serve r (GetDocumentContent ctx) = getContent r ctx"
| "serve r (GetDocumentDigest ctx) = getDigest r ctx"
| "serve r (GetDocumentDataObjects ctx) = dataObjects r ctx"
| "serve r (GetDocumentHead ctx) = chainHead r ctx"
| "serve r (GetDocumentChain ctx) = chain_handler r ctx"
| "serve r (DeleteDocument ctx) = deleteDocument r ctx"
| "serve r (PostDocumentACL body ctx) = grantACL r body ctx"
| "serve r (PostResultFreeze body ctx) = resultFreeze r body ctx"
| "serve r (GetDocumentRetention ctx) = chainRetention r ctx"
| "serve r (PostComplete ctx) = complete r ctx"
| "serve r (PostAssemble ctx) = assemble r ctx"
| "serve r (PostAddSignature ctx) = addSignature r ctx"
| "serve r (PostBundle body ctx) = bundle_handler r body ctx"
| "serve r (PostRebundle body ctx) = rebundle_handler r body ctx"
| "serve r (GetDataObject ctx) = extractObject r ctx"
| "serve r (PostSigned ctx) = storeSigned r ctx"
| "serve r (PostArchived ctx) = storeArchived r ctx"
| "serve r (GetHistory ctx) = listHistory r ctx"
| "serve r (DeleteHistory ctx) = deleteHistory r ctx"

end
