(* ===== verification/RouteRuns.thy ===== *)
theory RouteRuns
  imports Routes ServiceMachine
begin

text \<open>
  The runs of handler programs over the service.  Each call of a handler is one step of the service
  on the world as it is at that moment; before each of them, any number of service calls of other
  requests and of the retention task may have happened.  So a property of all runs holds for every
  interleaving of concurrent requests, at the granularity of service calls.
\<close>

section \<open>Executing one call\<close>

text \<open>What a call takes from outside.\<close>

record outside =
  o_env :: env
  o_ord1 :: "string list"
  o_ord2 :: "string list"
  o_clk :: "string \<Rightarrow> time"

primrec doc_exec :: "'b service \<Rightarrow> outside \<Rightarrow> doc_call \<Rightarrow> 'b world \<Rightarrow> (document, 'b world) res" where
  "doc_exec sv out (CIngest inp) w = svc_Ingest sv (o_env out) inp w"
| "doc_exec sv out (CBundle owner tenant ids filename) w = svc_Bundle sv (o_env out) owner tenant ids filename w"
| "doc_exec sv out (CRebundle owner k entries) w = svc_Rebundle sv (o_env out) owner k entries w"
| "doc_exec sv out (CReplaceContainer k h data) w = svc_ReplaceContainer sv (o_env out) k h data w"
| "doc_exec sv out (CReplaceContainerArchived k h data) w = svc_ReplaceContainerArchived sv (o_env out) k h data w"
| "doc_exec sv out (CGet k c) w = (svc_Get k c w, w)"
| "doc_exec sv out (CGetContainerByParent k c) w = (svc_GetContainerByParent (o_ord1 out) k c w, w)"
| "doc_exec sv out (CGetLatestSignedPdfByChain k c) w = (svc_GetLatestSignedPdfByChain (o_ord1 out) k c w, w)"
| "doc_exec sv out (CDelete k c) w = svc_Delete sv (o_ord1 out) (o_ord2 out) (o_clk out) k c w"

primrec unit_exec :: "'b service \<Rightarrow> outside \<Rightarrow> unit_call \<Rightarrow> 'b world \<Rightarrow> (unit, 'b world) res" where
  "unit_exec sv out (CGrant inp) w = svc_Grant inp w"
| "unit_exec sv out (CExtendRetention k owner) w =
     svc_ExtendRetention sv (e_now (o_env out)) (e_storeNow (o_env out)) k owner w"
| "unit_exec sv out (CSetResultFreeze k frozen) w = svc_SetResultFreeze (e_storeNow (o_env out)) k frozen w"
| "unit_exec sv out (CDeleteHistoryChain owner root) w = svc_DeleteHistoryChain (o_ord1 out) (o_ord2 out) owner root w"

text \<open>What holds of the outside values of a call: see \<open>svc_ok\<close>; an upload's identifier is new, so no
  request can have named it as the parent.\<close>

definition out_ok :: "outside \<Rightarrow> memory \<Rightarrow> bool" where
  "out_ok out m \<longleftrightarrow> env_ok (o_env out) m \<and> visits (o_ord1 out) (rows m) \<and> visits (o_ord2 out) (rows m)"

primrec names_id :: "string \<Rightarrow> doc_call \<Rightarrow> bool" where
  "names_id k (CIngest inp) \<longleftrightarrow> in_ParentID inp = k"
| "names_id k (CBundle owner tenant ids filename) \<longleftrightarrow> False"
| "names_id k (CRebundle owner k' entries) \<longleftrightarrow> False"
| "names_id k (CReplaceContainer k' h data) \<longleftrightarrow> False"
| "names_id k (CReplaceContainerArchived k' h data) \<longleftrightarrow> False"
| "names_id k (CGet k' c) \<longleftrightarrow> False"
| "names_id k (CGetContainerByParent k' c) \<longleftrightarrow> False"
| "names_id k (CGetLatestSignedPdfByChain k' c) \<longleftrightarrow> False"
| "names_id k (CDelete k' c) \<longleftrightarrow> False"

section \<open>Runs\<close>

definition others :: "'b service \<Rightarrow> 'b world \<Rightarrow> 'b world \<Rightarrow> bool" where
  "others sv = (\<lambda>w w'. \<exists>op. svc_step sv w op w')\<^sup>*\<^sup>*"

inductive runs :: "'b service \<Rightarrow> 'b world \<Rightarrow> prog \<Rightarrow> audit_event list \<Rightarrow> reply \<Rightarrow> 'b world \<Rightarrow> bool" for sv where
  finish: "runs sv w (Done rep) [] rep w"
| other: "svc_step sv w op w1 \<Longrightarrow> runs sv w1 p es rep w' \<Longrightarrow> runs sv w p es rep w'"
| emit: "runs sv w p es rep w' \<Longrightarrow> runs sv w (Emit e p) (e # es) rep w'"
| doc: "out_ok out (w_meta w) \<Longrightarrow> \<not> names_id (e_id (o_env out)) c \<Longrightarrow> doc_exec sv out c w = (x, w1) \<Longrightarrow>
     runs sv w1 (k x) es rep w' \<Longrightarrow> runs sv w (DocCall c k) es rep w'"
| unit: "out_ok out (w_meta w) \<Longrightarrow> unit_exec sv out c w = (x, w1) \<Longrightarrow>
     runs sv w1 (k x) es rep w' \<Longrightarrow> runs sv w (UnitCall c k) es rep w'"
| content: "runs sv w (k (svc_Content sv i c w)) es rep w' \<Longrightarrow> runs sv w (ContentCall i c k) es rep w'"
| list: "visits ord (rows (w_meta w)) \<Longrightarrow> runs sv w (k (Inr (svc_List ord c limit after w))) es rep w' \<Longrightarrow>
     runs sv w (ListCall c limit after k) es rep w'"
| list_chains: "visits ord (rows (w_meta w)) \<Longrightarrow>
     visits ord2 (chain_heads (w_meta w) c (range_vals ord (rows (w_meta w))) Map.empty) \<Longrightarrow>
     runs sv w (k (Inr (svc_ListChains ord ord2 c limit after incl w))) es rep w' \<Longrightarrow>
     runs sv w (ListChainsCall c limit after incl k) es rep w'"
| get_chain: "visits ord (rows (w_meta w)) \<Longrightarrow> runs sv w (k (svc_GetChain ord c i w)) es rep w' \<Longrightarrow>
     runs sv w (GetChainCall c i k) es rep w'"
| history: "visits ord (rows (w_meta w)) \<Longrightarrow>
     visits ord2 (history_heads ord (w_meta w) owner after (range_vals ord (rows (w_meta w))) Map.empty) \<Longrightarrow>
     runs sv w (k (Inr (svc_ListHistory ord ord2 owner limit after w))) es rep w' \<Longrightarrow>
     runs sv w (ListHistoryCall owner limit after k) es rep w'"
| retention: "visits ord (rows (w_meta w)) \<Longrightarrow> runs sv w (k (svc_ChainRetention ord i w)) es rep w' \<Longrightarrow>
     runs sv w (ChainRetentionCall i k) es rep w'"
| scan: "runs sv w (k (Scan cn ep data)) es rep w' \<Longrightarrow> runs sv w (ScanCall ep data k) es rep w'"
| ping: "runs sv w (k x) es rep w' \<Longrightarrow> runs sv w (PingCall tg k) es rep w'"
| now: "runs sv w (k t) es rep w' \<Longrightarrow> runs sv w (NowCall k) es rep w'"


section \<open>Taking runs apart\<close>

lemma others_refl [simp]: "others sv w w"
  by (simp add: others_def)

lemma others_step: "svc_step sv w op w1 \<Longrightarrow> others sv w1 w2 \<Longrightarrow> others sv w w2"
  unfolding others_def by (rule converse_rtranclp_into_rtranclp) blast

lemma others_trans: "others sv w w1 \<Longrightarrow> others sv w1 w2 \<Longrightarrow> others sv w w2"
  unfolding others_def by (rule rtranclp_trans)

lemma others_reachable:
  assumes "others sv w w'"
  shows "svc_reachable sv b0 w \<Longrightarrow> svc_reachable sv b0 w'"
  using assms unfolding others_def
  by (induction rule: converse_rtranclp_induct) (auto intro: svc_reachable.step)

text \<open>The first step of a run, after whatever other requests did before it.\<close>

lemma runs_Done: "runs sv w (Done rep) es rep' w' \<Longrightarrow> es = [] \<and> rep' = rep \<and> others sv w w'"
  by (induction w "Done rep" es rep' w' rule: runs.induct) (auto intro: others_step)

lemma runs_Emit:
  "runs sv w (Emit e p) es rep w' \<Longrightarrow> \<exists>w1 es'. others sv w w1 \<and> es = e # es' \<and> runs sv w1 p es' rep w'"
  by (induction w "Emit e p" es rep w' rule: runs.induct) (blast intro: others_step others_refl)+

lemma runs_DocCall:
  "runs sv w (DocCall c k) es rep w' \<Longrightarrow>
     \<exists>w1 out x w2. others sv w w1 \<and> out_ok out (w_meta w1) \<and> \<not> names_id (e_id (o_env out)) c \<and>
       doc_exec sv out c w1 = (x, w2) \<and> runs sv w2 (k x) es rep w'"
  by (induction w "DocCall c k" es rep w' rule: runs.induct) (blast intro: others_step others_refl)+

lemma runs_UnitCall:
  "runs sv w (UnitCall c k) es rep w' \<Longrightarrow>
     \<exists>w1 out x w2. others sv w w1 \<and> out_ok out (w_meta w1) \<and> unit_exec sv out c w1 = (x, w2) \<and>
       runs sv w2 (k x) es rep w'"
  by (induction w "UnitCall c k" es rep w' rule: runs.induct) (blast intro: others_step others_refl)+

lemma runs_ContentCall:
  "runs sv w (ContentCall i c k) es rep w' \<Longrightarrow>
     \<exists>w1. others sv w w1 \<and> runs sv w1 (k (svc_Content sv i c w1)) es rep w'"
  by (induction w "ContentCall i c k" es rep w' rule: runs.induct) (blast intro: others_step others_refl)+

lemma runs_ScanCall:
  "runs sv w (ScanCall ep data k) es rep w' \<Longrightarrow> \<exists>w1 cn. others sv w w1 \<and> runs sv w1 (k (Scan cn ep data)) es rep w'"
  by (induction w "ScanCall ep data k" es rep w' rule: runs.induct) (blast intro: others_step others_refl)+

lemma runs_NowCall:
  "runs sv w (NowCall k) es rep w' \<Longrightarrow> \<exists>w1 t. others sv w w1 \<and> runs sv w1 (k t) es rep w'"
  by (induction w "NowCall k" es rep w' rule: runs.induct) (blast intro: others_step others_refl)+

lemma runs_emits:
  "runs sv w (emits es0 p) es rep w' \<Longrightarrow> \<exists>w1 es'. others sv w w1 \<and> es = es0 @ es' \<and> runs sv w1 p es' rep w'"
proof (induction es0 arbitrary: w es)
  case Nil
  then have "others sv w w \<and> es = [] @ es \<and> runs sv w p es rep w'" by simp
  then show ?case by blast
next
  case (Cons e es0)
  then obtain w1 es1 where "others sv w w1" "es = e # es1" "runs sv w1 (emits es0 p) es1 rep w'"
    by (auto dest: runs_Emit)
  moreover from Cons.IH [OF this(3)] obtain w2 es' where
    "others sv w1 w2" "es1 = es0 @ es'" "runs sv w2 p es' rep w'" by blast
  ultimately have "others sv w w2 \<and> es = (e # es0) @ es' \<and> runs sv w2 p es' rep w'"
    by (auto intro: others_trans)
  then show ?case by blast
qed

section \<open>A run is a sequence of service steps\<close>

text \<open>Every document call of a program satisfies \<open>P\<close>, whatever the calls answer.\<close>

primrec calls_ok :: "(doc_call \<Rightarrow> bool) \<Rightarrow> prog \<Rightarrow> bool" where
  "calls_ok P (Done rep) \<longleftrightarrow> True"
| "calls_ok P (Emit e p) \<longleftrightarrow> calls_ok P p"
| "calls_ok P (DocCall c k) \<longleftrightarrow> P c \<and> (\<forall>x. calls_ok P (k x))"
| "calls_ok P (UnitCall c k) \<longleftrightarrow> (\<forall>x. calls_ok P (k x))"
| "calls_ok P (ContentCall i c k) \<longleftrightarrow> (\<forall>x. calls_ok P (k x))"
| "calls_ok P (ListCall c limit after k) \<longleftrightarrow> (\<forall>x. calls_ok P (k x))"
| "calls_ok P (ListChainsCall c limit after incl k) \<longleftrightarrow> (\<forall>x. calls_ok P (k x))"
| "calls_ok P (GetChainCall c i k) \<longleftrightarrow> (\<forall>x. calls_ok P (k x))"
| "calls_ok P (ListHistoryCall owner limit after k) \<longleftrightarrow> (\<forall>x. calls_ok P (k x))"
| "calls_ok P (ChainRetentionCall i k) \<longleftrightarrow> (\<forall>x. calls_ok P (k x))"
| "calls_ok P (ScanCall ep data k) \<longleftrightarrow> (\<forall>x. calls_ok P (k x))"
| "calls_ok P (PingCall tg k) \<longleftrightarrow> (\<forall>x. calls_ok P (k x))"
| "calls_ok P (NowCall k) \<longleftrightarrow> (\<forall>x. calls_ok P (k x))"

lemma calls_ok_emits [simp]: "calls_ok P (emits es p) = calls_ok P p"
  by (induction es) simp_all

text \<open>No document is stored as already expired or deleted.\<close>

primrec stores_live :: "doc_call \<Rightarrow> bool" where
  "stores_live (CIngest inp) \<longleftrightarrow> in_Status inp \<noteq> ''expired'' \<and> in_Status inp \<noteq> ''deleted''"
| "stores_live (CBundle owner tenant ids filename) \<longleftrightarrow> True"
| "stores_live (CRebundle owner k entries) \<longleftrightarrow> True"
| "stores_live (CReplaceContainer k h data) \<longleftrightarrow> True"
| "stores_live (CReplaceContainerArchived k h data) \<longleftrightarrow> True"
| "stores_live (CGet k c) \<longleftrightarrow> True"
| "stores_live (CGetContainerByParent k c) \<longleftrightarrow> True"
| "stores_live (CGetLatestSignedPdfByChain k c) \<longleftrightarrow> True"
| "stores_live (CDelete k c) \<longleftrightarrow> True"

lemma others_exec: "svc_ok op (w_meta w) \<Longrightarrow> svc_exec sv op w = w' \<Longrightarrow> others sv w w'"
  by (auto intro: others_step svc_step.call)

lemma doc_exec_others:
  assumes "out_ok out (w_meta w)" and "\<not> names_id (e_id (o_env out)) c" and "stores_live c"
    and "doc_exec sv out c w = (x, w')"
  shows "others sv w w'"
proof (cases c)
  case (CIngest inp)
  with assms show ?thesis by (intro others_exec [of "SvIngest (o_env out) inp"]) (simp_all add: out_ok_def)
next
  case (CBundle owner tenant ids filename)
  with assms show ?thesis
    by (intro others_exec [of "SvBundle (o_env out) owner tenant ids filename"]) (simp_all add: out_ok_def)
next
  case (CRebundle owner k entries)
  with assms show ?thesis by (intro others_exec [of "SvRebundle (o_env out) owner k entries"]) (simp_all add: out_ok_def)
next
  case (CReplaceContainer k h data)
  with assms show ?thesis by (intro others_exec [of "SvReplaceContainer (o_env out) k h data"]) (simp_all add: out_ok_def)
next
  case (CReplaceContainerArchived k h data)
  with assms show ?thesis
    by (intro others_exec [of "SvReplaceContainerArchived (o_env out) k h data"]) (simp_all add: out_ok_def)
next
  case (CDelete k c)
  with assms show ?thesis
    by (intro others_exec [of "SvDelete (o_ord1 out) (o_ord2 out) (o_clk out) k c"]) (simp_all add: out_ok_def)
qed (use assms in simp_all)

lemma unit_exec_others:
  assumes "out_ok out (w_meta w)" and "unit_exec sv out c w = (x, w')"
  shows "others sv w w'"
proof (cases c)
  case (CGrant inp)
  with assms show ?thesis by (intro others_exec [of "SvGrant inp"]) simp_all
next
  case (CExtendRetention k owner)
  with assms show ?thesis
    by (intro others_exec [of "SvExtendRetention (e_now (o_env out)) (e_storeNow (o_env out)) k owner"]) simp_all
next
  case (CSetResultFreeze k frozen)
  with assms show ?thesis by (intro others_exec [of "SvSetResultFreeze (e_storeNow (o_env out)) k frozen"]) simp_all
next
  case (CDeleteHistoryChain owner root)
  with assms show ?thesis
    by (intro others_exec [of "SvDeleteHistoryChain (o_ord1 out) (o_ord2 out) owner root"]) (simp_all add: out_ok_def)
qed

lemma runs_others: "runs sv w p es rep w' \<Longrightarrow> calls_ok stores_live p \<Longrightarrow> others sv w w'"
proof (induction rule: runs.induct)
  case (other w op w1 p es rep w')
  then show ?case by (auto intro: others_step)
next
  case (doc out w c x w1 k es rep w')
  then show ?case by (auto intro: others_trans doc_exec_others)
next
  case (unit out w c x w1 k es rep w')
  then show ?case by (auto intro: others_trans unit_exec_others)
qed simp_all

lemmas handler_defs =
  ingest_def upload_input_def upload_answer_def list_documents_def getDocument_def getDigest_def getContent_def chainHead_def chain_handler_def dataObjects_def
  extractObject_def listHistory_def deleteDocument_def deleteHistory_def grantACL_def resultFreeze_def chainRetention_def
  coSignInto_def complete_answer_def complete_def storeContainer_def assemble_def addSignature_def supersedeSignedPdf_def signed_input_def signed_answer_def storeSigned_def
  storeArchived_def bundle_handler_def rebundle_handler_def healthz_def readyz_def

lemmas reply_defs =
  writeStoreErr_def too_large_def unreadable_def result_frozen_def packaging_failed_def writeGateErr_def bad_until_def
  not_a_container_def bundle_too_small_def notReady_def

lemma calls_ok_requireScope: "calls_ok P k \<Longrightarrow> calls_ok P (requireScope r ctx level k)"
  by (simp add: requireScope_def)

lemma calls_ok_readRequiredFile: "(\<And>fh data. calls_ok P (k fh data)) \<Longrightarrow> calls_ok P (readRequiredFile r ctx field k)"
  by (simp add: readRequiredFile_def reply_defs split: option.split)

lemma calls_ok_readFiles: "(\<And>files. calls_ok P (k files)) \<Longrightarrow> calls_ok P (readFiles r ctx field fhs k)"
  by (induction fhs arbitrary: k) (simp_all add: reply_defs split: option.split)

lemma calls_ok_resolveRetention:
  "(\<And>ok ow te un. calls_ok P (k ok ow te un)) \<Longrightarrow> calls_ok P (resolveRetention r ctx rclass k)"
  by (auto simp: resolveRetention_def reply_defs intro!: calls_ok_requireScope split: option.split prod.split)

lemma calls_ok_scan_upload: "calls_ok P k \<Longrightarrow> calls_ok P (scan_upload r ctx data k)"
  by (auto simp: scan_upload_def Let_def split: sum.split)

lemma calls_ok_signedFormIsPdf: "calls_ok P k \<Longrightarrow> calls_ok P (signedFormIsPdf r caller data k)"
  by (auto simp: signedFormIsPdf_def Let_def split: sum.split)

lemmas calls_ok_intros =
  calls_ok_requireScope calls_ok_readRequiredFile calls_ok_readFiles calls_ok_resolveRetention calls_ok_scan_upload
  calls_ok_signedFormIsPdf

lemma serve_stores_live: "calls_ok stores_live (serve r req)"
  by (cases req)
     (auto simp: handler_defs reply_defs Let_def container_input_def intro!: calls_ok_intros
       split: option.split sum.split prod.split)

section \<open>Replies and unit calls of a program\<close>

text \<open>Every reply a program can end with satisfies \<open>P\<close>.\<close>

primrec replies_ok :: "(reply \<Rightarrow> bool) \<Rightarrow> prog \<Rightarrow> bool" where
  "replies_ok P (Done rep) \<longleftrightarrow> P rep"
| "replies_ok P (Emit e p) \<longleftrightarrow> replies_ok P p"
| "replies_ok P (DocCall c k) \<longleftrightarrow> (\<forall>x. replies_ok P (k x))"
| "replies_ok P (UnitCall c k) \<longleftrightarrow> (\<forall>x. replies_ok P (k x))"
| "replies_ok P (ContentCall i c k) \<longleftrightarrow> (\<forall>x. replies_ok P (k x))"
| "replies_ok P (ListCall c limit after k) \<longleftrightarrow> (\<forall>x. replies_ok P (k x))"
| "replies_ok P (ListChainsCall c limit after incl k) \<longleftrightarrow> (\<forall>x. replies_ok P (k x))"
| "replies_ok P (GetChainCall c i k) \<longleftrightarrow> (\<forall>x. replies_ok P (k x))"
| "replies_ok P (ListHistoryCall owner limit after k) \<longleftrightarrow> (\<forall>x. replies_ok P (k x))"
| "replies_ok P (ChainRetentionCall i k) \<longleftrightarrow> (\<forall>x. replies_ok P (k x))"
| "replies_ok P (ScanCall ep data k) \<longleftrightarrow> (\<forall>x. replies_ok P (k x))"
| "replies_ok P (PingCall tg k) \<longleftrightarrow> (\<forall>x. replies_ok P (k x))"
| "replies_ok P (NowCall k) \<longleftrightarrow> (\<forall>x. replies_ok P (k x))"

lemma replies_ok_emits [simp]: "replies_ok P (emits es p) = replies_ok P p"
  by (induction es) simp_all

lemma runs_reply: "runs sv w p es rep w' \<Longrightarrow> replies_ok P p \<Longrightarrow> P rep"
  by (induction rule: runs.induct) auto

text \<open>Every unit call of a program satisfies \<open>P\<close>.\<close>

primrec units_ok :: "(unit_call \<Rightarrow> bool) \<Rightarrow> prog \<Rightarrow> bool" where
  "units_ok P (Done rep) \<longleftrightarrow> True"
| "units_ok P (Emit e p) \<longleftrightarrow> units_ok P p"
| "units_ok P (DocCall c k) \<longleftrightarrow> (\<forall>x. units_ok P (k x))"
| "units_ok P (UnitCall c k) \<longleftrightarrow> P c \<and> (\<forall>x. units_ok P (k x))"
| "units_ok P (ContentCall i c k) \<longleftrightarrow> (\<forall>x. units_ok P (k x))"
| "units_ok P (ListCall c limit after k) \<longleftrightarrow> (\<forall>x. units_ok P (k x))"
| "units_ok P (ListChainsCall c limit after incl k) \<longleftrightarrow> (\<forall>x. units_ok P (k x))"
| "units_ok P (GetChainCall c i k) \<longleftrightarrow> (\<forall>x. units_ok P (k x))"
| "units_ok P (ListHistoryCall owner limit after k) \<longleftrightarrow> (\<forall>x. units_ok P (k x))"
| "units_ok P (ChainRetentionCall i k) \<longleftrightarrow> (\<forall>x. units_ok P (k x))"
| "units_ok P (ScanCall ep data k) \<longleftrightarrow> (\<forall>x. units_ok P (k x))"
| "units_ok P (PingCall tg k) \<longleftrightarrow> (\<forall>x. units_ok P (k x))"
| "units_ok P (NowCall k) \<longleftrightarrow> (\<forall>x. units_ok P (k x))"

lemma units_ok_emits [simp]: "units_ok P (emits es p) = units_ok P p"
  by (induction es) simp_all

lemma units_ok_intros:
  "units_ok P k1 \<Longrightarrow> units_ok P (requireScope r ctx level k1)"
  "(\<And>fh data. units_ok P (k2 fh data)) \<Longrightarrow> units_ok P (readRequiredFile r ctx field k2)"
  "(\<And>ok ow te un. units_ok P (k3 ok ow te un)) \<Longrightarrow> units_ok P (resolveRetention r ctx rclass k3)"
  "units_ok P k4 \<Longrightarrow> units_ok P (scan_upload r ctx data k4)"
  "units_ok P k5 \<Longrightarrow> units_ok P (signedFormIsPdf r caller data k5)"
  by (auto simp: requireScope_def readRequiredFile_def resolveRetention_def scan_upload_def signedFormIsPdf_def reply_defs Let_def
      split: option.split prod.split sum.split)

lemma units_ok_readFiles: "(\<And>files. units_ok P (k files)) \<Longrightarrow> units_ok P (readFiles r ctx field fhs k)"
  by (induction fhs arbitrary: k) (simp_all add: reply_defs split: option.split)

lemma replies_ok_readFiles:
  assumes "\<And>pb. P (Problem pb)"
  shows "(\<And>files. replies_ok P (k files)) \<Longrightarrow> replies_ok P (readFiles r ctx field fhs k)"
  by (induction fhs arbitrary: k) (simp_all add: reply_defs NewProblem_def assms split: option.split)

text \<open>Where a problem reply is as good as any, the guards need only their continuations.\<close>

lemma replies_ok_intros:
  assumes "\<And>pb. P (Problem pb)"
  shows "replies_ok P k1 \<Longrightarrow> replies_ok P (requireScope r ctx level k1)"
    and "(\<And>fh data. replies_ok P (k2 fh data)) \<Longrightarrow> replies_ok P (readRequiredFile r ctx field k2)"
    and "(\<And>ok ow te un. replies_ok P (k3 ok ow te un)) \<Longrightarrow> replies_ok P (resolveRetention r ctx rclass k3)"
    and "replies_ok P k4 \<Longrightarrow> replies_ok P (scan_upload r ctx data k4)"
    and "replies_ok P k5 \<Longrightarrow> replies_ok P (signedFormIsPdf r caller data k5)"
  using assms
  by (auto simp: requireScope_def readRequiredFile_def resolveRetention_def scan_upload_def signedFormIsPdf_def reply_defs Let_def
      NewProblem_def split: option.split prod.split sum.split)

section \<open>What a call takes from outside always exists\<close>

text \<open>New identifiers and complete visiting orders exist for every finite store.\<close>

lemma fresh_string: "finite A \<Longrightarrow> \<exists>s :: string. s \<notin> A"
  by (rule ex_new_if_finite [OF infinite_UNIV_listI])

lemma out_exists:
  assumes "finite (dom (rows m))"
  shows "\<exists>out. out_ok out m \<and> e_id (o_env out) \<noteq> k"
proof -
  obtain ord where ord: "visits ord (rows m)" using visits_exists [OF assms] by blast
  have fin: "finite (ran (rows m))" unfolding ran_the_image using assms by simp
  have "finite ({[]} \<union> d_StorageRef ` ran (rows m))" using fin by simp
  from fresh_string [OF this] obtain obj where obj: "obj \<noteq> []" "obj \<notin> d_StorageRef ` ran (rows m)" by blast
  have "finite ({[], k} \<union> dom (rows m) \<union> d_ParentID ` ran (rows m) \<union> g_ChainRoot ` set (acl m))"
    using fin assms by simp
  from fresh_string [OF this] obtain i where
    i: "i \<noteq> []" "i \<noteq> k" "i \<notin> dom (rows m)" "i \<notin> d_ParentID ` ran (rows m)" "i \<notin> g_ChainRoot ` set (acl m)" by blast
  let ?out = "\<lparr>o_env = \<lparr>e_key = None, e_wrapNonce = None, e_sealNonce = None, e_objKey = obj, e_id = i, e_ord = ord,
      e_now = 0, e_storeNow = 0\<rparr>, o_ord1 = ord, o_ord2 = ord, o_clk = (\<lambda>_. 0)\<rparr>"
  have "fresh_id i m" using i by (auto simp: fresh_id_def domIff)
  moreover have "unref obj m" using obj by (auto simp: unref_def)
  ultimately have "out_ok ?out m" using ord obj by (simp add: out_ok_def env_ok_def)
  then show ?thesis using i(2) by (intro exI [of _ ?out]) simp
qed

end
