(* ===== verification/RouteProps.thy ===== *)
theory RouteProps
  imports RouteRuns ServiceProps
begin

text \<open>
  The correctness properties of the HTTP layer, for every interleaving with the service calls of
  other requests.
\<close>

section \<open>A router and requests at the sample world\<close>

definition sample_config :: configuration where
  "sample_config =
     \<lparr>cf_Auth = \<lparr>au_IssuerURL = ''https://auth'', au_ServiceClientID = [], au_ServiceClientSecret = []\<rparr>,
      cf_StoreDSN = [], cf_MaxFileBytes = 1000, cf_S3Endpoint = [], cf_S3AccessKey = [], cf_S3SecretKey = [],
      cf_S3UseSSL = False, cf_S3Bucket = [], cf_S3Prefix = [], cf_KMSMasterKey = [],
      cf_RetentionTTL = 100, cf_RetentionSweepInterval = 10, cf_RetentionSweepBatch = 10, cf_HistoryRetention = 50,
      cf_ServiceClientID = ''svc:document'', cf_ServiceClientSecret = [], cf_AuditIssuerURL = [],
      cf_AccessAuditURL = [], cf_AccessAuditAudience = [], cf_AccessAuditScope = [], cf_AccessAuditOutboxDir = [],
      cf_ClamAVEndpoint = [], cf_DocumentEventsTopic = ''document.events'', cf_DocumentProductClients = []\<rparr>"

definition sample_libs :: libs where
  "sample_libs =
     \<lparr>lb_Check = (\<lambda>_ _ _. Inr \<lparr>gt_Kind = ''pdf'', gt_HasSignatures = False\<rparr>), lb_KindPDF = ''pdf'', lb_Key = (\<lambda>s. s),
      lb_Canonical = (\<lambda>s _. Inr s), lb_ClaimTenant = ''tenant'',
      lb_asice = sample_lib\<lparr>as_CoSign := (\<lambda>c f. Inr (c @ f)), as_DataObjects := (\<lambda>c. Inr [\<lparr>pf_Name = ''a'', pf_Data = c\<rparr>])\<rparr>\<rparr>"

definition sample_router :: router where
  "sample_router =
     \<lparr>ro_Audit = \<lparr>rd_sec = True, rd_gdpr = True, rd_pub = True, rd_topic = ''t''\<rparr>, ro_Config = sample_config, ro_libs = sample_libs\<rparr>"

definition sample_file :: file_header where
  "sample_file = \<lparr>fh_Filename = ''s.asice'', fh_Size = 3, fh_ContentType = [], fh_Data = Some [7, 8, 9]\<rparr>"

definition sample_ctx :: "string list \<Rightarrow> http_ctx" where
  "sample_ctx scopes =
     \<lparr>rq_User = \<lparr>us_ID = ''ana'', us_HasScopeLevel = (\<lambda>_ l. l \<in> set scopes), us_ClaimValue = (\<lambda>_. [])\<rparr>,
      rq_Param = (\<lambda>_. ''01''), rq_QueryString = (\<lambda>_. None), rq_QueryInt = (\<lambda>_. Inr None), rq_QueryBool = (\<lambda>_. Inr None),
      rq_FormString = (\<lambda>_. None), rq_File = (\<lambda>_. Some sample_file), rq_Files = (\<lambda>_. [])\<rparr>"

lemma reqCaller_sample [simp]: "reqCaller sample_router (sample_ctx scopes) = sub_caller ''ana''"
  by (simp add: reqCaller_def sample_ctx_def sample_router_def sample_libs_def sample_config_def productPrincipal_def
      ProductFor_def sub_caller_def)

lemma sample_ctx_simps [simp]:
  "callerID (sample_ctx scopes) = ''ana''" "rq_Param (sample_ctx scopes) n = ''01''"
  "us_HasScopeLevel (rq_User (sample_ctx scopes)) d l \<longleftrightarrow> l \<in> set scopes"
  "\<not> isConduit (sample_ctx scopes)" "rq_File (sample_ctx scopes) f = Some sample_file"
  by (simp_all add: sample_ctx_def callerID_def isConduit_def)

lemma sample_router_simps [simp]:
  "ro_Audit sample_router = \<lparr>rd_sec = True, rd_gdpr = True, rd_pub = True, rd_topic = ''t''\<rparr>"
  "ro_Config sample_router = sample_config" "ro_libs sample_router = sample_libs"
  by (simp_all add: sample_router_def)

lemma sample_content:
  obtains d data where "svc_Content (dev_service sample_kms sample_lib 100) ''01'' (sub_caller ''ana'') sample_world = Inr (d, data)"
    and "rows (w_meta sample_world) = [''01'' \<mapsto> d]" and "d_Kind d = ''container''" and "d_Owner d = ''ana''"
    and "d_ID d = ''01''" and "d_ResultFrozen d = False" and "CanonicalHash data = d_ContentHash d"
    and "d_ContentHash d = CanonicalHash [72, 105]"
proof -
  obtain d where get: "svc_Get ''01'' (sub_caller ''ana'') sample_world = Inr d" and d: "d_StorageRef d = ''obj1''"
      "rows (w_meta sample_world) = [''01'' \<mapsto> d]" "d_Kind d = ''container''" "d_Owner d = ''ana''" "d_ID d = ''01''"
      "d_ParentID d = []" "d_ResultFrozen d = False" "d_ContentHash d = CanonicalHash [72, 105]"
    by (rule sample_world_row)
  obtain data where "svc_Content (dev_service sample_kms sample_lib 100) ''01'' (sub_caller ''ana'') sample_world = Inr (d, data)"
      "CanonicalHash data = d_ContentHash d"
    using dev.Content_intact [OF dev.intact_reachable [OF reachable_sample_world [unfolded dev_service_def]]
        get [unfolded svc_Get_def] mem_blobs.get_ok] d(1) by (auto simp: dev_service_def)
  with d that show ?thesis by blast
qed

text \<open>The owner downloads the document of the sample world.\<close>

lemma sample_download:
  obtains hs data where "runs (dev_service sample_kms sample_lib 100) sample_world
      (serve sample_router (GetDocumentContent (sample_ctx [''read''])))
      [Access ''ana'' ''ana'' ''01''] (Reply 200 hs (Raw data)) sample_world"
proof -
  let ?sv = "dev_service sample_kms sample_lib 100"
  obtain d data where c: "svc_Content ?sv ''01'' (sub_caller ''ana'') sample_world = Inr (d, data)"
      and d: "d_Owner d = ''ana''" "d_ID d = ''01''" "d_ResultFrozen d = False"
    by (rule sample_content)
  have "runs ?sv sample_world (serve sample_router (GetDocumentContent (sample_ctx [''read''])))
      [Access ''ana'' ''ana'' ''01''] (Reply 200 (setDownloadHeaders (d_Filename d) (d_Mime d)) (Raw data)) sample_world"
    using c d
    by (simp add: getContent_def requireScope_def)
       (rule runs.content, simp add: DocumentAccessed_def, rule runs.emit, rule runs.finish)
  then show ?thesis by (rule that)
qed

section \<open>Scopes\<close>

text \<open>The scope each route asks for.\<close>

fun required_scope :: "request \<Rightarrow> (http_ctx \<times> string) option" where
  "required_scope GetHealthz = None"
| "required_scope GetReadyz = None"
| "required_scope (PostDocuments ctx) = Some (ctx, ''write'')"
| "required_scope (GetDocuments ctx) = Some (ctx, ''read'')"
| "required_scope (GetDocument ctx) = Some (ctx, ''read'')"
| "required_scope (GetDocumentContent ctx) = Some (ctx, ''read'')"
| "required_scope (GetDocumentDigest ctx) = Some (ctx, ''read'')"
| "required_scope (GetDocumentDataObjects ctx) = Some (ctx, ''read'')"
| "required_scope (GetDocumentHead ctx) = Some (ctx, ''read'')"
| "required_scope (GetDocumentChain ctx) = Some (ctx, ''read'')"
| "required_scope (DeleteDocument ctx) = Some (ctx, ''write'')"
| "required_scope (PostDocumentACL body ctx) = Some (ctx, ''grant'')"
| "required_scope (PostResultFreeze b ctx) = Some (ctx, ''grant'')"
| "required_scope (GetDocumentRetention ctx) = Some (ctx, ''grant'')"
| "required_scope (PostComplete ctx) = Some (ctx, ''write'')"
| "required_scope (PostAssemble ctx) = Some (ctx, ''write'')"
| "required_scope (PostAddSignature ctx) = Some (ctx, ''write'')"
| "required_scope (PostBundle bb ctx) = Some (ctx, ''write'')"
| "required_scope (PostRebundle be ctx) = Some (ctx, ''write'')"
| "required_scope (GetDataObject ctx) = Some (ctx, ''read'')"
| "required_scope (PostSigned ctx) = Some (ctx, ''write'')"
| "required_scope (PostArchived ctx) = Some (ctx, ''write'')"
| "required_scope (GetHistory ctx) = Some (ctx, ''read'')"
| "required_scope (DeleteHistory ctx) = Some (ctx, ''write'')"

text \<open>C23: without its scope a request does nothing.  The handler of a route whose scope the token lacks
  makes no service call at all: it reports the denial under the caller's identity and the missing
  scope, and answers with the forbidden problem, whatever else the request carries.\<close>

theorem missing_scope_refused:
  assumes "required_scope req = Some (ctx, level)" and "\<not> us_HasScopeLevel (rq_User ctx) ''documents'' level"
  shows "serve r req =
    emits (Denied (ro_Audit r) (callerID ctx) (''documents:'' @ level))
      (Done (NewProblem ''err:document:forbidden'' None None (Some (''missing documents:'' @ level @ '' scope''))))"
proof -
  have "\<exists>k. serve r req = requireScope r ctx level k"
    using assms(1) by (cases req) (auto simp: handler_defs)
  then show ?thesis using assms(2) by (auto simp: requireScope_def)
qed

lemma missing_scope_refused_witness:
  "serve sample_router (DeleteDocument (sample_ctx [''read''])) =
     Emit (Denial ''ana'' ''documents:write'')
       (Done (NewProblem ''err:document:forbidden'' None None (Some ''missing documents:write scope'')))"
  using missing_scope_refused [of "DeleteDocument (sample_ctx [''read''])" "sample_ctx [''read'']" "''write''" sample_router]
  by (simp add: Denied_def)

section \<open>Bytes that leave\<close>

lemma runs_requireScope:
  "runs sv w (requireScope r ctx level k) es rep w' \<Longrightarrow>
     (\<exists>pb. rep = Problem pb) \<or> us_HasScopeLevel (rq_User ctx) ''documents'' level \<and> runs sv w k es rep w'"
  by (cases "us_HasScopeLevel (rq_User ctx) ''documents'' level")
     (auto simp: requireScope_def NewProblem_def dest!: runs_emits runs_Done)

definition not_raw :: "reply \<Rightarrow> bool" where
  "not_raw rep \<longleftrightarrow> (\<forall>st hs data. rep \<noteq> Reply st hs (Raw data))"

lemma not_raw_simps [simp]:
  "not_raw (Problem pb)" "not_raw (BadBody e)" "not_raw NoContent"
  "not_raw (OK b) \<longleftrightarrow> not_raw (Reply 200 [] b)" "not_raw (Created b) \<longleftrightarrow> not_raw (Reply 201 [] b)"
  "not_raw (store_problem er)" "not_raw (NewProblem c s t dt)"
  "not_raw (container_reply doc)" "not_raw (signed_reply doc)"
  by (auto simp: not_raw_def NoContent_def OK_def Created_def store_problem_def NewProblem_def container_reply_def
      signed_reply_def split: err.splits)

lemma not_raw_bodies [simp]:
  "not_raw (Reply st hs b) \<longleftrightarrow> (\<forall>data. b \<noteq> Raw data)"
  by (auto simp: not_raw_def)

lemma only_downloads_raw:
  assumes "\<And>ctx. req \<noteq> GetDocumentContent ctx" and "\<And>ctx. req \<noteq> GetDataObject ctx"
  shows "replies_ok not_raw (serve r req)"
  using assms
  by (cases req)
     (auto simp: handler_defs reply_defs Let_def intro!: replies_ok_intros replies_ok_readFiles
       split: option.split sum.split prod.split)

lemma runs_emits_Done:
  "runs sv w (emits es0 (Done rep0)) es rep w' \<Longrightarrow> es = es0 \<and> rep = rep0"
  by (auto dest!: runs_emits runs_Done)

lemma store_problem_neq [simp]: "store_problem e \<noteq> Reply st hs b" "Reply st hs b \<noteq> store_problem e"
  by (simp_all add: store_problem_def NewProblem_def split: err.split)

lemmas problem_defs = writeStoreErr_def result_frozen_def packaging_failed_def not_a_container_def NewProblem_def

lemma runs_getContent:
  assumes "runs sv w (getContent r ctx) es (Reply st hs (Raw data)) w'"
  shows "us_HasScopeLevel (rq_User ctx) ''documents'' ''read'' \<and> (\<exists>w1 doc. others sv w w1 \<and>
    svc_Content sv (rq_Param ctx ''id'') (reqCaller r ctx) w1 = Inr (doc, data) \<and>
    (d_ResultFrozen doc \<longrightarrow> d_Kind doc = ''source'' \<or> isConduit ctx) \<and>
    es = DocumentAccessed (ro_Audit r) (callerID ctx) (d_Owner doc) (d_ID doc) \<and>
    hs = setDownloadHeaders (d_Filename doc) (d_Mime doc))"
  using assms
  by (auto simp: getContent_def problem_defs dest!: runs_requireScope runs_ContentCall runs_emits_Done runs_Done
      split: sum.splits prod.splits if_splits) blast+

lemma runs_extractObject:
  assumes "runs sv w (extractObject r ctx) es (Reply st hs (Raw data)) w'"
  shows "us_HasScopeLevel (rq_User ctx) ''documents'' ''read'' \<and> (\<exists>w1 doc content ms f. others sv w w1 \<and>
    svc_Content sv (rq_Param ctx ''id'') (reqCaller r ctx) w1 = Inr (doc, content) \<and> d_Kind doc = ''container'' \<and>
    (d_ResultFrozen doc \<longrightarrow> isConduit ctx) \<and>
    DataObjects (lb_asice (ro_libs r)) content = Inr ms \<and> f \<in> set ms \<and> pf_Name f = rq_Param ctx ''name'' \<and> data = pf_Data f \<and>
    es = DocumentAccessed (ro_Audit r) (callerID ctx) (d_Owner doc) (d_ID doc) \<and>
    hs = setDownloadHeaders (rq_Param ctx ''name'') (inner_mime (d_InnerFiles doc) (rq_Param ctx ''name'')))"
  using assms
  by (auto simp: extractObject_def problem_defs find_Some_iff Let_def
      dest!: runs_requireScope runs_ContentCall runs_emits_Done runs_Done
      split: sum.splits prod.splits if_splits option.splits) (blast intro: nth_mem)+

text \<open>C6: no bytes leave unaccounted for.  If any request is answered with raw bytes, it is a content or
  inner-file download by a token with the read scope; the bytes are those the service returned at
  some moment of the request for a document the caller may read (or the named member of that
  container); the chain was not under the download freeze, unless the document is a plain source or
  the reader declared its purpose; and exactly the access record of this caller and this document's
  owner was emitted.\<close>

theorem bytes_leave_audited:
  assumes "runs sv w (serve r req) es (Reply st hs (Raw data)) w'"
  shows "\<exists>ctx w1 doc content. others sv w w1 \<and> us_HasScopeLevel (rq_User ctx) ''documents'' ''read'' \<and>
    svc_Content sv (rq_Param ctx ''id'') (reqCaller r ctx) w1 = Inr (doc, content) \<and>
    (req = GetDocumentContent ctx \<and> data = content \<or>
     req = GetDataObject ctx \<and> d_Kind doc = ''container'' \<and>
       (\<exists>ms f. DataObjects (lb_asice (ro_libs r)) content = Inr ms \<and> f \<in> set ms \<and>
                pf_Name f = rq_Param ctx ''name'' \<and> pf_Data f = data)) \<and>
    (d_ResultFrozen doc \<longrightarrow> d_Kind doc = ''source'' \<or> isConduit ctx) \<and>
    es = DocumentAccessed (ro_Audit r) (callerID ctx) (d_Owner doc) (d_ID doc) \<and>
    (\<exists>filename mime. hs = setDownloadHeaders filename mime)"
proof -
  consider (content) ctx where "req = GetDocumentContent ctx" | (object) ctx where "req = GetDataObject ctx"
    | (else) "\<And>ctx. req \<noteq> GetDocumentContent ctx" "\<And>ctx. req \<noteq> GetDataObject ctx" by blast
  then show ?thesis
  proof cases
    case content
    with assms have "runs sv w (getContent r ctx) es (Reply st hs (Raw data)) w'" by simp
    from runs_getContent [OF this] content show ?thesis by metis
  next
    case object
    with assms have "runs sv w (extractObject r ctx) es (Reply st hs (Raw data)) w'" by simp
    from runs_extractObject [OF this] object show ?thesis by metis
  next
    case else
    from runs_reply [OF assms only_downloads_raw [OF else]] show ?thesis by simp
  qed
qed

lemma bytes_leave_audited_witness:
  "\<exists>es hs data. runs (dev_service sample_kms sample_lib 100) sample_world
       (serve sample_router (GetDocumentContent (sample_ctx [''read'']))) es (Reply 200 hs (Raw data)) sample_world \<and>
     es = [Access ''ana'' ''ana'' ''01'']"
proof -
  obtain hs data where run: "runs (dev_service sample_kms sample_lib 100) sample_world
      (serve sample_router (GetDocumentContent (sample_ctx [''read''])))
      [Access ''ana'' ''ana'' ''01''] (Reply 200 hs (Raw data)) sample_world"
    by (rule sample_download)
  from bytes_leave_audited [OF run] run show ?thesis by blast
qed

text \<open>C24: downloaded bytes stay inert in a browser.  Whatever filename and media type were stored, the
  headers of a download forbid content sniffing, never carry a media type browsers run, and name
  the attachment, if at all, inside quotes that the filename cannot leave.\<close>

theorem downloads_inert:
  assumes "hs = setDownloadHeaders filename mime"
  shows "(''X-Content-Type-Options'', ''nosniff'') \<in> set hs \<and>
    (\<forall>ct. (''Content-Type'', ct) \<in> set hs \<longrightarrow> to_lower (trim_space (mime_base ct)) \<notin> set browserActiveMimeTypes) \<and>
    (\<forall>cd. (''Content-Disposition'', cd) \<in> set hs \<longrightarrow>
       (\<exists>name. cd = ''attachment; filename='' @ [CHR 0x22] @ name @ [CHR 0x22] \<and>
          (\<forall>c \<in> set name. c \<in> set filename \<and> c \<notin> {CHR 0x22, CHR 0x5C, CHR 0x0D, CHR 0x0A})))"
proof -
  have "to_lower (trim_space (mime_base (inertMime mime))) \<notin> set browserActiveMimeTypes"
  proof (cases "to_lower (trim_space (mime_base mime)) \<in> set browserActiveMimeTypes")
    case True
    then have "inertMime mime = ''application/octet-stream''" by (simp add: inertMime_def)
    moreover have "to_lower (trim_space (mime_base ''application/octet-stream'')) \<notin> set browserActiveMimeTypes"
      by code_simp
    ultimately show ?thesis by simp
  qed (simp add: inertMime_def)
  then show ?thesis
    unfolding assms by (auto simp: setDownloadHeaders_def sanitizeFilename_def)
qed

lemma downloads_inert_witness:
  "(''Content-Type'', ''application/octet-stream'') \<in> set (setDownloadHeaders ''a.html'' ''Text/HTML; charset=x'') \<and>
   (''X-Content-Type-Options'', ''nosniff'') \<in> set (setDownloadHeaders ''a.html'' ''Text/HTML; charset=x'')"
proof -
  have "inertMime ''Text/HTML; charset=x'' = ''application/octet-stream''" by code_simp
  with downloads_inert [OF refl, of "''a.html''" "''Text/HTML; charset=x''"] show ?thesis
    by (simp add: setDownloadHeaders_def)
qed

section \<open>Who may share\<close>

text \<open>C11: only the sharing authority shares.  The only request that ever grants access to a document is the
  access-list request of a token with the grant scope; what it grants is read and co-sign rights at
  most, to an identity code in its canonical spelling, on the document named in the path, and
  recorded under the caller.  Likewise only such a token freezes or unfreezes a result.\<close>

theorem grants_need_authority:
  "units_ok (\<lambda>c. case c of
       CGrant inp \<Rightarrow> (\<exists>ctx body canonical. req = PostDocumentACL (Inr body) ctx \<and>
           us_HasScopeLevel (rq_User ctx) ''documents'' ''grant'' \<and>
           lb_Canonical (ro_libs r) (trim_space (ga_Serial body)) [] = Inr canonical \<and>
           inp = \<lparr>gi_DocID = rq_Param ctx ''id'', gi_PrincipalKind = ''serial'', gi_PrincipalID = canonical,
                  gi_Rights = ga_Rights body, gi_TenantID = [], gi_GrantedBy = callerID ctx\<rparr> \<and>
           set (gi_Rights inp) \<subseteq> {''read'', ''cosign''})
     | CSetResultFreeze k frozen \<Rightarrow> (\<exists>ctx. req = PostResultFreeze (Inr frozen) ctx \<and> k = rq_Param ctx ''id'' \<and>
           us_HasScopeLevel (rq_User ctx) ''documents'' ''grant'')
     | CExtendRetention k owner \<Rightarrow> True
     | CDeleteHistoryChain owner root \<Rightarrow> (\<exists>ctx. req = DeleteHistory ctx \<and> owner = callerID ctx \<and>
           us_HasScopeLevel (rq_User ctx) ''documents'' ''write'')) (serve r req)"
proof (cases req)
  case (PostDocumentACL body ctx)
  then show ?thesis
    by (auto simp: grantACL_def requireScope_def reply_defs Let_def list_ex_set split: sum.split)
next
  case (PostResultFreeze b ctx)
  then show ?thesis by (auto simp: resultFreeze_def requireScope_def reply_defs split: sum.split)
next
  case (DeleteHistory ctx)
  then show ?thesis by (auto simp: deleteHistory_def requireScope_def reply_defs split: sum.split)
qed (auto simp: handler_defs reply_defs Let_def intro!: units_ok_intros units_ok_readFiles
       split: option.split sum.split prod.split)

end
