(* ===== verification/SigningProps.thy ===== *)
theory SigningProps
  imports RouteProps
begin

text \<open>
  The correctness properties of the handlers that store documents: uploads, completed and co-signed
  containers, signed PDFs and archived forms, each for every interleaving with other requests.
\<close>

section \<open>Storing calls inside a run\<close>

text \<open>Whoever may read the document reads exactly these bytes, under their hash.\<close>

definition reads_as :: "'b service \<Rightarrow> string \<Rightarrow> bytes \<Rightarrow> 'b world \<Rightarrow> bool" where
  "reads_as sv k data w \<longleftrightarrow>
     (\<forall>c d. svc_Get k c w = Inr d \<longrightarrow> svc_Content sv k c w = Inr (d, data) \<and> d_ContentHash d = CanonicalHash data)"

lemma dev_wf:
  "svc_reachable (dev_service l lib ttl) NewBlobMemory w \<Longrightarrow> wf_mem (w_meta w)"
  using dev.intact_reachable [of l lib ttl NewBlobMemory w] by (simp add: dev_service_def intact_def)

lemma dev_content_hash:
  assumes "svc_reachable (dev_service l lib ttl) NewBlobMemory w"
    and "svc_Content (dev_service l lib ttl) k c w = Inr (d, data)"
  shows "d_ContentHash d = CanonicalHash data \<and> svc_Get k c w = Inr d"
proof -
  have get: "mem_Get (w_meta w) k c = Inr d"
    using assms(2) by (auto simp: svc_Content_def split: sum.splits if_splits option.splits)
  from dev.Content_intact [OF dev.intact_reachable [OF assms(1) [unfolded dev_service_def]] get mem_blobs.get_ok] assms(2)
  show ?thesis using get by (auto simp: dev_service_def svc_Get_def split: if_splits)
qed

lemma replace_done:
  "svc_replaceContainer sv ev k h data pc w = (Inr doc, w') \<Longrightarrow> pc \<noteq> [] \<Longrightarrow> d_PreservationClass doc = pc"
  "svc_replaceContainer sv ev k h data pc w = (Inr doc, w') \<Longrightarrow> rows (w_meta w) k = Some d \<Longrightarrow>
     d_Status d \<noteq> ''deleted'' \<and> d_Kind d \<noteq> ''source''"
  by (auto simp: svc_replaceContainer_def sealAndStore_def mem_ReplaceContainerBlob_def replace_row_def Let_def
      split: prod.splits sum.splits option.splits if_splits)

lemma step_others: "svc_step sv w op w' \<Longrightarrow> others sv w w'"
  by (blast intro: others_step others_refl)

text \<open>A replacing call of a run is one step of the service, between the world in which the row holds the
  expected hash and the world in which it holds the new bytes.\<close>

lemma runs_replace:
  assumes "svc_reachable (dev_service l lib ttl) NewBlobMemory w"
    and "runs (dev_service l lib ttl) w (DocCall c K) es rep w'"
    and "c = CReplaceContainer k h data \<and> op = (\<lambda>ev. SvReplaceContainer ev k h data) \<or>
      c = CReplaceContainerArchived k h data \<and> op = (\<lambda>ev. SvReplaceContainerArchived ev k h data)"
  obtains (refused) e w1 where "others (dev_service l lib ttl) w w1"
      and "runs (dev_service l lib ttl) w1 (K (Inl e)) es rep w'"
  | (replaced) doc d w1 ev w2 where "others (dev_service l lib ttl) w w1" and "svc_step (dev_service l lib ttl) w1 (op ev) w2"
      and "rows (w_meta w1) k = Some d" and "d_ContentHash d = h" and "objs (w_blob w2) (d_StorageRef d) = None"
      and "rows (w_meta w2) k = Some doc" and "d_ID doc = k" and "d_ContentHash doc = CanonicalHash data"
      and "reads_as (dev_service l lib ttl) k data w2"
      and "c = CReplaceContainerArchived k h data \<longrightarrow> d_PreservationClass doc = ''preservation''"
      and "runs (dev_service l lib ttl) w2 (K (Inr doc)) es rep w'"
      and "d_Status d \<noteq> ''deleted'' \<and> d_Kind d \<noteq> ''source''"
proof -
  let ?sv = "dev_service l lib ttl"
  from runs_DocCall [OF assms(2)] obtain w1 out x w2 where
    o1: "others ?sv w w1" and ok: "out_ok out (w_meta w1)" "\<not> names_id (e_id (o_env out)) c"
    and ex: "doc_exec ?sv out c w1 = (x, w2)" and run: "runs ?sv w2 (K x) es rep w'" by blast
  have r1: "svc_reachable ?sv NewBlobMemory w1" by (rule others_reachable [OF o1 assms(1)])
  have env: "env_ok (o_env out) (w_meta w1)" using ok by (simp add: out_ok_def)
  define pc where "pc = (if c = CReplaceContainer k h data then [] else ''preservation'')"
  have op: "svc_ok (op (o_env out)) (w_meta w1)" "svc_exec ?sv (op (o_env out)) w1 = w2"
    using assms(3) env ex by auto
  then have step: "svc_step ?sv w1 (op (o_env out)) w2" using svc_step.call by blast
  have rep: "svc_replaceContainer ?sv (o_env out) k h data pc w1 = (x, w2)"
    using assms(3) ex by (auto simp: pc_def svc_ReplaceContainer_def svc_ReplaceContainerArchived_def)
  show ?thesis
  proof (cases x)
    case (Inl e)
    show ?thesis using run o1 step_others [OF step] Inl others_trans by (intro refused [of w2 e]) auto
  next
    case (Inr doc)
    obtain d where d: "rows (w_meta w1) k = Some d" "d_ContentHash d = h" "objs (w_blob w2) (d_StorageRef d) = None"
        "rows (w_meta w2) k = Some doc" "d_ContentHash doc = CanonicalHash data"
      and rd: "\<And>c doc'. svc_Get k c w2 = Inr doc' \<Longrightarrow>
        svc_Content ?sv k c w2 = Inr (doc', data) \<and> d_ContentHash doc' = CanonicalHash data"
      using dev_replaced [OF r1 env rep [unfolded Inr] op] by blast
    have "d_ID doc = k"
      using wf_mem_id [OF dev_wf [OF others_reachable [OF step_others [OF step] r1]] d(4)] .
    moreover have "reads_as ?sv k data w2" unfolding reads_as_def using rd by blast
    moreover have "d_PreservationClass doc = ''preservation''" if "c = CReplaceContainerArchived k h data"
      using rep [unfolded Inr] that by (auto simp: pc_def dest!: replace_done(1))
    ultimately show ?thesis
      using o1 step d run Inr replace_done(2) [OF rep [unfolded Inr] d(1)] by (intro replaced) auto
  qed
qed

text \<open>A new document inside a run, again in one step.  Its row is the input's, as classified by its bytes,
  and if it is the signed form of a chain, no live one was there when it was stored.\<close>

lemma ingest_unblocked:
  assumes "env_ok ev (w_meta w)" and "svc_Ingest sv ev inp w = (Inr doc, w')"
    and "classify (sv_asice sv) inp = (inp1, inner)" and "signed_kind (in_Kind inp1)" and "in_ParentID inp1 \<noteq> []"
    and "d \<in> ran (rows (w_meta w))"
  shows "\<not> blocks_insert (in_Kind inp1) (in_ParentID inp1) d"
proof
  assume blocks: "blocks_insert (in_Kind inp1) (in_ParentID inp1) d"
  obtain objKey keyRef w1 where st: "sealAndStore sv ev (in_Data inp1) w = (Inr (objKey, keyRef), w1)"
    using assms(2,3) by (auto simp: svc_Ingest_def split: prod.splits sum.splits)
  then have meta: "w_meta w1 = w_meta w" by (auto simp: sealAndStore_def split: sum.splits prod.splits)
  have "mem_Insert (e_ord ev) (e_id ev) (e_storeNow ev) (ingest_row sv (e_now ev) inp1 inner objKey keyRef) (w_meta w1) =
      (Inl ErrChainAdvanced, w_meta w1)"
    unfolding meta using assms(1,4-6) blocks
    by (intro mem_Insert_refused [where d = d])
       (auto simp: env_ok_def ingest_row_def insert_row_def signed_kind_def or_default_def)
  with assms(2,3) st show False by (simp add: svc_Ingest_def)
qed

lemma runs_ingest:
  assumes "svc_reachable (dev_service l lib ttl) NewBlobMemory w"
    and "runs (dev_service l lib ttl) w (DocCall (CIngest inp) K) es rep w'"
    and "in_Status inp \<noteq> ''expired''" and "in_Status inp \<noteq> ''deleted''"
  obtains (refused) e w1 where "others (dev_service l lib ttl) w w1"
      and "runs (dev_service l lib ttl) w1 (K (Inl e)) es rep w'"
  | (stored) doc inp1 inner and ev :: env and keyRef w1 w2 where
        "others (dev_service l lib ttl) w w1" and "svc_step (dev_service l lib ttl) w1 (SvIngest ev inp) w2"
      and "classify lib inp = (inp1, inner)" and "rows (w_meta w1) (d_ID doc) = None"
      and "rows (w_meta w2) (d_ID doc) = Some (insert_row (d_ID doc) (e_storeNow ev)
            (ingest_row (dev_service l lib ttl) (e_now ev) inp1 inner (e_objKey ev) keyRef))"
      and "doc = project_freeze (w_meta w2) (insert_row (d_ID doc) (e_storeNow ev)
            (ingest_row (dev_service l lib ttl) (e_now ev) inp1 inner (e_objKey ev) keyRef))"
      and "d_ContentHash doc = CanonicalHash (in_Data inp)"
      and "reads_as (dev_service l lib ttl) (d_ID doc) (in_Data inp) w2"
      and "runs (dev_service l lib ttl) w2 (K (Inr doc)) es rep w'"
      and "\<And>d. signed_kind (in_Kind inp1) \<Longrightarrow> in_ParentID inp1 \<noteq> [] \<Longrightarrow> d \<in> ran (rows (w_meta w1)) \<Longrightarrow>
            \<not> blocks_insert (in_Kind inp1) (in_ParentID inp1) d"
proof -
  let ?sv = "dev_service l lib ttl"
  from runs_DocCall [OF assms(2)] obtain w1 out x w2 where
    o1: "others ?sv w w1" and ok: "out_ok out (w_meta w1)" "\<not> names_id (e_id (o_env out)) (CIngest inp)"
    and ex: "doc_exec ?sv out (CIngest inp) w1 = (x, w2)" and run: "runs ?sv w2 (K x) es rep w'" by blast
  have env: "env_ok (o_env out) (w_meta w1)" using ok by (simp add: out_ok_def)
  have "svc_ok (SvIngest (o_env out) inp) (w_meta w1)" "svc_exec ?sv (SvIngest (o_env out) inp) w1 = w2"
    using assms(3,4) env ok(2) ex by auto
  then have step: "svc_step ?sv w1 (SvIngest (o_env out) inp) w2" using svc_step.call by blast
  show ?thesis
  proof (cases x)
    case (Inl e)
    show ?thesis using run o1 step_others [OF step] Inl others_trans by (intro refused [of w2 e]) auto
  next
    case (Inr doc)
    then have ing: "svc_Ingest ?sv (o_env out) inp w1 = (Inr doc, w2)" using ex by simp
    obtain inp1 inner keyRef where c: "classify lib inp = (inp1, inner)"
      and none: "rows (w_meta w1) (e_id (o_env out)) = None"
      and row: "rows (w_meta w2) = (rows (w_meta w1))(e_id (o_env out) \<mapsto> insert_row (e_id (o_env out)) (e_storeNow (o_env out))
          (ingest_row ?sv (e_now (o_env out)) inp1 inner (e_objKey (o_env out)) keyRef))"
      and get: "svc_Get (e_id (o_env out)) (readback_caller inp1) w2 = Inr doc"
      and rd: "\<And>c doc'. svc_Get (e_id (o_env out)) c w2 = Inr doc' \<Longrightarrow>
        svc_Content ?sv (e_id (o_env out)) c w2 = Inr (doc', in_Data inp) \<and>
        d_ContentHash doc' = CanonicalHash (in_Data inp) \<and> d_ID doc' = e_id (o_env out)"
      by (rule dev_ingested [OF others_reachable [OF o1 assms(1)] env ing]) (rule that)
    note id = conjunct2 [OF conjunct2 [OF rd [OF get]]]
    have doc: "doc = project_freeze (w_meta w2) (insert_row (d_ID doc) (e_storeNow (o_env out))
        (ingest_row ?sv (e_now (o_env out)) inp1 inner (e_objKey (o_env out)) keyRef))"
      using get row unfolding id by (simp add: svc_Get_def mem_Get_def split: if_splits)
    have reads: "reads_as ?sv (d_ID doc) (in_Data inp) w2" unfolding reads_as_def id using rd by blast
    have "rows (w_meta w1) (d_ID doc) = None" and "d_ContentHash doc = CanonicalHash (in_Data inp)"
      and "rows (w_meta w2) (d_ID doc) = Some (insert_row (d_ID doc) (e_storeNow (o_env out))
          (ingest_row ?sv (e_now (o_env out)) inp1 inner (e_objKey (o_env out)) keyRef))"
      using none row rd [OF get] by (simp_all add: id)
    moreover have "sv_asice ?sv = lib" by (simp add: dev_service_def New_def)
    ultimately show ?thesis
      using stored [OF o1 step c _ _ doc _ reads] run Inr ingest_unblocked [OF env ing] c by simp
  qed
qed

section \<open>Uploads\<close>

lemma runs_readRequiredFile:
  "runs sv w (readRequiredFile r ctx field k) es (Reply st hs b) w' \<Longrightarrow>
     \<exists>fh data. rq_File ctx field = Some fh \<and> fh_Size fh \<le> cf_MaxFileBytes (ro_Config r) \<and> fh_Data fh = Some data \<and>
       runs sv w (k fh data) es (Reply st hs b) w'"
  by (auto simp: readRequiredFile_def too_large_def unreadable_def NewProblem_def
      dest!: runs_emits_Done runs_Done split: option.splits if_splits)

text \<open>The owner a token may store for: the caller itself under the service's own date, or, with the durable
  scope, the product and organisation of the token.\<close>

definition owner_of_token :: "router \<Rightarrow> http_ctx \<Rightarrow> string \<Rightarrow> string \<Rightarrow> string \<Rightarrow> time option \<Rightarrow> bool" where
  "owner_of_token r ctx kind owner tenant until \<longleftrightarrow>
     (if formField ctx ''retention_class'' = ''durable''
      then us_HasScopeLevel (rq_User ctx) ''documents'' ''durable'' \<and> kind = ''product'' \<and> owner \<noteq> [] \<and>
           (owner, tenant) = productPrincipal r ctx \<and>
           (if formField ctx ''retention_until'' = [] then until = None
            else until = parse_rfc3339 (formField ctx ''retention_until'') \<and> until \<noteq> None)
      else kind = ''sub'' \<and> owner = callerID ctx \<and> tenant = [] \<and> until = None \<and> formField ctx ''retention_until'' = [])"

lemma runs_resolveRetention:
  assumes "runs sv w (resolveRetention r ctx (formField ctx ''retention_class'') k) es (Reply st hs b) w'"
  shows "\<exists>kind owner tenant until w1. others sv w w1 \<and> owner_of_token r ctx kind owner tenant until \<and>
    runs sv w1 (k kind owner tenant until) es (Reply st hs b) w'"
proof (cases "formField ctx ''retention_class'' = ''durable''")
  case False
  with assms have "formField ctx ''retention_until'' = []" "runs sv w (k ''sub'' (callerID ctx) [] None) es (Reply st hs b) w'"
    by (auto simp: resolveRetention_def bad_until_def NewProblem_def dest!: runs_Done split: if_splits)
  with False have "others sv w w \<and> owner_of_token r ctx ''sub'' (callerID ctx) [] None \<and>
      runs sv w (k ''sub'' (callerID ctx) [] None) es (Reply st hs b) w'"
    by (simp add: owner_of_token_def)
  then show ?thesis by blast
next
  case True
  obtain princ tenant where p: "productPrincipal r ctx = (princ, tenant)" by fastforce
  from True assms p show ?thesis
    by (auto simp: resolveRetention_def bad_until_def NewProblem_def owner_of_token_def
        dest!: runs_requireScope runs_emits_Done runs_Done runs_NowCall split: if_splits option.splits) (blast intro: others_refl)+
qed

lemma runs_scan_upload:
  "runs sv w (scan_upload r ctx data k) es (Reply st hs b) w' \<Longrightarrow> \<exists>w1. others sv w w1 \<and> runs sv w1 k es (Reply st hs b) w'"
  by (auto simp: scan_upload_def Let_def NewProblem_def dest!: runs_ScanCall runs_emits_Done
      split: sum.splits if_splits) (blast intro: others_refl)+

lemma project_freeze_keeps [simp]:
  "d_ID (project_freeze m d) = d_ID d" "d_Owner (project_freeze m d) = d_Owner d"
  "d_ContentHash (project_freeze m d) = d_ContentHash d" "d_Kind (project_freeze m d) = d_Kind d"
  "d_ParentID (project_freeze m d) = d_ParentID d"
  by (simp_all add: project_freeze_def split: option.split)

lemma classify_tenant: "classify lib inp0 = (inp, inner) \<Longrightarrow> in_TenantID inp = in_TenantID inp0"
  by (auto simp: classify_def split: option.splits)

text \<open>An upload that is answered reaches the storing call, with the owner its token names.\<close>

lemma runs_upload_call:
  assumes "runs sv w (ingest r ctx) es (Reply st hs b) w'"
  obtains fh data kind owner tenant until gate w1 where
      "us_HasScopeLevel (rq_User ctx) ''documents'' ''write''"
    and "rq_File ctx ''file'' = Some fh" and "fh_Data fh = Some data" and "fh_Size fh \<le> cf_MaxFileBytes (ro_Config r)"
    and "owner_of_token r ctx kind owner tenant until" and "others sv w w1"
    and "runs sv w1 (DocCall (CIngest (upload_input r ctx fh data gate kind owner tenant until)) (upload_answer r ctx gate))
           es (Reply st hs b) w'"
proof -
  let ?K = "\<lambda>fh data kind owner tenant until.
       case lb_Check (ro_libs r) (fh_Filename fh) data (cf_MaxFileBytes (ro_Config r)) of
         Inl e \<Rightarrow> emits (IngestOutcome (ro_Audit r) (callerID ctx) False) (writeGateErr r ctx e)
       | Inr gate \<Rightarrow> scan_upload r ctx data
           (DocCall (CIngest (upload_input r ctx fh data gate kind owner tenant until)) (upload_answer r ctx gate))"
  from assms [unfolded ingest_def] obtain fh data where f: "us_HasScopeLevel (rq_User ctx) ''documents'' ''write''"
      "rq_File ctx ''file'' = Some fh" "fh_Data fh = Some data" "fh_Size fh \<le> cf_MaxFileBytes (ro_Config r)"
    and run: "runs sv w (resolveRetention r ctx (formField ctx ''retention_class'') (?K fh data)) es (Reply st hs b) w'"
    by (auto simp: NewProblem_def dest!: runs_requireScope runs_readRequiredFile runs_Done split: if_splits)
  from runs_resolveRetention [OF run] obtain kind owner tenant until w1 where
    w1: "others sv w w1" "owner_of_token r ctx kind owner tenant until"
    and k: "runs sv w1 (?K fh data kind owner tenant until) es (Reply st hs b) w'" by blast
  from k obtain gate where "runs sv w1 (scan_upload r ctx data
      (DocCall (CIngest (upload_input r ctx fh data gate kind owner tenant until)) (upload_answer r ctx gate))) es (Reply st hs b) w'"
    by (auto simp: writeGateErr_def NewProblem_def dest!: runs_emits runs_Done split: sum.splits if_splits)
  from runs_scan_upload [OF this] obtain w2 where "others sv w1 w2" "runs sv w2
      (DocCall (CIngest (upload_input r ctx fh data gate kind owner tenant until)) (upload_answer r ctx gate)) es (Reply st hs b) w'"
    by blast
  with that [OF f w1(2) others_trans [OF w1(1)]] show ?thesis by blast
qed

text \<open>The upload of the sample request, and its call at the empty server.\<close>

abbreviation sample_gate :: gate_result where
  "sample_gate \<equiv> \<lparr>gt_Kind = ''pdf'', gt_HasSignatures = False\<rparr>"

abbreviation sample_post_input :: ingest_input where
  "sample_post_input \<equiv>
     upload_input sample_router (sample_ctx [''write'']) sample_file [7, 8, 9] sample_gate ''sub'' ''ana'' [] None"

lemma sample_post:
  "serve sample_router (PostDocuments (sample_ctx [''write''])) =
     DocCall (CIngest sample_post_input) (upload_answer sample_router (sample_ctx [''write'']) sample_gate)"
  by (simp add: ingest_def requireScope_def readRequiredFile_def sample_file_def sample_config_def formField_def
      sample_ctx_def ValidPreservationClass_def ValidRetentionClass_def resolveRetention_def callerID_def sample_libs_def
      scan_upload_def)

lemma sample_post_exec:
  obtains out doc w' where "out_ok out (w_meta empty_world)" and "\<not> names_id (e_id (o_env out)) (CIngest sample_post_input)"
    and "doc_exec (dev_service sample_kms sample_lib 100) out (CIngest sample_post_input) empty_world = (Inr doc, w')"
    and "svc_Ingest (dev_service sample_kms sample_lib 100) sample_env sample_post_input empty_world = (Inr doc, w')"
proof -
  let ?sv = "dev_service sample_kms sample_lib 100"
  have "env_full sample_env" by (simp add: env_full_def sample_env_def)
  then obtain doc w' where ing: "svc_Ingest ?sv sample_env sample_post_input empty_world = (Inr doc, w')"
    using dev_upload [OF reachable_empty sample_env_ok, of sample_post_input] by (auto simp: upload_input_def Let_def)
  define out where "out = \<lparr>o_env = sample_env, o_ord1 = [], o_ord2 = [], o_clk = (\<lambda>_. 0)\<rparr>"
  have "out_ok out (w_meta empty_world)" "\<not> names_id (e_id (o_env out)) (CIngest sample_post_input)"
      "doc_exec ?sv out (CIngest sample_post_input) empty_world = (Inr doc, w')"
    using sample_env_ok ing by (simp_all add: out_def out_ok_def visits_def empty_world_def NewMemory_def upload_input_def
        Let_def sample_env_def)
  from that [OF this ing] show ?thesis .
qed

text \<open>C9: an upload is stored for the owner its token names, and nobody else.  If an upload is answered
  with the stored document, the token had the write scope and the file respects the size cap; the row
  is new, belongs to the calling subject and carries the service's own retention date, or, only with the
  durable class and scope, to the product and organisation of the token with the date that was asked for;
  everyone who may read it reads exactly the uploaded bytes; and both the outcome and the upload
  were reported.\<close>

theorem upload_owned_by_token:
  assumes "svc_reachable (dev_service l lib ttl) NewBlobMemory w"
    and "runs (dev_service l lib ttl) w (serve r (PostDocuments ctx)) es (Reply st hs (JIngested x)) w'"
  shows "\<exists>fh data kind owner tenant until t w1 w2 row.
    us_HasScopeLevel (rq_User ctx) ''documents'' ''write'' \<and>
    rq_File ctx ''file'' = Some fh \<and> fh_Data fh = Some data \<and> fh_Size fh \<le> cf_MaxFileBytes (ro_Config r) \<and>
    owner_of_token r ctx kind owner tenant until \<and>
    others (dev_service l lib ttl) w w1 \<and> others (dev_service l lib ttl) w1 w2 \<and> others (dev_service l lib ttl) w2 w' \<and>
    rows (w_meta w1) (ri_id x) = None \<and> rows (w_meta w2) (ri_id x) = Some row \<and>
    d_Owner row = owner \<and> d_TenantID row = tenant \<and>
    d_RetentionUntil row = (if formField ctx ''retention_class'' = ''durable'' then until else Some (t + ttl)) \<and>
    ri_contentHash x = CanonicalHash data \<and> reads_as (dev_service l lib ttl) (ri_id x) data w2 \<and>
    (\<exists>doc. d_ID doc = ri_id x \<and> es = stored_events r (callerID ctx) doc)"
proof -
  let ?sv = "dev_service l lib ttl"
  from assms(2) have "runs ?sv w (ingest r ctx) es (Reply st hs (JIngested x)) w'" by simp
  then obtain fh data kind owner tenant until gate w0 where
      f: "us_HasScopeLevel (rq_User ctx) ''documents'' ''write''" "rq_File ctx ''file'' = Some fh" "fh_Data fh = Some data"
        "fh_Size fh \<le> cf_MaxFileBytes (ro_Config r)" "owner_of_token r ctx kind owner tenant until"
    and o0: "others ?sv w w0"
    and call: "runs ?sv w0 (DocCall (CIngest (upload_input r ctx fh data gate kind owner tenant until)) (upload_answer r ctx gate))
           es (Reply st hs (JIngested x)) w'"
    by (rule runs_upload_call)
  let ?inp = "upload_input r ctx fh data gate kind owner tenant until"
  have inp: "in_Owner ?inp = owner" "in_TenantID ?inp = tenant" "in_Data ?inp = data" "in_RetentionUntil ?inp = until"
      "in_RetentionClass ?inp = formField ctx ''retention_class''" "in_Status ?inp \<noteq> ''expired''" "in_Status ?inp \<noteq> ''deleted''"
    by (simp_all add: upload_input_def Let_def)
  from others_reachable [OF o0 assms(1)] call inp(6,7) show ?thesis
  proof (cases rule: runs_ingest)
    case (refused e w1)
    then show ?thesis by (auto simp: upload_answer_def writeStoreErr_def dest!: runs_emits_Done)
  next
    case (stored doc inp1 inner ev keyRef w1 w2)
    note keep = classify_keeps [OF stored(3)] classify_tenant [OF stored(3)]
    from runs_emits [OF stored(9) [unfolded upload_answer_def sum.case]] have
        x: "ri_id x = d_ID doc" "ri_contentHash x = d_ContentHash doc" and o3: "others ?sv w2 w'"
        and es: "es = stored_events r (callerID ctx) doc"
      by (auto simp: Created_def stored_events_def dest!: runs_Done intro: others_trans)
    have "d_RetentionUntil (insert_row (d_ID doc) (e_storeNow ev) (ingest_row ?sv (e_now ev) inp1 inner (e_objKey ev) keyRef)) =
        (if formField ctx ''retention_class'' = ''durable'' then until else Some (e_now ev + ttl))"
      using keep inp by (simp add: ingest_row_def retentionFor_def dev_service_def New_def)
    moreover have "d_Owner (insert_row (d_ID doc) (e_storeNow ev) (ingest_row ?sv (e_now ev) inp1 inner (e_objKey ev) keyRef)) = owner"
        "d_TenantID (insert_row (d_ID doc) (e_storeNow ev) (ingest_row ?sv (e_now ev) inp1 inner (e_objKey ev) keyRef)) = tenant"
      using keep inp by (simp_all add: ingest_row_def)
    ultimately show ?thesis
      using f others_trans [OF o0 stored(1)] step_others [OF stored(2)] stored(4,5,7,8) o3 es x inp(3) by (simp only: x) blast
  qed
qed

lemma upload_owned_by_token_witness:
  "\<exists>es hs x w'. runs (dev_service sample_kms sample_lib 100) empty_world
       (serve sample_router (PostDocuments (sample_ctx [''write'']))) es (Reply 201 hs (JIngested x)) w' \<and>
     ri_contentHash x = CanonicalHash [7, 8, 9]"
proof -
  let ?sv = "dev_service sample_kms sample_lib 100" and ?ctx = "sample_ctx [''write'']"
  obtain out doc w' where out: "out_ok out (w_meta empty_world)" "\<not> names_id (e_id (o_env out)) (CIngest sample_post_input)"
      "doc_exec ?sv out (CIngest sample_post_input) empty_world = (Inr doc, w')"
    by (rule sample_post_exec)
  obtain es x where run: "runs ?sv w' (upload_answer sample_router ?ctx sample_gate (Inr doc)) es (Reply 201 [] (JIngested x)) w'"
    by (simp add: upload_answer_def Created_def IngestOutcome_def security_def Uploaded_def domain_event_def)
       (blast intro: runs.emit runs.finish)
  have "runs ?sv empty_world (serve sample_router (PostDocuments ?ctx)) es (Reply 201 [] (JIngested x)) w'"
    unfolding sample_post by (rule runs.doc [OF out]) (rule run)
  with upload_owned_by_token [OF reachable_empty this] show ?thesis by (auto simp: sample_file_def)
qed

section \<open>Completing and co-signing\<close>

lemma runs_coSignInto:
  assumes "svc_reachable (dev_service l lib ttl) NewBlobMemory w"
    and "runs (dev_service l lib ttl) w (coSignInto r caller contDoc contBytes fileless) es (Reply st hs (JContainer x)) w'"
  obtains merged d ev w1 w2 where "others (dev_service l lib ttl) w w1"
    and "svc_step (dev_service l lib ttl) w1 (SvReplaceContainer ev (d_ID contDoc) (d_ContentHash contDoc) merged) w2"
    and "others (dev_service l lib ttl) w2 w'" and "CoSign (lb_asice (ro_libs r)) contBytes fileless = Inr merged"
    and "ro_containerId x = d_ID contDoc" and "ro_contentHash x = CanonicalHash merged"
    and "rows (w_meta w1) (d_ID contDoc) = Some d" and "d_ContentHash d = d_ContentHash contDoc"
    and "reads_as (dev_service l lib ttl) (d_ID contDoc) merged w2" and "d_Status d \<noteq> ''deleted''"
    and "objs (w_blob w2) (d_StorageRef d) = None"
proof -
  let ?sv = "dev_service l lib ttl"
  let ?K = "\<lambda>x. case x of Inl e \<Rightarrow> writeStoreErr e
      | Inr doc \<Rightarrow> emits (stored_events r caller doc) (Done (container_reply doc))"
  from assms(2) obtain merged where c: "CoSign (lb_asice (ro_libs r)) contBytes fileless = Inr merged"
    and run: "runs ?sv w (DocCall (CReplaceContainer (d_ID contDoc) (d_ContentHash contDoc) merged) ?K) es (Reply st hs (JContainer x)) w'"
    by (auto simp: coSignInto_def packaging_failed_def NewProblem_def dest!: runs_emits_Done split: sum.splits)
  from assms(1) run disjI1 [OF conjI [OF refl refl]] show ?thesis
  proof (cases rule: runs_replace)
    case (refused e w1)
    then show ?thesis by (auto simp: writeStoreErr_def dest!: runs_Done)
  next
    case (replaced doc d w1 ev w2)
    from runs_emits [OF replaced(11) [unfolded sum.case]] have x: "ro_containerId x = d_ID doc" "ro_contentHash x = d_ContentHash doc"
        and o3: "others ?sv w2 w'"
      by (auto simp: container_reply_def Created_def dest!: runs_Done intro: others_trans)
    show ?thesis
      by (rule that [OF replaced(1,2) o3 c _ _ replaced(3,4,9) conjunct1 [OF replaced(12)] replaced(5)])
         (simp_all add: x replaced(7,8))
  qed
qed

lemma classify_kind: "classify lib inp0 = (inp, inner) \<Longrightarrow> in_Kind inp0 \<noteq> [] \<Longrightarrow> in_Kind inp = in_Kind inp0"
  by (auto simp: classify_def split: option.splits)

text \<open>The two ways a completed container is stored, each by one call between \<open>w1\<close> and \<open>w2\<close>.  The first
  container of its source is made of the source's bytes and inserted while the source has no live
  container.  Any later signature is merged into the bytes \<open>cur\<close> of the answered row, as they were
  read, and replaces them by a compare-and-set while the row still holds the hash of exactly those
  bytes.\<close>

definition container_stored ::
  "blob_memory service \<Rightarrow> asice \<Rightarrow> string \<Rightarrow> caller \<Rightarrow> bytes \<Rightarrow> string \<Rightarrow> bytes \<Rightarrow>
   blob_memory world \<Rightarrow> blob_memory world \<Rightarrow> blob_memory world \<Rightarrow> bool" where
  "container_stored sv lib source rc fileless k merged w w1 w2 \<longleftrightarrow>
     (\<exists>src content w0 ev inp row. others sv w w0 \<and> others sv w0 w1 \<and> svc_Content sv source rc w0 = Inr (src, content) \<and>
        Complete lib fileless [\<lparr>pf_Name = d_Filename src, pf_Data = content\<rparr>] = Inr merged \<and>
        (\<forall>d \<in> ran (rows (w_meta w1)).
           d_Kind d = ''container'' \<and> d_ParentID d = source \<longrightarrow> d_Status d = ''deleted'') \<and>
        svc_step sv w1 (SvIngest ev inp) w2 \<and> in_Data inp = merged \<and>
        rows (w_meta w1) k = None \<and> rows (w_meta w2) k = Some row \<and> d_Kind row = ''container'' \<and> d_ParentID row = source) \<or>
     (\<exists>doc cur w0 ev d. others sv w w0 \<and> others sv w0 w1 \<and> svc_Content sv k rc w0 = Inr (doc, cur) \<and>
        CoSign lib cur fileless = Inr merged \<and>
        rows (w_meta w1) k = Some d \<and> d_ContentHash d = CanonicalHash cur \<and> d_Status d \<noteq> ''deleted'' \<and>
        svc_step sv w1 (SvReplaceContainer ev k (CanonicalHash cur) merged) w2 \<and> objs (w_blob w2) (d_StorageRef d) = None)"

lemma content_names_row:
  assumes "svc_reachable (dev_service l lib ttl) NewBlobMemory w"
    and "svc_Content (dev_service l lib ttl) k c w = Inr (d, data)"
  shows "d_ID d = k \<and> k \<noteq> []"
  using dev_content_hash [OF assms] wf_mem_id [OF dev_wf [OF assms(1)]] wf_mem_key_ne [OF dev_wf [OF assms(1)]]
  by (auto simp: svc_Get_def mem_Get_def split: option.splits if_splits)

lemma coSign_stored:
  assumes "svc_reachable (dev_service l lib ttl) NewBlobMemory w0" and "others (dev_service l lib ttl) w w0"
    and "svc_Content (dev_service l lib ttl) k rc w0 = Inr (contDoc, contBytes)"
    and "runs (dev_service l lib ttl) w0 (coSignInto r caller contDoc contBytes fileless) es (Reply st hs (JContainer x)) w'"
  shows "\<exists>merged w1 w2. others (dev_service l lib ttl) w w1 \<and> others (dev_service l lib ttl) w2 w' \<and>
    ro_contentHash x = CanonicalHash merged \<and> reads_as (dev_service l lib ttl) (ro_containerId x) merged w2 \<and>
    container_stored (dev_service l lib ttl) (lb_asice (ro_libs r)) source rc fileless (ro_containerId x) merged w w1 w2"
proof -
  let ?sv = "dev_service l lib ttl"
  note hash = conjunct1 [OF dev_content_hash [OF assms(1,3)]] and id = conjunct1 [OF content_names_row [OF assms(1,3)]]
  obtain merged d ev w1 w2 where c: "others ?sv w0 w1"
      "svc_step ?sv w1 (SvReplaceContainer ev (d_ID contDoc) (d_ContentHash contDoc) merged) w2"
      "others ?sv w2 w'" "CoSign (lb_asice (ro_libs r)) contBytes fileless = Inr merged"
      "ro_containerId x = d_ID contDoc" "ro_contentHash x = CanonicalHash merged"
      "rows (w_meta w1) (d_ID contDoc) = Some d" "d_ContentHash d = d_ContentHash contDoc"
      "reads_as ?sv (d_ID contDoc) merged w2" "d_Status d \<noteq> ''deleted''" "objs (w_blob w2) (d_StorageRef d) = None"
    by (rule runs_coSignInto [OF assms(1,4)])
  have "container_stored ?sv (lb_asice (ro_libs r)) source rc fileless k merged w w1 w2"
    unfolding container_stored_def
    using assms(2,3) c(1,2,4,7,8,10,11) unfolding hash id by (intro disjI2) blast
  with c(3,5,6,9) others_trans [OF assms(2) c(1)] show ?thesis unfolding id by auto
qed

lemma runs_complete:
  assumes "runs sv w (complete r ctx) es (Reply st hs (JContainer x)) w'"
  obtains fh fileless w0 src content where "rq_File ctx ''container'' = Some fh" and "fh_Data fh = Some fileless"
    and "others sv w w0" and "svc_Content sv (rq_Param ctx ''id'') (reqCaller r ctx) w0 = Inr (src, content)"
    and "runs sv w0 (coSignInto r (callerID ctx) src content fileless) es (Reply st hs (JContainer x)) w' \<or>
      (\<exists>merged. Complete (lb_asice (ro_libs r)) fileless [\<lparr>pf_Name = d_Filename src, pf_Data = content\<rparr>] = Inr merged \<and>
         runs sv w0 (DocCall (CIngest (container_input r (callerID ctx) (cl_Serial (reqCaller r ctx)) (rq_Param ctx ''id'')
           (d_PreservationClass src) (containerName (d_Filename src)) merged)) (complete_answer r ctx fileless))
           es (Reply st hs (JContainer x)) w')"
  using assms
  by (auto simp: complete_def Let_def packaging_failed_def NewProblem_def writeStoreErr_def
      dest!: runs_requireScope runs_readRequiredFile runs_ContentCall runs_emits_Done runs_Done
      split: sum.splits prod.splits if_splits)

lemma runs_complete_answer_race:
  assumes "runs sv w (complete_answer r ctx fileless (Inl e)) es (Reply st hs (JContainer x)) w'"
  obtains w0 winnerDoc winnerBytes k where "others sv w w0" and "svc_Content sv k (reqCaller r ctx) w0 = Inr (winnerDoc, winnerBytes)"
    and "runs sv w0 (coSignInto r (callerID ctx) winnerDoc winnerBytes fileless) es (Reply st hs (JContainer x)) w'"
  using assms
  by (auto simp: complete_answer_def writeStoreErr_def
      dest!: runs_emits_Done runs_Done runs_DocCall runs_ContentCall split: sum.splits if_splits) (blast intro: others_trans)

lemma runs_first_container:
  assumes "svc_reachable (dev_service l lib ttl) NewBlobMemory w0" and "others (dev_service l lib ttl) w w0"
    and "svc_Content (dev_service l lib ttl) source rc w0 = Inr (src, content)"
    and "Complete (lb_asice (ro_libs r)) fileless [\<lparr>pf_Name = d_Filename src, pf_Data = content\<rparr>] = Inr merged"
    and "runs (dev_service l lib ttl) w0 (DocCall (CIngest (container_input r caller serial source presv name merged))
      (complete_answer r ctx fileless)) es (Reply st hs (JContainer x)) w'"
  obtains (race) e w1 where "others (dev_service l lib ttl) w w1"
      and "runs (dev_service l lib ttl) w1 (complete_answer r ctx fileless (Inl e)) es (Reply st hs (JContainer x)) w'"
  | (first) w1 w2 where "others (dev_service l lib ttl) w w1" and "others (dev_service l lib ttl) w2 w'" and "ro_contentHash x = CanonicalHash merged"
      and "reads_as (dev_service l lib ttl) (ro_containerId x) merged w2"
      and "container_stored (dev_service l lib ttl) (lb_asice (ro_libs r)) source rc fileless (ro_containerId x) merged w w1 w2"
proof -
  let ?sv = "dev_service l lib ttl" and ?inp = "container_input r caller serial source presv name merged"
  have inp: "in_Status ?inp \<noteq> ''expired''" "in_Status ?inp \<noteq> ''deleted''" "in_Kind ?inp = ''container''"
      "in_ParentID ?inp = source" "in_Data ?inp = merged"
    by (simp_all add: container_input_def)
  from assms(1,5) inp(1,2) show ?thesis
  proof (cases rule: runs_ingest)
    case (refused e w1)
    show ?thesis by (rule race [OF others_trans [OF assms(2) refused(1)] refused(2)])
  next
    case (stored doc inp1 inner ev keyRef w1 w2)
    from runs_emits [OF stored(9) [unfolded complete_answer_def sum.case]] have
        x: "ro_containerId x = d_ID doc" "ro_contentHash x = d_ContentHash doc" and o3: "others ?sv w2 w'"
      by (auto simp: container_reply_def Created_def dest!: runs_Done intro: others_trans)
    have kind: "in_Kind inp1 = ''container''" "in_ParentID inp1 = source"
      using classify_kind [OF stored(3)] classify_keeps(2) [OF stored(3)] inp(3,4) by simp_all
    have "\<forall>d \<in> ran (rows (w_meta w1)).
        d_Kind d = ''container'' \<and> d_ParentID d = source \<longrightarrow> d_Status d = ''deleted''"
      using stored(10) conjunct2 [OF content_names_row [OF assms(1,3)]] by (auto simp: kind signed_kind_def blocks_insert_def)
    moreover have "d_Kind (insert_row (d_ID doc) (e_storeNow ev) (ingest_row ?sv (e_now ev) inp1 inner (e_objKey ev) keyRef)) = ''container''"
        "d_ParentID (insert_row (d_ID doc) (e_storeNow ev) (ingest_row ?sv (e_now ev) inp1 inner (e_objKey ev) keyRef)) = source"
      using kind by (simp_all add: ingest_row_def)
    ultimately have "container_stored ?sv (lb_asice (ro_libs r)) source rc fileless (d_ID doc) merged w w1 w2"
      unfolding container_stored_def using assms(2-4) stored(1,2,4,5) inp(5) by (intro disjI1) blast
    then show ?thesis
      using first [OF others_trans [OF assms(2) stored(1)] o3] stored(7,8) inp(5) by (simp add: x)
  qed
qed

text \<open>C5: a completed signature is stored whole, and over nothing it did not see.  Whatever other requests
  do meanwhile, if completing a document is answered with a container, then everyone who may read
  that container reads exactly what the library made of the signer's result, and one call of the service
  put it there: either it stored what was made of the source's bytes as the first container of that
  source, while the source had no live one; or it compared and replaced, in that one call, the very
  bytes the signature was merged into, whose hash the row held immediately before.  So in no
  interleaving is a concurrent signature overwritten by one that was merged into older bytes.\<close>

theorem complete_merges_signature:
  assumes "svc_reachable (dev_service l lib ttl) NewBlobMemory w"
    and "runs (dev_service l lib ttl) w (serve r (PostComplete ctx)) es (Reply st hs (JContainer x)) w'"
  shows "\<exists>fh fileless. rq_File ctx ''container'' = Some fh \<and> fh_Data fh = Some fileless \<and>
    (\<exists>merged w1 w2. others (dev_service l lib ttl) w w1 \<and> others (dev_service l lib ttl) w2 w' \<and>
       ro_contentHash x = CanonicalHash merged \<and> reads_as (dev_service l lib ttl) (ro_containerId x) merged w2 \<and>
       container_stored (dev_service l lib ttl) (lb_asice (ro_libs r)) (rq_Param ctx ''id'') (reqCaller r ctx) fileless
         (ro_containerId x) merged w w1 w2)"
proof -
  let ?sv = "dev_service l lib ttl"
  from assms(2) have run: "runs ?sv w (complete r ctx) es (Reply st hs (JContainer x)) w'" by simp
  obtain fh fileless w0 src content where f: "rq_File ctx ''container'' = Some fh" "fh_Data fh = Some fileless"
      and o0: "others ?sv w w0" and read: "svc_Content ?sv (rq_Param ctx ''id'') (reqCaller r ctx) w0 = Inr (src, content)"
      and next_call: "runs ?sv w0 (coSignInto r (callerID ctx) src content fileless) es (Reply st hs (JContainer x)) w' \<or>
      (\<exists>merged. Complete (lb_asice (ro_libs r)) fileless [\<lparr>pf_Name = d_Filename src, pf_Data = content\<rparr>] = Inr merged \<and>
         runs ?sv w0 (DocCall (CIngest (container_input r (callerID ctx) (cl_Serial (reqCaller r ctx)) (rq_Param ctx ''id'')
           (d_PreservationClass src) (containerName (d_Filename src)) merged)) (complete_answer r ctx fileless))
           es (Reply st hs (JContainer x)) w')"
    by (rule runs_complete [OF run])
  have r0: "svc_reachable ?sv NewBlobMemory w0" by (rule others_reachable [OF o0 assms(1)])
  have cosign: ?thesis if "others ?sv w wx" "svc_Content ?sv k (reqCaller r ctx) wx = Inr (d, cur)"
      "runs ?sv wx (coSignInto r (callerID ctx) d cur fileless) es (Reply st hs (JContainer x)) w'" for wx k d cur
  proof -
    have rx: "svc_reachable ?sv NewBlobMemory wx" by (rule others_reachable [OF that(1) assms(1)])
    from coSign_stored [OF rx that] f show ?thesis by blast
  qed
  from next_call show ?thesis
  proof (elim disjE exE conjE, goal_cases)
    case 1
    from cosign [OF o0 read this] show ?thesis .
  next
    case (2 merged)
    from r0 o0 read 2 show ?thesis
    proof (cases rule: runs_first_container)
      case (race e w1)
      obtain wx d cur k where "others ?sv w1 wx" "svc_Content ?sv k (reqCaller r ctx) wx = Inr (d, cur)"
          "runs ?sv wx (coSignInto r (callerID ctx) d cur fileless) es (Reply st hs (JContainer x)) w'"
        by (rule runs_complete_answer_race [OF race(2)])
      from cosign [OF others_trans [OF race(1) this(1)] this(2,3)] show ?thesis .
    next
      case first
      with f show ?thesis by blast
    qed
  qed
qed

lemma complete_merges_signature_witness:
  "\<exists>es hs x w'. runs (dev_service sample_kms sample_lib 100) sample_world
       (serve sample_router (PostComplete (sample_ctx [''write'']))) es (Reply 201 hs (JContainer x)) w' \<and>
     (\<exists>merged. ro_contentHash x = CanonicalHash merged)"
proof -
  let ?sv = "dev_service sample_kms sample_lib 100" and ?ctx = "sample_ctx [''write'']"
  obtain d data where c: "svc_Content ?sv ''01'' (sub_caller ''ana'') sample_world = Inr (d, data)"
      and d: "d_Kind d = ''container''" "d_ID d = ''01''" "d_ContentHash d = CanonicalHash [72, 105]"
      and row: "rows (w_meta sample_world) = [''01'' \<mapsto> d]"
    by (rule sample_content)
  obtain doc w' where rep: "svc_ReplaceContainer ?sv sample_env2 ''01'' (CanonicalHash [72, 105]) (data @ [7, 8, 9]) sample_world = (Inr doc, w')"
    by (rule sample_replace [of "[]"]) (simp_all add: svc_ReplaceContainer_def)
  define out where "out = \<lparr>o_env = sample_env2, o_ord1 = [''01''], o_ord2 = [''01''], o_clk = (\<lambda>_. 0)\<rparr>"
  have out: "out_ok out (w_meta sample_world)"
    using sample_env2_ok row by (simp add: out_def out_ok_def visits_def)
  obtain es x where run: "runs ?sv w' (emits (stored_events sample_router ''ana'' doc) (Done (container_reply doc))) es (Reply 201 [] (JContainer x)) w'"
    by (simp add: stored_events_def container_reply_def Created_def IngestOutcome_def security_def Uploaded_def domain_event_def)
       (blast intro: runs.emit runs.finish)
  have "runs ?sv sample_world (coSignInto sample_router ''ana'' d data [7, 8, 9]) es (Reply 201 [] (JContainer x)) w'"
    using rep d run
    by (simp add: coSignInto_def CoSign_def sample_libs_def) (rule runs.doc [OF out, where x = "Inr doc" and ?w1.0 = w'], simp_all add: out_def)
  then have "runs ?sv sample_world (serve sample_router (PostComplete ?ctx)) es (Reply 201 [] (JContainer x)) w'"
    using c d
    by (simp add: complete_def requireScope_def readRequiredFile_def sample_file_def sample_config_def Let_def)
       (rule runs.content, simp)
  with complete_merges_signature [OF reachable_sample_world this] show ?thesis by blast
qed

section \<open>Signed PDFs and archived forms\<close>

lemma runs_signed_reply:
  assumes "runs sv w (emits es0 (UnitCall c (\<lambda>u. Done (signed_reply doc)))) es (Reply st hs (JSignedDocument x)) w'"
  shows "rs_signedDocumentId x = d_ID doc \<and> rs_contentHash x = d_ContentHash doc \<and> others sv w w'"
proof -
  from runs_emits [OF assms] obtain w1 es1 where o1: "others sv w w1"
    and run: "runs sv w1 (UnitCall c (\<lambda>u. Done (signed_reply doc))) es1 (Reply st hs (JSignedDocument x)) w'" by blast
  from runs_UnitCall [OF run] obtain w2 out y w3 where "others sv w1 w2" "out_ok out (w_meta w2)" "unit_exec sv out c w2 = (y, w3)"
      "runs sv w3 (Done (signed_reply doc)) es1 (Reply st hs (JSignedDocument x)) w'" by blast
  then show ?thesis
    using o1 unit_exec_others by (fastforce simp: signed_reply_def Created_def dest!: runs_Done intro: others_trans)
qed

text \<open>The two ways a signed PDF is stored, each by one call between \<open>w1\<close> and \<open>w2\<close>.  The first of its chain
  is inserted while the chain has no live PDF.  Otherwise the chain's live signed PDF, as it was
  resolved by this request, is replaced by a compare-and-set while it still holds the hash it was resolved
  with: one signed meanwhile by another request is resolved, and replaced, as well.\<close>

definition signed_pdf_placed ::
  "blob_memory service \<Rightarrow> caller \<Rightarrow> document \<Rightarrow> bytes \<Rightarrow> string \<Rightarrow> blob_memory world \<Rightarrow> blob_memory world \<Rightarrow> blob_memory world \<Rightarrow> bool" where
  "signed_pdf_placed sv rc parent data k w w1 w2 \<longleftrightarrow>
     (\<exists>ev inp row. d_Kind parent \<noteq> ''pdf'' \<and> (\<forall>d \<in> ran (rows (w_meta w1)). \<not> live_pdf_of (chainRootID parent) d) \<and>
       svc_step sv w1 (SvIngest ev inp) w2 \<and> in_Data inp = data \<and>
       rows (w_meta w1) k = None \<and> rows (w_meta w2) k = Some row \<and>
       d_Kind row = ''pdf'' \<and> d_Status row = ''signed'' \<and> d_ParentID row = chainRootID parent) \<or>
     (\<exists>d head ord w0 ev. others sv w w0 \<and> others sv w0 w1 \<and> visits ord (rows (w_meta w0)) \<and>
       svc_GetLatestSignedPdfByChain ord (chainRootID parent) rc w0 = Inr head \<and> d_ID head = k \<and>
       rows (w_meta w1) k = Some d \<and> d_ContentHash d = d_ContentHash head \<and> d_Status d \<noteq> ''deleted'' \<and>
       svc_step sv w1 (SvReplaceContainer ev k (d_ContentHash head) data) w2 \<and> objs (w_blob w2) (d_StorageRef d) = None)"

lemma runs_supersede:
  assumes "svc_reachable (dev_service l lib ttl) NewBlobMemory w0" and "others (dev_service l lib ttl) w w0"
    and "runs (dev_service l lib ttl) w0 (supersedeSignedPdf r ctx caller (chainRootID parent) data) es (Reply st hs (JSignedDocument x)) w'"
  shows "\<exists>w1 w2. others (dev_service l lib ttl) w w1 \<and> others (dev_service l lib ttl) w2 w' \<and>
    rs_contentHash x = CanonicalHash data \<and> reads_as (dev_service l lib ttl) (rs_signedDocumentId x) data w2 \<and>
    signed_pdf_placed (dev_service l lib ttl) (reqCaller r ctx) parent data (rs_signedDocumentId x) w w1 w2"
proof -
  let ?sv = "dev_service l lib ttl" and ?root = "chainRootID parent"
  let ?K = "\<lambda>y. case y of Inl e \<Rightarrow> emits (IngestOutcome (ro_Audit r) caller False) (writeStoreErr e)
      | Inr doc \<Rightarrow> emits (stored_events r caller doc) (UnitCall (CExtendRetention ?root caller) (\<lambda>u. Done (signed_reply doc)))"
  from assms(3) obtain head ord wh where oh: "others ?sv w0 wh" and ord: "visits ord (rows (w_meta wh))"
    and head: "svc_GetLatestSignedPdfByChain ord ?root (reqCaller r ctx) wh = Inr head"
    and run: "runs ?sv wh (DocCall (CReplaceContainer (d_ID head) (d_ContentHash head) data) ?K) es (Reply st hs (JSignedDocument x)) w'"
    by (auto simp: supersedeSignedPdf_def writeStoreErr_def out_ok_def dest!: runs_DocCall runs_emits_Done split: sum.splits)
  have owh: "others ?sv w wh" by (rule others_trans [OF assms(2) oh])
  from others_reachable [OF oh assms(1)] run disjI1 [OF conjI [OF refl refl]] show ?thesis
  proof (cases rule: runs_replace)
    case (refused e w1)
    then show ?thesis by (auto simp: writeStoreErr_def dest!: runs_emits_Done)
  next
    case (replaced doc d w1 ev w2)
    note x = runs_signed_reply [OF replaced(11) [unfolded sum.case]]
    have "signed_pdf_placed ?sv (reqCaller r ctx) parent data (d_ID head) w w1 w2"
      unfolding signed_pdf_placed_def using owh ord head replaced(1-5) conjunct1 [OF replaced(12)]
      by (intro disjI2) blast
    with others_trans [OF owh replaced(1)] replaced(7,8,9) x show ?thesis by auto
  qed
qed

lemma classify_status: "classify lib inp0 = (inp, inner) \<Longrightarrow> in_Kind inp0 \<noteq> [] \<Longrightarrow> in_Status inp = in_Status inp0"
  by (auto simp: classify_def split: option.splits)

lemma runs_signedFormIsPdf:
  "runs sv w (signedFormIsPdf r caller data k) es (Reply st hs b) w' \<Longrightarrow>
     (\<exists>gate. lb_Check (ro_libs r) ''signed'' data MaxInt64 = Inr gate \<and> gt_Kind gate = lb_KindPDF (ro_libs r)) \<and>
     runs sv w k es (Reply st hs b) w'"
  by (auto simp: signedFormIsPdf_def Let_def NewProblem_def dest!: runs_emits_Done split: sum.splits if_splits)

lemma runs_storeSigned:
  assumes "runs sv w (storeSigned r ctx) es (Reply st hs (JSignedDocument x)) w'"
  obtains fh data gate parent w0 root where "rq_File ctx ''signed'' = Some fh" and "fh_Data fh = Some data"
    and "lb_Check (ro_libs r) ''signed'' data MaxInt64 = Inr gate" and "gt_Kind gate = lb_KindPDF (ro_libs r)"
    and "others sv w w0" and "svc_Get (rq_Param ctx ''id'') (reqCaller r ctx) w0 = Inr parent" and "root = chainRootID parent"
    and "runs sv w0 (supersedeSignedPdf r ctx (callerID ctx) root data) es (Reply st hs (JSignedDocument x)) w' \<or>
      d_Kind parent \<noteq> ''pdf'' \<and>
      runs sv w0 (DocCall (CIngest (signed_input r ctx fh data parent root)) (signed_answer r ctx root data))
        es (Reply st hs (JSignedDocument x)) w'"
proof -
  let ?K = "\<lambda>fh data x. case x of Inl e \<Rightarrow> writeStoreErr e
     | Inr parent \<Rightarrow>
         (let chainRoot = (if d_ParentID parent = [] then d_ID parent else d_ParentID parent) in
          if d_Kind parent = ''pdf'' then supersedeSignedPdf r ctx (callerID ctx) chainRoot data
          else DocCall (CIngest (signed_input r ctx fh data parent chainRoot)) (signed_answer r ctx chainRoot data))"
  from assms obtain fh data gate where f: "rq_File ctx ''signed'' = Some fh" "fh_Data fh = Some data"
      "lb_Check (ro_libs r) ''signed'' data MaxInt64 = Inr gate" "gt_Kind gate = lb_KindPDF (ro_libs r)"
    and run: "runs sv w (DocCall (CGet (rq_Param ctx ''id'') (reqCaller r ctx)) (?K fh data)) es (Reply st hs (JSignedDocument x)) w'"
    by (auto simp: storeSigned_def dest!: runs_requireScope runs_readRequiredFile runs_signedFormIsPdf)
  from runs_DocCall [OF run] obtain w0 y where "others sv w w0" "svc_Get (rq_Param ctx ''id'') (reqCaller r ctx) w0 = y"
      "runs sv w0 (?K fh data y) es (Reply st hs (JSignedDocument x)) w'"
    by auto
  then show ?thesis
    using that [OF f] by (auto simp: writeStoreErr_def chainRootID_def Let_def dest!: runs_Done split: sum.splits if_splits)
qed

lemma got_root_ne:
  assumes "svc_reachable (dev_service l lib ttl) NewBlobMemory w" and "svc_Get k c w = Inr d"
  shows "chainRootID d \<noteq> []"
  using assms(2) wf_mem_id [OF dev_wf [OF assms(1)]] wf_mem_key_ne [OF dev_wf [OF assms(1)]]
  by (auto simp: svc_Get_def mem_Get_def chainRootID_def split: option.splits if_splits)

lemma runs_first_signed:
  assumes "svc_reachable (dev_service l lib ttl) NewBlobMemory w0"
    and "svc_Get k rc w0 = Inr parent"
    and "runs (dev_service l lib ttl) w0 (DocCall (CIngest (signed_input r ctx fh data parent (chainRootID parent)))
      (signed_answer r ctx (chainRootID parent) data)) es (Reply st hs (JSignedDocument x)) w'"
  obtains (race) wx where "others (dev_service l lib ttl) w0 wx" and "runs (dev_service l lib ttl) wx
      (supersedeSignedPdf r ctx (callerID ctx) (chainRootID parent) data) es (Reply st hs (JSignedDocument x)) w'"
  | (first) w1 w2 where "others (dev_service l lib ttl) w0 w1" and "others (dev_service l lib ttl) w2 w'"
      and "rs_contentHash x = CanonicalHash data" and "reads_as (dev_service l lib ttl) (rs_signedDocumentId x) data w2"
      and "d_Kind parent \<noteq> ''pdf'' \<longrightarrow>
        signed_pdf_placed (dev_service l lib ttl) (reqCaller r ctx) parent data (rs_signedDocumentId x) w0 w1 w2"
proof -
  let ?sv = "dev_service l lib ttl" and ?inp = "signed_input r ctx fh data parent (chainRootID parent)"
  have inp: "in_Status ?inp = ''signed''" "in_Kind ?inp = ''pdf''" "in_ParentID ?inp = chainRootID parent" "in_Data ?inp = data"
    by (simp_all add: signed_input_def)
  have live: "in_Status ?inp \<noteq> ''expired''" "in_Status ?inp \<noteq> ''deleted''" by (simp_all add: inp)
  have root: "chainRootID parent \<noteq> []" by (rule got_root_ne [OF assms(1,2)])
  from assms(1,3) live show ?thesis
  proof (cases rule: runs_ingest)
    case (refused e w1)
    then have "runs ?sv w1 (supersedeSignedPdf r ctx (callerID ctx) (chainRootID parent) data) es (Reply st hs (JSignedDocument x)) w'"
      by (auto simp: signed_answer_def writeStoreErr_def dest!: runs_emits_Done split: if_splits)
    from race [OF refused(1) this] show ?thesis .
  next
    case (stored doc inp1 inner ev keyRef w1 w2)
    note x = runs_signed_reply [OF stored(9) [unfolded signed_answer_def sum.case]]
    have i: "in_Kind inp1 = ''pdf''" "in_ParentID inp1 = chainRootID parent" "in_Status inp1 = ''signed''"
      using classify_kind [OF stored(3)] classify_status [OF stored(3)] classify_keeps(2) [OF stored(3)] inp by simp_all
    have "\<forall>d \<in> ran (rows (w_meta w1)). \<not> live_pdf_of (chainRootID parent) d"
      using stored(10) root by (auto simp: i signed_kind_def blocks_insert_def live_pdf_of_def)
    moreover have "rows (w_meta w2) (d_ID doc) = Some row \<Longrightarrow> d_Kind row = ''pdf'' \<and> d_Status row = ''signed'' \<and> d_ParentID row = chainRootID parent" for row
      using stored(5) i by (auto simp: ingest_row_def)
    ultimately have "d_Kind parent \<noteq> ''pdf'' \<longrightarrow> signed_pdf_placed ?sv (reqCaller r ctx) parent data (d_ID doc) w0 w1 w2"
      unfolding signed_pdf_placed_def using stored(2,4,5) inp(4) by blast
    with first [OF stored(1), of w2] x stored(7,8) inp(4) show ?thesis by simp
  qed
qed

text \<open>C16: a signed PDF is stored whole, once per chain, and over nothing but the chain's live signed
  PDF.  If storing a signed document is answered, the gate found the bytes to be a PDF and everyone
  who may read the answered row reads exactly those bytes, put there by one call of the service: as the
  chain's first signed PDF, inserted while the chain of the named document has no live PDF, and only
  if that document is not itself a PDF; or over the chain's live signed PDF as this request resolved it,
  compared and replaced in one call while it still held that hash, with the superseded object
  destroyed.  The loser of a concurrent first creation takes the second way: it stores over the winner.\<close>

theorem signed_pdf_stored:
  assumes "svc_reachable (dev_service l lib ttl) NewBlobMemory w"
    and "runs (dev_service l lib ttl) w (serve r (PostSigned ctx)) es (Reply st hs (JSignedDocument x)) w'"
  shows "\<exists>fh data gate parent w0 w1 w2. rq_File ctx ''signed'' = Some fh \<and> fh_Data fh = Some data \<and>
    lb_Check (ro_libs r) ''signed'' data MaxInt64 = Inr gate \<and> gt_Kind gate = lb_KindPDF (ro_libs r) \<and>
    others (dev_service l lib ttl) w w0 \<and> svc_Get (rq_Param ctx ''id'') (reqCaller r ctx) w0 = Inr parent \<and>
    others (dev_service l lib ttl) w0 w1 \<and> others (dev_service l lib ttl) w2 w' \<and>
    rs_contentHash x = CanonicalHash data \<and> reads_as (dev_service l lib ttl) (rs_signedDocumentId x) data w2 \<and>
    signed_pdf_placed (dev_service l lib ttl) (reqCaller r ctx) parent data (rs_signedDocumentId x) w0 w1 w2"
proof -
  let ?sv = "dev_service l lib ttl"
  from assms(2) have run: "runs ?sv w (storeSigned r ctx) es (Reply st hs (JSignedDocument x)) w'" by simp
  obtain fh data gate parent w0 where f: "rq_File ctx ''signed'' = Some fh" "fh_Data fh = Some data"
      "lb_Check (ro_libs r) ''signed'' data MaxInt64 = Inr gate" "gt_Kind gate = lb_KindPDF (ro_libs r)"
      "others ?sv w w0" "svc_Get (rq_Param ctx ''id'') (reqCaller r ctx) w0 = Inr parent"
    and next_call: "runs ?sv w0 (supersedeSignedPdf r ctx (callerID ctx) (chainRootID parent) data) es (Reply st hs (JSignedDocument x)) w' \<or>
      d_Kind parent \<noteq> ''pdf'' \<and>
      runs ?sv w0 (DocCall (CIngest (signed_input r ctx fh data parent (chainRootID parent))) (signed_answer r ctx (chainRootID parent) data))
        es (Reply st hs (JSignedDocument x)) w'"
    by (rule runs_storeSigned [OF run]) metis
  have r0: "svc_reachable ?sv NewBlobMemory w0" by (rule others_reachable [OF f(5) assms(1)])
  have supersede: ?thesis if "others ?sv w0 wx"
      "runs ?sv wx (supersedeSignedPdf r ctx (callerID ctx) (chainRootID parent) data) es (Reply st hs (JSignedDocument x)) w'" for wx
    using runs_supersede [OF others_reachable [OF that(1) r0] that] f by blast
  from next_call show ?thesis
  proof
    assume "runs ?sv w0 (supersedeSignedPdf r ctx (callerID ctx) (chainRootID parent) data) es (Reply st hs (JSignedDocument x)) w'"
    from supersede [OF others_refl this] show ?thesis .
  next
    let ?inp = "signed_input r ctx fh data parent (chainRootID parent)"
    assume call: "d_Kind parent \<noteq> ''pdf'' \<and> runs ?sv w0 (DocCall (CIngest ?inp) (signed_answer r ctx (chainRootID parent) data)) es (Reply st hs (JSignedDocument x)) w'"
    from r0 f(6) call [THEN conjunct2] show ?thesis
    proof (cases rule: runs_first_signed)
      case (race wx)
      from supersede [OF race] show ?thesis .
    next
      case (first w1 w2)
      with f call show ?thesis by blast
    qed
  qed
qed

text \<open>The sample document's owner can store a signed PDF in its chain.\<close>

lemma sample_child:
  assumes "in_Owner inp = ''ana''" and "in_Kind inp = ''pdf''" and "in_ParentID inp = ''01''" and "in_OwnerKind inp = []"
    and "in_Serial inp = []" and "in_TenantID inp = []"
  obtains doc w' where "svc_Ingest (dev_service sample_kms sample_lib 100) sample_env2 inp sample_world = (Inr doc, w')"
    and "rows (w_meta w') = (rows (w_meta sample_world))(''02'' \<mapsto> doc)"
proof -
  let ?sv = "dev_service sample_kms sample_lib 100"
  obtain d where d: "rows (w_meta sample_world) = [''01'' \<mapsto> d]" "d_Kind d = ''container''" "d_ID d = ''01''" "d_ParentID d = []"
      "d_ResultFrozen d = False"
      and acl: "acl (w_meta sample_world) = [\<lparr>g_ChainRoot = ''01'', g_Kind = ''sub'', g_Principal = ''ana'', g_Rights = [''read'', ''cosign'']\<rparr>]"
    by (rule sample_world_row)
  have full: "env_full sample_env2" by (simp add: env_full_def sample_env2_def sample_env_def)
  obtain keyRef sealed where st: "sealAndStore ?sv sample_env2 (in_Data inp) sample_world =
      (Inr (e_objKey sample_env2, keyRef), sample_world\<lparr>w_blob := w_blob sample_world\<lparr>objs := (objs (w_blob sample_world))(e_objKey sample_env2 \<mapsto> sealed)\<rparr>\<rparr>)"
    by (rule dev_seal [OF sample_env2_ok full])
  have cl: "classify (sv_asice ?sv) inp = (inp, [])"
    by (simp add: classify_def Inspect_def dev_service_def New_def sample_lib_def)
  let ?row = "ingest_row ?sv 20 inp [] ''obj2'' keyRef"
  let ?doc = "insert_row ''02'' 21 ?row"
  define m where "m = put_row ?doc (w_meta sample_world)"
  have ins: "mem_Insert [''01''] ''02'' 21 ?row (w_meta sample_world) = (Inr ''02'', m)"
    using assms d by (simp add: mem_Insert_def blocks_insert_def Let_def ingest_row_def m_def)
  have m: "rows m = (rows (w_meta sample_world))(''02'' \<mapsto> ?doc)" "acl m = acl (w_meta sample_world)"
    by (simp_all add: m_def)
  have "mem_Get m ''02'' (readback_caller inp) = Inr ?doc"
    using m d acl assms by (simp add: mem_Get_def allows_def hasRight_def grant_names_def readback_caller_def tenantMatches_def
        chainRootID_def project_freeze_def ingest_row_def insert_row_def)
  with ins cl st have "svc_Ingest ?sv sample_env2 inp sample_world =
      (Inr ?doc, sample_world\<lparr>w_blob := w_blob sample_world\<lparr>objs := (objs (w_blob sample_world))(e_objKey sample_env2 \<mapsto> sealed)\<rparr>, w_meta := m\<rparr>)"
    by (simp add: svc_Ingest_def sample_env2_def)
  then show ?thesis by (rule that) (simp add: m)
qed

lemma signed_pdf_stored_witness:
  "\<exists>es hs x w'. runs (dev_service sample_kms sample_lib 100) sample_world
       (serve sample_router (PostSigned (sample_ctx [''write'']))) es (Reply 201 hs (JSignedDocument x)) w' \<and>
     rs_contentHash x = CanonicalHash [7, 8, 9]"
proof -
  let ?sv = "dev_service sample_kms sample_lib 100" and ?ctx = "sample_ctx [''write'']"
  obtain d where get: "svc_Get ''01'' (sub_caller ''ana'') sample_world = Inr d" and d: "rows (w_meta sample_world) = [''01'' \<mapsto> d]"
      "d_Kind d = ''container''" "d_ID d = ''01''" "d_ParentID d = []"
    by (rule sample_world_row)
  let ?inp = "signed_input sample_router ?ctx sample_file [7, 8, 9] d ''01''"
  obtain doc w' where ing: "svc_Ingest ?sv sample_env2 ?inp sample_world = (Inr doc, w')"
      and row: "rows (w_meta w') = (rows (w_meta sample_world))(''02'' \<mapsto> doc)"
    by (rule sample_child [of ?inp]) (simp_all add: signed_input_def sub_caller_def)
  define out where "out = \<lparr>o_env = sample_env2, o_ord1 = [''01''], o_ord2 = [''01''], o_clk = (\<lambda>_. 0)\<rparr>"
  have out: "out_ok out (w_meta sample_world)" using sample_env2_ok d(1) by (simp add: out_def out_ok_def visits_def)
  have fin: "finite (dom (rows (w_meta w')))" using row d(1) by simp
  obtain out2 where out2: "out_ok out2 (w_meta w')" using out_exists [OF fin] by blast
  obtain y w2 where y: "unit_exec ?sv out2 (CExtendRetention ''01'' ''ana'') w' = (y, w2)" by fastforce
  obtain es x where answer: "runs ?sv w' (signed_answer sample_router ?ctx ''01'' [7, 8, 9] (Inr doc)) es (Reply 201 [] (JSignedDocument x)) w2"
    by (simp add: signed_answer_def signed_reply_def Created_def stored_events_def IngestOutcome_def security_def Uploaded_def domain_event_def)
       (blast intro: runs.emit runs.unit [OF out2 y] runs.finish)
  have "runs ?sv sample_world (DocCall (CIngest ?inp) (signed_answer sample_router ?ctx ''01'' [7, 8, 9])) es (Reply 201 [] (JSignedDocument x)) w2"
    by (rule runs.doc [OF out, where x = "Inr doc" and ?w1.0 = w'])
       (use ing answer in \<open>simp_all add: out_def signed_input_def sample_env2_def\<close>)
  then have "runs ?sv sample_world (serve sample_router (PostSigned ?ctx)) es (Reply 201 [] (JSignedDocument x)) w2"
    using get d
    by (simp add: storeSigned_def requireScope_def readRequiredFile_def sample_file_def sample_config_def signedFormIsPdf_def sample_libs_def Let_def)
       (rule runs.doc [OF out, where x = "Inr d" and ?w1.0 = sample_world], simp_all)
  with signed_pdf_stored [OF reachable_sample_world this] show ?thesis by (auto simp: sample_file_def)
qed

text \<open>C17: archiving refreshes one row in place, in one write.  If storing an archived form is answered, the
  named document is not a plain source, and one call of the service compared and replaced the row
  that was read: immediately before it the row held the hash it was read with, immediately after
  it the row holds the archived bytes and the preservation class, everyone who may read it reads exactly
  those bytes, and the earlier object is destroyed.\<close>

theorem archived_in_place:
  assumes "svc_reachable (dev_service l lib ttl) NewBlobMemory w"
    and "runs (dev_service l lib ttl) w (serve r (PostArchived ctx)) es (Reply st hs (JArchived x)) w'"
  shows "\<exists>fh data head d row w0 w1 ev w2. rq_File ctx ''archived'' = Some fh \<and> fh_Data fh = Some data \<and>
    others (dev_service l lib ttl) w w0 \<and> svc_Get (rq_Param ctx ''id'') (reqCaller r ctx) w0 = Inr head \<and>
    d_Kind head \<noteq> ''source'' \<and> ra_id x = d_ID head \<and>
    others (dev_service l lib ttl) w0 w1 \<and> others (dev_service l lib ttl) w2 w' \<and>
    svc_step (dev_service l lib ttl) w1 (SvReplaceContainerArchived ev (ra_id x) (d_ContentHash head) data) w2 \<and>
    rows (w_meta w1) (ra_id x) = Some d \<and> d_ContentHash d = d_ContentHash head \<and> d_Status d \<noteq> ''deleted'' \<and>
    objs (w_blob w2) (d_StorageRef d) = None \<and>
    rows (w_meta w2) (ra_id x) = Some row \<and> d_PreservationClass row = ''preservation'' \<and> d_ContentHash row = CanonicalHash data \<and>
    ra_contentHash x = CanonicalHash data \<and> reads_as (dev_service l lib ttl) (ra_id x) data w2"
proof -
  let ?sv = "dev_service l lib ttl"
  let ?K = "\<lambda>y. case y of Inl e \<Rightarrow> writeStoreErr e
     | Inr doc \<Rightarrow> Done (OK (JArchived
         \<lparr>ra_id = d_ID doc, ra_contentHash = d_ContentHash doc, ra_mime = d_Mime doc, ra_size = d_Size doc\<rparr>))"
  from assms(2) obtain fh data w0 head where f: "rq_File ctx ''archived'' = Some fh" "fh_Data fh = Some data"
      "others ?sv w w0" "svc_Get (rq_Param ctx ''id'') (reqCaller r ctx) w0 = Inr head" "d_Kind head \<noteq> ''source''"
    and run: "runs ?sv w0 (DocCall (CReplaceContainerArchived (d_ID head) (d_ContentHash head) data) ?K) es (Reply st hs (JArchived x)) w'"
    by (auto simp: storeArchived_def writeStoreErr_def NewProblem_def
        dest!: runs_requireScope runs_readRequiredFile runs_DocCall runs_Done split: sum.splits if_splits)
  from others_reachable [OF f(3) assms(1)] run disjI2 [OF conjI [OF refl refl]] show ?thesis
  proof (cases rule: runs_replace)
    case (refused e w1)
    then show ?thesis by (auto simp: writeStoreErr_def dest!: runs_Done)
  next
    case (replaced doc d w1 ev w2)
    from runs_Done [OF replaced(11) [unfolded sum.case]] have x: "ra_id x = d_ID head" "ra_contentHash x = CanonicalHash data"
        "others ?sv w2 w'"
      using replaced(7,8) by (auto simp: OK_def)
    show ?thesis
      unfolding x(1,2)
      using f replaced(1-6,8,9) x(3) replaced(10) [rule_format, OF refl] conjunct1 [OF replaced(12)] by blast
  qed
qed

lemma archived_in_place_witness:
  "\<exists>es hs x w'. runs (dev_service sample_kms sample_lib 100) sample_world
       (serve sample_router (PostArchived (sample_ctx [''write'']))) es (Reply 200 hs (JArchived x)) w' \<and>
     ra_contentHash x = CanonicalHash [7, 8, 9]"
proof -
  let ?sv = "dev_service sample_kms sample_lib 100" and ?ctx = "sample_ctx [''write'']"
  obtain d where get: "svc_Get ''01'' (sub_caller ''ana'') sample_world = Inr d" and d: "rows (w_meta sample_world) = [''01'' \<mapsto> d]"
      "d_Kind d = ''container''" "d_ID d = ''01''" "d_ContentHash d = CanonicalHash [72, 105]"
    by (rule sample_world_row)
  obtain doc w' where rep: "svc_ReplaceContainerArchived ?sv sample_env2 ''01'' (CanonicalHash [72, 105]) [7, 8, 9] sample_world = (Inr doc, w')"
    by (rule sample_replace [of "''preservation''"]) (simp_all add: svc_ReplaceContainerArchived_def)
  define out where "out = \<lparr>o_env = sample_env2, o_ord1 = [''01''], o_ord2 = [''01''], o_clk = (\<lambda>_. 0)\<rparr>"
  have out: "out_ok out (w_meta sample_world)" using sample_env2_ok d(1) by (simp add: out_def out_ok_def visits_def)
  define x where "x = \<lparr>ra_id = d_ID doc, ra_contentHash = d_ContentHash doc, ra_mime = d_Mime doc, ra_size = d_Size doc\<rparr>"
  have "runs ?sv sample_world (DocCall (CReplaceContainerArchived ''01'' (CanonicalHash [72, 105]) [7, 8, 9])
      (\<lambda>y. case y of Inl e \<Rightarrow> writeStoreErr e
       | Inr doc \<Rightarrow> Done (OK (JArchived
           \<lparr>ra_id = d_ID doc, ra_contentHash = d_ContentHash doc, ra_mime = d_Mime doc, ra_size = d_Size doc\<rparr>)))) [] (Reply 200 [] (JArchived x)) w'"
    by (rule runs.doc [OF out, where x = "Inr doc" and ?w1.0 = w'])
       (use rep in \<open>simp_all add: out_def OK_def x_def runs.finish\<close>)
  then have "runs ?sv sample_world (serve sample_router (PostArchived ?ctx)) [] (Reply 200 [] (JArchived x)) w'"
    using get d
    by (simp add: storeArchived_def requireScope_def readRequiredFile_def sample_file_def sample_config_def)
       (rule runs.doc [OF out, where x = "Inr d" and ?w1.0 = sample_world], simp_all)
  with archived_in_place [OF reachable_sample_world this] show ?thesis by (auto simp: sample_file_def)
qed

end
