(* ===== verification/CallerProps.thy ===== *)
theory CallerProps
  imports SigningProps
begin

text \<open>
  What a request does, it does for its own caller.  The calls of every handler are followed along its data
  flow, whatever the service answers: which route may make them, with which scope, under which identity
  and on which documents.
\<close>

section \<open>The calls a request may make\<close>

fun request_ctx :: "request \<Rightarrow> http_ctx option" where
  "request_ctx GetHealthz = None"
| "request_ctx GetReadyz = None"
| "request_ctx (PostDocuments ctx) = Some ctx"
| "request_ctx (GetDocuments ctx) = Some ctx"
| "request_ctx (GetDocument ctx) = Some ctx"
| "request_ctx (GetDocumentContent ctx) = Some ctx"
| "request_ctx (GetDocumentDigest ctx) = Some ctx"
| "request_ctx (GetDocumentDataObjects ctx) = Some ctx"
| "request_ctx (GetDocumentHead ctx) = Some ctx"
| "request_ctx (GetDocumentChain ctx) = Some ctx"
| "request_ctx (DeleteDocument ctx) = Some ctx"
| "request_ctx (PostDocumentACL body ctx) = Some ctx"
| "request_ctx (PostResultFreeze body ctx) = Some ctx"
| "request_ctx (GetDocumentRetention ctx) = Some ctx"
| "request_ctx (PostComplete ctx) = Some ctx"
| "request_ctx (PostAssemble ctx) = Some ctx"
| "request_ctx (PostAddSignature ctx) = Some ctx"
| "request_ctx (PostBundle body ctx) = Some ctx"
| "request_ctx (PostRebundle body ctx) = Some ctx"
| "request_ctx (GetDataObject ctx) = Some ctx"
| "request_ctx (PostSigned ctx) = Some ctx"
| "request_ctx (PostArchived ctx) = Some ctx"
| "request_ctx (GetHistory ctx) = Some ctx"
| "request_ctx (DeleteHistory ctx) = Some ctx"

abbreviation scoped :: "http_ctx \<Rightarrow> string \<Rightarrow> bool" where
  "scoped ctx level \<equiv> us_HasScopeLevel (rq_User ctx) ''documents'' level"

text \<open>A document a request may store: an upload for the owner its token names; a container or a signed PDF
  for the caller, under the document the service returned for the one that was named, and of its
  preservation class; or an assembled container, a chain of its own.\<close>

definition may_store :: "router \<Rightarrow> request \<Rightarrow> http_ctx \<Rightarrow> document list \<Rightarrow> ingest_input \<Rightarrow> bool" where
  "may_store r req ctx seen inp \<longleftrightarrow> scoped ctx ''write'' \<and>
     (req = PostDocuments ctx \<and> in_ParentID inp = [] \<and>
        owner_of_token r ctx (in_OwnerKind inp) (in_Owner inp) (in_TenantID inp) (in_RetentionUntil inp) \<or>
      in_Owner inp = callerID ctx \<and> in_OwnerKind inp = [] \<and> in_TenantID inp = [] \<and> in_RetentionUntil inp = None \<and>
        in_Serial inp = cl_Serial (reqCaller r ctx) \<and> in_Status inp = ''signed'' \<and>
        (req = PostAssemble ctx \<and> in_Kind inp = ''container'' \<and> in_ParentID inp = [] \<or>
         (\<exists>d \<in> set seen. in_PreservationClass inp = d_PreservationClass d \<and>
            (req = PostComplete ctx \<and> in_Kind inp = ''container'' \<and> in_ParentID inp = rq_Param ctx ''id'' \<and>
               d_ID d = rq_Param ctx ''id'' \<and> d_Kind d \<noteq> ''container'' \<or>
             req = PostSigned ctx \<and> in_Kind inp = ''pdf'' \<and> in_ParentID inp = chainRootID d \<and>
               d_ID d = rq_Param ctx ''id'' \<and> d_Kind d \<noteq> ''pdf''))))"

text \<open>The document calls of a request, \<open>seen\<close> being the documents the service has returned to it so far.\<close>

primrec may_call :: "router \<Rightarrow> request \<Rightarrow> http_ctx \<Rightarrow> document list \<Rightarrow> doc_call \<Rightarrow> bool" where
  "may_call r req ctx seen (CIngest inp) \<longleftrightarrow> may_store r req ctx seen inp"
| "may_call r req ctx seen (CBundle owner tenant ids filename) \<longleftrightarrow> scoped ctx ''write'' \<and>
     (\<exists>br. req = PostBundle (Inr br) ctx \<and> owner = callerID ctx \<and> tenant = [] \<and> ids = br_SourceIDs br \<and> filename = br_Filename br)"
| "may_call r req ctx seen (CRebundle owner k entries) \<longleftrightarrow> scoped ctx ''write'' \<and>
     req = PostRebundle (Inr entries) ctx \<and> owner = callerID ctx \<and> k = rq_Param ctx ''id''"
| "may_call r req ctx seen (CReplaceContainer k h data) \<longleftrightarrow> scoped ctx ''write'' \<and>
     (req = PostComplete ctx \<or> req = PostAddSignature ctx \<or> req = PostSigned ctx) \<and>
     (\<exists>d \<in> set seen. k = d_ID d \<and> h = d_ContentHash d)"
| "may_call r req ctx seen (CReplaceContainerArchived k h data) \<longleftrightarrow> scoped ctx ''write'' \<and> req = PostArchived ctx \<and>
     (\<exists>d \<in> set seen. k = d_ID d \<and> h = d_ContentHash d \<and> d_Kind d \<noteq> ''source'')"
| "may_call r req ctx seen (CGet k c) \<longleftrightarrow> (scoped ctx ''read'' \<or> scoped ctx ''write'') \<and>
     c = reqCaller r ctx \<and> k = rq_Param ctx ''id''"
| "may_call r req ctx seen (CGetContainerByParent k c) \<longleftrightarrow> (scoped ctx ''read'' \<or> scoped ctx ''write'') \<and>
     c = reqCaller r ctx \<and> k = rq_Param ctx ''id''"
| "may_call r req ctx seen (CGetLatestSignedPdfByChain k c) \<longleftrightarrow> (scoped ctx ''read'' \<or> scoped ctx ''write'') \<and>
     c = reqCaller r ctx \<and> (k = rq_Param ctx ''id'' \<or> (\<exists>d \<in> set seen. k = chainRootID d))"
| "may_call r req ctx seen (CDelete k c) \<longleftrightarrow> scoped ctx ''write'' \<and>
     req = DeleteDocument ctx \<and> c = reqCaller r ctx \<and> k = rq_Param ctx ''id''"

primrec may_do :: "request \<Rightarrow> http_ctx \<Rightarrow> document list \<Rightarrow> unit_call \<Rightarrow> bool" where
  "may_do req ctx seen (CGrant inp) \<longleftrightarrow> scoped ctx ''grant'' \<and>
     (\<exists>ga. req = PostDocumentACL (Inr ga) ctx) \<and> gi_DocID inp = rq_Param ctx ''id'' \<and> gi_GrantedBy inp = callerID ctx"
| "may_do req ctx seen (CExtendRetention k owner) \<longleftrightarrow> scoped ctx ''write'' \<and>
     (req = PostAddSignature ctx \<or> req = PostSigned ctx) \<and> owner = callerID ctx \<and> (\<exists>d \<in> set seen. k = chainRootID d)"
| "may_do req ctx seen (CSetResultFreeze k frozen) \<longleftrightarrow> scoped ctx ''grant'' \<and>
     req = PostResultFreeze (Inr frozen) ctx \<and> k = rq_Param ctx ''id''"
| "may_do req ctx seen (CDeleteHistoryChain owner root) \<longleftrightarrow> scoped ctx ''write'' \<and>
     req = DeleteHistory ctx \<and> owner = callerID ctx \<and> root = rq_Param ctx ''chainRoot''"

text \<open>A row answered for an identifier has that identifier.\<close>

primrec answers_call :: "doc_call \<Rightarrow> document \<Rightarrow> bool" where
  "answers_call (CIngest inp) d \<longleftrightarrow> True"
| "answers_call (CBundle owner tenant ids filename) d \<longleftrightarrow> True"
| "answers_call (CRebundle owner k entries) d \<longleftrightarrow> True"
| "answers_call (CReplaceContainer k h data) d \<longleftrightarrow> True"
| "answers_call (CReplaceContainerArchived k h data) d \<longleftrightarrow> True"
| "answers_call (CGet k c) d \<longleftrightarrow> d_ID d = k"
| "answers_call (CGetContainerByParent k c) d \<longleftrightarrow> True"
| "answers_call (CGetLatestSignedPdfByChain k c) d \<longleftrightarrow> True"
| "answers_call (CDelete k c) d \<longleftrightarrow> True"

text \<open>Every call of the program is one its request may make, whatever the earlier ones answered.\<close>

primrec acts :: "router \<Rightarrow> request \<Rightarrow> http_ctx \<Rightarrow> prog \<Rightarrow> document list \<Rightarrow> bool" where
  "acts r req ctx (Done rep) seen \<longleftrightarrow> True"
| "acts r req ctx (Emit e p) seen \<longleftrightarrow> acts r req ctx p seen"
| "acts r req ctx (DocCall c k) seen \<longleftrightarrow> may_call r req ctx seen c \<and>
     (\<forall>e. acts r req ctx (k (Inl e)) seen) \<and> (\<forall>d. answers_call c d \<longrightarrow> acts r req ctx (k (Inr d)) (d # seen))"
| "acts r req ctx (UnitCall c k) seen \<longleftrightarrow> may_do req ctx seen c \<and> (\<forall>x. acts r req ctx (k x) seen)"
| "acts r req ctx (ContentCall i c k) seen \<longleftrightarrow> (scoped ctx ''read'' \<or> scoped ctx ''write'') \<and>
     c = reqCaller r ctx \<and> (i = rq_Param ctx ''id'' \<or> (\<exists>d \<in> set seen. i = d_ID d)) \<and>
     (\<forall>e. acts r req ctx (k (Inl e)) seen) \<and>
     (\<forall>d data. d_ID d = i \<longrightarrow> acts r req ctx (k (Inr (d, data))) (d # seen))"
| "acts r req ctx (ListCall c limit after k) seen \<longleftrightarrow> scoped ctx ''read'' \<and> req = GetDocuments ctx \<and>
     c = reqCaller r ctx \<and> (\<forall>x. acts r req ctx (k x) seen)"
| "acts r req ctx (ListChainsCall c limit after incl k) seen \<longleftrightarrow> scoped ctx ''read'' \<and> req = GetDocuments ctx \<and>
     c = reqCaller r ctx \<and> (\<forall>x. acts r req ctx (k x) seen)"
| "acts r req ctx (GetChainCall c i k) seen \<longleftrightarrow> scoped ctx ''read'' \<and> req = GetDocumentChain ctx \<and>
     c = reqCaller r ctx \<and> i = rq_Param ctx ''id'' \<and> (\<forall>x. acts r req ctx (k x) seen)"
| "acts r req ctx (ListHistoryCall owner limit after k) seen \<longleftrightarrow> scoped ctx ''read'' \<and> req = GetHistory ctx \<and>
     owner = callerID ctx \<and> (\<forall>x. acts r req ctx (k x) seen)"
| "acts r req ctx (ChainRetentionCall i k) seen \<longleftrightarrow> scoped ctx ''grant'' \<and> req = GetDocumentRetention ctx \<and>
     i = rq_Param ctx ''id'' \<and> (\<forall>x. acts r req ctx (k x) seen)"
| "acts r req ctx (ScanCall ep data k) seen \<longleftrightarrow> req = PostDocuments ctx \<and> ep = cf_ClamAVEndpoint (ro_Config r) \<and>
     (\<exists>fh. rq_File ctx ''file'' = Some fh \<and> fh_Data fh = Some data) \<and> (\<forall>x. acts r req ctx (k x) seen)"
| "acts r req ctx (PingCall tg k) seen \<longleftrightarrow> False"
| "acts r req ctx (NowCall k) seen \<longleftrightarrow> (\<forall>x. acts r req ctx (k x) seen)"

text \<open>A program that asks nothing but whether its stores are up.\<close>

primrec only_pings :: "prog \<Rightarrow> bool" where
  "only_pings (Done rep) \<longleftrightarrow> True"
| "only_pings (Emit e p) \<longleftrightarrow> False"
| "only_pings (DocCall c k) \<longleftrightarrow> False"
| "only_pings (UnitCall c k) \<longleftrightarrow> False"
| "only_pings (ContentCall i c k) \<longleftrightarrow> False"
| "only_pings (ListCall c limit after k) \<longleftrightarrow> False"
| "only_pings (ListChainsCall c limit after incl k) \<longleftrightarrow> False"
| "only_pings (GetChainCall c i k) \<longleftrightarrow> False"
| "only_pings (ListHistoryCall owner limit after k) \<longleftrightarrow> False"
| "only_pings (ChainRetentionCall i k) \<longleftrightarrow> False"
| "only_pings (ScanCall ep data k) \<longleftrightarrow> False"
| "only_pings (PingCall tg k) \<longleftrightarrow> (\<forall>x. only_pings (k x))"
| "only_pings (NowCall k) \<longleftrightarrow> False"

section \<open>Following the handlers\<close>

lemma acts_emits [simp]: "acts r req ctx (emits es p) seen = acts r req ctx p seen"
  by (induction es) simp_all

lemma acts_requireScope:
  "(scoped ctx level \<Longrightarrow> acts r req ctx k seen) \<Longrightarrow> acts r req ctx (requireScope r ctx level k) seen"
  by (simp add: requireScope_def)

lemma acts_readRequiredFile:
  "(\<And>fh data. rq_File ctx field = Some fh \<Longrightarrow> fh_Data fh = Some data \<Longrightarrow> acts r req ctx (k fh data) seen) \<Longrightarrow>
     acts r req ctx (readRequiredFile r ctx field k) seen"
  by (simp add: readRequiredFile_def reply_defs split: option.split)

lemma acts_readFiles:
  "(\<And>files. acts r req ctx (k files) seen) \<Longrightarrow> acts r req ctx (readFiles r ctx field fhs k) seen"
  by (induction fhs arbitrary: k) (simp_all add: reply_defs split: option.split)

lemma acts_resolveRetention:
  assumes "\<And>kind owner tenant until. owner_of_token r ctx kind owner tenant until \<Longrightarrow>
      acts r req ctx (k kind owner tenant until) seen"
  shows "acts r req ctx (resolveRetention r ctx (formField ctx ''retention_class'') k) seen"
  using assms
  by (auto simp: resolveRetention_def reply_defs owner_of_token_def intro!: acts_requireScope split: option.split prod.split)

lemma acts_signedFormIsPdf: "acts r req ctx k seen \<Longrightarrow> acts r req ctx (signedFormIsPdf r caller data k) seen"
  by (auto simp: signedFormIsPdf_def Let_def split: sum.split)

lemma acts_scan_upload:
  assumes "req = PostDocuments ctx" and "\<exists>fh. rq_File ctx ''file'' = Some fh \<and> fh_Data fh = Some data"
    and "acts r req ctx k seen"
  shows "acts r req ctx (scan_upload r ctx data k) seen"
  using assms by (auto simp: scan_upload_def Let_def split: sum.split)

lemmas acts_intros =
  acts_requireScope acts_readRequiredFile acts_readFiles acts_resolveRetention acts_signedFormIsPdf

lemma acts_supersede:
  assumes "scoped ctx ''write''" and "req = PostSigned ctx" and "d \<in> set seen" and "root = chainRootID d"
  shows "acts r req ctx (supersedeSignedPdf r ctx (callerID ctx) root data) seen"
  using assms by (auto simp: supersedeSignedPdf_def reply_defs)

lemma acts_coSignInto:
  assumes "scoped ctx ''write''" and "req = PostComplete ctx" and "contDoc \<in> set seen"
  shows "acts r req ctx (coSignInto r caller contDoc contBytes fileless) seen"
  using assms by (auto simp: coSignInto_def reply_defs split: sum.split)

text \<open>C3: a request acts for its own caller only, and only within its route.  Whatever the service answers,
  every document is read under the identity of the request's token, and only the one named in the
  path or one that such a read has led to; a document is stored, bundled, replaced, deleted, shared or
  frozen only by the routes for it and only with their scope; what is stored belongs to the
  caller (or, durably, to the product its token names) and hangs below the named document as it was
  read; a document is replaced only against the hash it was read with, and archived only if it is no
  plain source; and the health routes touch nothing at all.\<close>

theorem requests_act_for_caller:
  "case request_ctx req of
     None \<Rightarrow> only_pings (serve r req)
   | Some ctx \<Rightarrow> acts r req ctx (serve r req) []"
proof (cases req)
  case (PostDocuments ctx)
  then show ?thesis
    by (auto simp: ingest_def upload_answer_def reply_defs Let_def upload_input_def may_store_def
        intro!: acts_intros acts_scan_upload split: sum.split)
next
  case (PostComplete ctx)
  then show ?thesis
    by (auto simp: complete_def complete_answer_def container_input_def may_store_def reply_defs Let_def
        intro!: acts_intros acts_coSignInto split: sum.split prod.split)
next
  case (PostSigned ctx)
  then show ?thesis
    by (auto simp: storeSigned_def signed_answer_def signed_input_def may_store_def chainRootID_def reply_defs Let_def
        intro!: acts_intros acts_supersede split: sum.split)
qed (auto simp: handler_defs storeContainer_def container_input_def may_store_def chainRootID_def reply_defs Let_def
    intro!: acts_intros split: sum.split prod.split option.split)

end
