(* ===== verification/ServiceStore.thy ===== *)
theory ServiceStore
  imports ServiceMachine StoreSafety
begin

text \<open>
  The service refines the metadata store's machine: whatever a service call does to the metadata is
  nothing, or exactly one store operation with arguments the store admits.  So every invariant of
  the store machine holds in every world the service reaches, over any blob store and any KMS.
\<close>

section \<open>The store operation of a service call\<close>

text \<open>\<open>stores sv op sop\<close>: \<open>sop\<close> is an operation the call \<open>op\<close> can end in.\<close>

primrec stores :: "'b service \<Rightarrow> svc_op \<Rightarrow> store_op \<Rightarrow> bool" where
  "stores sv (SvIngest ev inp) sop \<longleftrightarrow>
     (\<exists>inp' inner objKey keyRef. classify (sv_asice sv) inp = (inp', inner) \<and>
        sop = OpInsert (e_ord ev) (e_id ev) (e_storeNow ev) (ingest_row sv (e_now ev) inp' inner objKey keyRef))"
| "stores sv (SvBundle ev owner tenant ids filename) sop \<longleftrightarrow>
     (\<exists>inp. bi_Owner inp = owner \<and> bi_PreservationClass inp = [] \<and> bi_Size inp \<ge> 0 \<and>
        sop = OpBundle (e_id ev) (e_storeNow ev) inp)"
| "stores sv (SvRebundle ev owner k entries) sop \<longleftrightarrow>
     (\<exists>inp. rb_Owner inp = owner \<and> rb_ID inp = k \<and> rb_Size inp \<ge> 0 \<and> sop = OpRebundle (e_storeNow ev) inp)"
| "stores sv (SvReplaceContainer ev k h data) sop \<longleftrightarrow>
     (\<exists>inp. ri_ID inp = k \<and> ri_ExpectedHash inp = h \<and> ri_PreservationClass inp = [] \<and> ri_Size inp \<ge> 0 \<and>
        sop = OpReplace (e_storeNow ev) inp)"
| "stores sv (SvReplaceContainerArchived ev k h data) sop \<longleftrightarrow>
     (\<exists>inp. ri_ID inp = k \<and> ri_ExpectedHash inp = h \<and> ri_PreservationClass inp = ''preservation'' \<and> ri_Size inp \<ge> 0 \<and>
        sop = OpReplace (e_storeNow ev) inp)"
| "stores sv (SvDelete ord1 ord2 clk k c) sop \<longleftrightarrow> sop = OpRemoveAccess ord1 ord2 clk k c"
| "stores sv (SvSweep ord clk now limit) sop \<longleftrightarrow> sop = OpSweepRetention ord clk now limit"
| "stores sv (SvGrant inp) sop \<longleftrightarrow> sop = OpGrant inp"
| "stores sv (SvSweepHistory ord1 ord2 before limit) sop \<longleftrightarrow> sop = OpSweepHistory ord1 ord2 before limit"
| "stores sv (SvDeleteHistoryChain ord1 ord2 owner root) sop \<longleftrightarrow> sop = OpDeleteHistory ord1 ord2 owner root"
| "stores sv (SvExtendRetention now storeNow k owner) sop \<longleftrightarrow> sop = OpExtendRetention storeNow k owner (now + sv_ttl sv)"
| "stores sv (SvSetResultFreeze now k frozen) sop \<longleftrightarrow> sop = OpSetResultFreeze now k frozen"

lemma sealAndStore_meta: "sealAndStore sv ev data w = (r, w1) \<Longrightarrow> w_meta w1 = w_meta w"
  by (auto simp: sealAndStore_def split: sum.splits prod.splits)

text \<open>The metadata after a call: as before, or as after its store operation.\<close>

definition meta_by :: "'b service \<Rightarrow> svc_op \<Rightarrow> 'b world \<Rightarrow> bool" where
  "meta_by sv op w \<longleftrightarrow>
     w_meta (svc_exec sv op w) = w_meta w \<or>
     (\<exists>sop. stores sv op sop \<and> w_meta (svc_exec sv op w) = store_exec sop (w_meta w))"

lemma meta_Ingest: "meta_by sv (SvIngest ev inp0) w"
proof -
  obtain inp inner where cl: "classify (sv_asice sv) inp0 = (inp, inner)" by fastforce
  obtain r w1 where st: "sealAndStore sv ev (in_Data inp) w = (r, w1)" by fastforce
  note meta = sealAndStore_meta [OF st]
  show ?thesis
  proof (cases r)
    case (Inr x)
    obtain objKey keyRef where x: "x = (objKey, keyRef)" by fastforce
    let ?sop = "OpInsert (e_ord ev) (e_id ev) (e_storeNow ev) (ingest_row sv (e_now ev) inp inner objKey keyRef)"
    have "stores sv (SvIngest ev inp0) ?sop" using cl by auto
    moreover have "w_meta (svc_exec sv (SvIngest ev inp0) w) = store_exec ?sop (w_meta w)"
      using cl st Inr x meta by (simp add: svc_Ingest_def split: prod.split sum.split)
    ultimately show ?thesis unfolding meta_by_def by blast
  qed (use cl st meta in \<open>simp add: meta_by_def svc_Ingest_def\<close>)
qed

lemma meta_replace:
  assumes m': "m' = w_meta (snd (svc_replaceContainer sv ev k h data pc w))"
  shows "m' = w_meta w \<or>
    (\<exists>inp. ri_ID inp = k \<and> ri_ExpectedHash inp = h \<and> ri_PreservationClass inp = pc \<and> ri_Size inp \<ge> 0 \<and>
       m' = store_exec (OpReplace (e_storeNow ev) inp) (w_meta w))"
proof -
  obtain r w1 where st: "sealAndStore sv ev data w = (r, w1)" by fastforce
  note meta = sealAndStore_meta [OF st]
  show ?thesis
  proof (cases r)
    case (Inr x)
    obtain objKey keyRef where x: "x = (objKey, keyRef)" by fastforce
    let ?inp = "\<lparr>ri_ID = k, ri_ExpectedHash = h, ri_StorageRef = objKey, ri_ContentHash = CanonicalHash data,
       ri_Size = int (length data), ri_EncryptionKeyRef = keyRef, ri_PreservationClass = pc\<rparr>"
    have "m' = store_exec (OpReplace (e_storeNow ev) ?inp) (w_meta w)"
      using st Inr x meta by (simp add: m' svc_replaceContainer_def split: prod.split sum.split)
    then show ?thesis by (intro disjI2 exI [of _ ?inp]) simp
  qed (use st meta in \<open>simp add: m' svc_replaceContainer_def\<close>)
qed

lemma meta_Replace:
  "meta_by sv (SvReplaceContainer ev k h data) w" "meta_by sv (SvReplaceContainerArchived ev k h data) w"
  using meta_replace [OF refl, of sv ev k h data "[]" w] meta_replace [OF refl, of sv ev k h data "''preservation''" w]
  by (auto simp: meta_by_def svc_ReplaceContainer_def svc_ReplaceContainerArchived_def)

lemma meta_Bundle: "meta_by sv (SvBundle ev owner tenant ids filename) w"
proof (cases "w_meta (snd (svc_Bundle sv ev owner tenant ids filename w)) = w_meta w")
  case False
  then obtain files bd objKey keyRef w1 where
    ok: "\<not> length ids < 1" "bundle_files sv owner w [] 0 ids = Inr files" "BuildUnsigned (sv_asice sv) files = Inr bd"
      "sealAndStore sv ev bd w = (Inr (objKey, keyRef), w1)"
    by (auto simp: svc_Bundle_def Let_def dest: sealAndStore_meta split: if_splits sum.splits prod.splits)
  let ?inp = "\<lparr>bi_Owner = owner, bi_TenantID = tenant, bi_SourceIDs = ids,
     bi_Filename = (if filename = [] then bundleFilename (pf_Name (hd files)) else filename), bi_StorageRef = objKey,
     bi_ContentHash = CanonicalHash bd, bi_Mime = as_MimeType (sv_asice sv), bi_Size = int (length bd),
     bi_EncryptionKeyRef = keyRef, bi_PreservationClass = [], bi_RetentionUntil = e_now ev + sv_ttl sv,
     bi_InnerFiles = manifestFiles (sv_asice sv) bd\<rparr>"
  have "w_meta (snd (svc_Bundle sv ev owner tenant ids filename w)) = store_exec (OpBundle (e_id ev) (e_storeNow ev) ?inp) (w_meta w)"
    using ok sealAndStore_meta [OF ok(4)] by (simp add: svc_Bundle_def Let_def split: prod.split sum.split)
  moreover have "stores sv (SvBundle ev owner tenant ids filename) (OpBundle (e_id ev) (e_storeNow ev) ?inp)"
    by simp
  ultimately show ?thesis unfolding meta_by_def svc_exec.simps by blast
qed (simp add: meta_by_def)

lemma meta_Rebundle: "meta_by sv (SvRebundle ev owner k entries) w"
proof (cases "w_meta (snd (svc_Rebundle sv ev owner k entries w)) = w_meta w")
  case False
  then obtain cur curBytes existing files absorb bd objKey keyRef w1 where
    ok: "\<not> length entries < 1" "svc_Content sv k (sub_caller owner) w = Inr (cur, curBytes)"
      "\<not> (d_Owner cur \<noteq> owner \<or> d_Kind cur \<noteq> ''container'' \<or> d_Status cur \<noteq> ''received'')"
      "DataObjects (sv_asice sv) curBytes = Inr existing"
      "rebundle_files sv owner (by_name existing) w [] 0 entries = Inr (files, absorb)"
      "BuildUnsigned (sv_asice sv) files = Inr bd" "sealAndStore sv ev bd w = (Inr (objKey, keyRef), w1)"
    by (auto simp: svc_Rebundle_def dest: sealAndStore_meta split: if_splits sum.splits prod.splits)
  let ?inp = "\<lparr>rb_Owner = owner, rb_ID = k, rb_ExpectedHash = d_ContentHash cur, rb_StorageRef = objKey,
     rb_ContentHash = CanonicalHash bd, rb_Size = int (length bd), rb_EncryptionKeyRef = keyRef,
     rb_InnerFiles = manifestFiles (sv_asice sv) bd, rb_AbsorbSourceIDs = absorb\<rparr>"
  have "w_meta (snd (svc_Rebundle sv ev owner k entries w)) = store_exec (OpRebundle (e_storeNow ev) ?inp) (w_meta w)"
    using ok sealAndStore_meta [OF ok(7)] by (simp add: svc_Rebundle_def split: prod.split sum.split)
  moreover have "stores sv (SvRebundle ev owner k entries) (OpRebundle (e_storeNow ev) ?inp)"
    by simp
  ultimately show ?thesis unfolding meta_by_def svc_exec.simps by blast
qed (simp add: meta_by_def)

lemma meta_Delete: "meta_by sv (SvDelete ord1 ord2 clk k c) w"
  by (auto simp: meta_by_def svc_Delete_def split: sum.split prod.split)

lemma meta_Sweep: "meta_by sv (SvSweep ord clk now limit) w"
  by (auto simp: meta_by_def svc_Sweep_def split: sum.split prod.split)

lemma svc_meta: "meta_by sv op w"
  by (cases op; simp add: meta_Ingest meta_Replace meta_Bundle meta_Rebundle meta_Delete meta_Sweep)
     (simp_all add: meta_by_def on_meta_def svc_Grant_def svc_SweepHistory_def svc_DeleteHistoryChain_def
        svc_ExtendRetention_def svc_SetResultFreeze_def split: prod.split)

section \<open>Refinement\<close>

lemma stores_ok: "stores sv op sop \<Longrightarrow> svc_ok op m \<Longrightarrow> op_ok sop m \<and> \<not> revives sop m"
  by (cases op; auto simp: env_ok_def revives_def ingest_row_def classify_def split: option.splits if_splits)

lemma svc_step_store:
  assumes "svc_step sv w op w'"
  shows "w_meta w' = w_meta w \<or> (\<exists>sop. stores sv op sop \<and> store_step (w_meta w) sop (w_meta w'))"
  using assms
proof cases
  case call
  then show ?thesis using svc_meta [of sv op w] stores_ok [of sv op _ "w_meta w"]
    by (auto simp: meta_by_def store_step_iff)
qed

lemma reachable_store: "svc_reachable sv b0 w \<Longrightarrow> store_reachable (w_meta w)"
proof (induction rule: svc_reachable.induct)
  case start
  show ?case by (simp add: store_reachable.start)
next
  case (step w op w')
  then show ?case using svc_step_store [of sv w op w'] by (auto intro: store_reachable.step)
qed

end
