(* ===== verification/WellTyped.thy ===== *)
theory WellTyped
  imports ServiceStore
begin

text \<open>
  The types the rows and access entries have although the code holds them in strings: which kinds,
  states and classes occur, which combinations do, and that every operation with arguments of
  these types keeps them.
\<close>

section \<open>Types\<close>

definition presv_class :: "string \<Rightarrow> bool" where
  "presv_class c \<longleftrightarrow> c \<in> set [''none'', ''b_lt'', ''preservation'']"

text \<open>Only a product's document is durable, only a durable row may have no date, only a row that is no
  plain source is signed.\<close>

definition typed_row :: "document \<Rightarrow> bool" where
  "typed_row d \<longleftrightarrow>
     d_Kind d \<in> set [''source'', ''container'', ''pdf''] \<and>
     d_Status d \<in> set [''received'', ''signed'', ''expired'', ''deleted''] \<and>
     (d_Kind d = ''source'' \<longrightarrow> d_Status d \<noteq> ''signed'' \<and> d_SignedAt d = None) \<and>
     presv_class (d_PreservationClass d) \<and>
     d_RetentionClass d \<in> set [[], RetentionTTL, RetentionDurable] \<and>
     (d_RetentionUntil d = None \<longrightarrow> d_RetentionClass d = RetentionDurable) \<and>
     (d_RetentionClass d = RetentionDurable \<longrightarrow> has_prefix (d_Owner d) ''product:'') \<and>
     d_Size d \<ge> 0"

text \<open>A product may read, never co-sign; a serial is in its normal spelling.\<close>

definition typed_grant :: "acl_grant \<Rightarrow> bool" where
  "typed_grant g \<longleftrightarrow>
     g_Kind g \<in> set [PrincipalSub, PrincipalSerial, PrincipalProduct] \<and>
     set (g_Rights g) \<subseteq> {''read'', ''cosign''} \<and>
     (g_Kind g = PrincipalProduct \<longrightarrow> g_Rights g = [''read''] \<and> has_prefix (g_Principal g) ''product:'') \<and>
     (g_Kind g = PrincipalSerial \<longrightarrow> NormalizeSerial (g_Principal g) = g_Principal g)"

definition typed_mem :: "memory \<Rightarrow> bool" where
  "typed_mem m \<longleftrightarrow> (\<forall>k d. rows m k = Some d \<longrightarrow> typed_row d) \<and> (\<forall>g \<in> set (acl m). typed_grant g)"

definition typed_insert :: "insert_input \<Rightarrow> bool" where
  "typed_insert inp \<longleftrightarrow>
     ii_Kind inp \<in> set [[], ''source'', ''container'', ''pdf''] \<and>
     ii_Status inp \<in> set [[], ''received'', ''signed''] \<and>
     (ii_Kind inp \<in> set [[], ''source''] \<longrightarrow> ii_Status inp \<noteq> ''signed'') \<and>
     (ii_PreservationClass inp = [] \<or> presv_class (ii_PreservationClass inp)) \<and>
     ii_RetentionClass inp \<in> set [[], RetentionTTL, RetentionDurable] \<and>
     (ii_RetentionUntil inp = None \<longrightarrow> ii_RetentionClass inp = RetentionDurable) \<and>
     ii_OwnerKind inp \<in> set [[], PrincipalSub, PrincipalProduct] \<and>
     (ii_RetentionClass inp = RetentionDurable \<longrightarrow> ii_OwnerKind inp = PrincipalProduct) \<and>
     (ii_OwnerKind inp = PrincipalProduct \<longrightarrow> has_prefix (ii_Owner inp) ''product:'') \<and>
     ii_Size inp \<ge> 0"

definition typed_grant_input :: "grant_input \<Rightarrow> bool" where
  "typed_grant_input inp \<longleftrightarrow> gi_PrincipalKind inp = PrincipalSerial \<and> set (gi_Rights inp) \<subseteq> {''read'', ''cosign''}"

primrec op_typed :: "store_op \<Rightarrow> bool" where
  "op_typed (OpInsert ord k now inp) \<longleftrightarrow> typed_insert inp"
| "op_typed (OpReplace now inp) \<longleftrightarrow> ri_Size inp \<ge> 0"
| "op_typed (OpBundle k now inp) \<longleftrightarrow> bi_PreservationClass inp = [] \<and> bi_Size inp \<ge> 0"
| "op_typed (OpRebundle now inp) \<longleftrightarrow> rb_Size inp \<ge> 0"
| "op_typed (OpGrant inp) \<longleftrightarrow> typed_grant_input inp"
| "op_typed (OpSetStatus now k owner status) \<longleftrightarrow> False"
| "op_typed (OpSetResultFreeze now k frozen) \<longleftrightarrow> True"
| "op_typed (OpExtendRetention now k owner until) \<longleftrightarrow> True"
| "op_typed (OpRemoveAccess ord1 ord2 clk k c) \<longleftrightarrow> True"
| "op_typed (OpSweepRetention ord clk now limit) \<longleftrightarrow> True"
| "op_typed (OpSweepHistory ord1 ord2 before limit) \<longleftrightarrow> True"
| "op_typed (OpDeleteHistory ord1 ord2 owner root) \<longleftrightarrow> True"

section \<open>The operations keep them\<close>

lemma typed_new: "typed_mem NewMemory"
  by (simp add: typed_mem_def NewMemory_def)

lemma typed_rowD: "typed_mem m \<Longrightarrow> rows m k = Some d \<Longrightarrow> typed_row d"
  by (simp add: typed_mem_def)

lemma typed_put [typed_keep]: "typed_mem m \<Longrightarrow> typed_row d \<Longrightarrow> typed_mem (put_row d m)"
  by (simp add: typed_mem_def put_row_def)

lemma typed_drop [typed_keep]: "typed_mem m \<Longrightarrow> typed_mem (drop_row k m)"
  by (simp add: typed_mem_def drop_row_def)

lemma typed_acl [typed_keep]: "typed_mem m \<Longrightarrow> \<forall>g \<in> set a. g \<in> set (acl m) \<or> typed_grant g \<Longrightarrow> typed_mem (m\<lparr>acl := a\<rparr>)"
  by (auto simp: typed_mem_def)

lemma typed_acl_filter: "typed_mem m \<Longrightarrow> typed_mem (m\<lparr>acl := filter P (acl m)\<rparr>)"
  by (rule typed_acl) auto

lemma typed_purge_row: "typed_row d \<Longrightarrow> st \<in> {''expired'', ''deleted''} \<Longrightarrow> typed_row (purge_row st t d)"
  by (auto simp: typed_row_def purge_row_def)

lemma typed_purge_chain: "typed_mem m \<Longrightarrow> typed_mem (snd (purge_chain root clk ks m))"
proof (induction ks arbitrary: m)
  case (Cons k ks)
  have "typed_mem (snd (purge_chain root clk ks (put_row (purge_row ''deleted'' (clk k) d) m)))" if "rows m k = Some d" for d
    using that Cons.prems typed_rowD [of m k d] by (intro Cons.IH typed_put typed_purge_row) auto
  with Cons show ?case by (auto split: option.split prod.splits)
qed simp

lemma typed_sweep_rows: "typed_mem m \<Longrightarrow> typed_mem (snd (sweep_rows now clk limit ks ps m))"
proof (induction ks arbitrary: m ps)
  case (Cons k ks)
  have "typed_mem (snd (sweep_rows now clk limit ks ps' (put_row (purge_row ''expired'' (clk k) d) m)))"
    if "rows m k = Some d" for d ps'
    using that Cons.prems typed_rowD [of m k d] by (intro Cons.IH typed_put typed_purge_row) auto
  with Cons show ?case by (auto split: option.split)
qed simp

lemma typed_history_rows: "typed_mem m \<Longrightarrow> typed_mem (snd (history_rows before limit ks n m))"
  by (induction ks arbitrary: m n) (auto simp: typed_drop split: option.split)

lemma typed_drop_owned: "typed_mem m \<Longrightarrow> typed_mem (snd (drop_owned owner root ks n m))"
  by (induction ks arbitrary: m n) (auto simp: typed_drop split: option.split)

lemma typed_drop_chain [typed_keep]: "typed_mem m \<Longrightarrow> typed_mem (drop_chain_acl root m)"
  by (simp add: drop_chain_acl_def typed_acl_filter)

lemma typed_absorb [typed_keep]: "typed_mem m \<Longrightarrow> typed_mem (absorb_rows ds m)"
  by (induction ds arbitrary: m) (simp_all add: typed_drop typed_drop_chain)

lemma typed_insert_row: "typed_insert inp \<Longrightarrow> typed_row (insert_row k now inp)"
  by (auto simp: typed_insert_def typed_row_def insert_row_def or_default_def presv_class_def RetentionTTL_def RetentionDurable_def)

lemma typed_creator: "typed_insert inp \<Longrightarrow> typed_grant (creator_grant k inp)"
  by (auto simp: typed_insert_def typed_grant_def creator_grant_def or_default_def Let_def
      PrincipalSub_def PrincipalSerial_def PrincipalProduct_def)

lemma typed_Insert: "typed_mem m \<Longrightarrow> typed_insert inp \<Longrightarrow> typed_mem (snd (mem_Insert ord k now inp m))"
  using typed_insert_row [of inp k now] typed_creator [of inp k]
  by (auto simp: mem_Insert_def Let_def intro!: typed_keep)

lemma typed_Replace: "typed_mem m \<Longrightarrow> ri_Size inp \<ge> 0 \<Longrightarrow> typed_mem (snd (mem_ReplaceContainerBlob now inp m))"
proof -
  have "typed_row (replace_row now inp d)"
    if "typed_row d" and "d_Kind d \<noteq> ''source''" and "ri_Size inp \<ge> 0"
      and "ri_PreservationClass inp \<in> set [[], ''none'', ''b_lt'', ''preservation'']" for d
    using that by (auto simp: typed_row_def replace_row_def presv_class_def)
  then show "typed_mem m \<Longrightarrow> ri_Size inp \<ge> 0 \<Longrightarrow> typed_mem (snd (mem_ReplaceContainerBlob now inp m))"
    using typed_rowD [of m "ri_ID inp"]
    by (auto simp: mem_ReplaceContainerBlob_def Let_def split: option.split intro!: typed_keep)
qed

lemma typed_Bundle:
  assumes "typed_mem m" and "bi_PreservationClass inp = []" and "bi_Size inp \<ge> 0"
  shows "typed_mem (snd (mem_Bundle k now inp m))"
proof -
  have "typed_row (bundle_row k now inp)" and "typed_grant (bundle_grant k inp)"
    using assms by (simp_all add: typed_row_def bundle_row_def presv_class_def or_default_def typed_grant_def bundle_grant_def
        PrincipalSub_def PrincipalSerial_def PrincipalProduct_def RetentionTTL_def RetentionDurable_def)
  with assms(1) show ?thesis
    by (auto simp: mem_Bundle_def Let_def split: sum.split intro!: typed_keep)
qed

lemma typed_Rebundle: "typed_mem m \<Longrightarrow> rb_Size inp \<ge> 0 \<Longrightarrow> typed_mem (snd (mem_Rebundle now inp m))"
proof -
  have "typed_row (rebundle_row now inp d)" if "typed_row d" and "rb_Size inp \<ge> 0" for d
    using that by (simp add: typed_row_def rebundle_row_def)
  then show "typed_mem m \<Longrightarrow> rb_Size inp \<ge> 0 \<Longrightarrow> typed_mem (snd (mem_Rebundle now inp m))"
    using typed_rowD [of m "rb_ID inp"]
    by (auto simp: mem_Rebundle_def Let_def split: option.split sum.split intro!: typed_keep)
qed

lemma typed_Grant:
  assumes "typed_mem m" and "typed_grant_input inp"
  shows "typed_mem (snd (mem_Grant inp m))"
proof -
  have entry: "\<forall>g \<in> set (grant_entry root PrincipalSerial (NormalizeSerial pid) rights gs). typed_grant g"
    if "\<forall>g \<in> set gs. typed_grant g" and "set rights \<subseteq> {''read'', ''cosign''}" for root pid rights gs
  proof -
    have fresh: "typed_grant \<lparr>g_ChainRoot = root, g_Kind = PrincipalSerial, g_Principal = NormalizeSerial pid, g_Rights = rights\<rparr>"
      using that(2) by (simp add: typed_grant_def PrincipalSerial_def PrincipalProduct_def)
    have update: "typed_grant (g\<lparr>g_Rights := rights\<rparr>)" if "typed_grant g" and "g_Kind g = PrincipalSerial" for g
      using that \<open>set rights \<subseteq> _\<close> by (simp add: typed_grant_def PrincipalSerial_def PrincipalProduct_def)
    show ?thesis using that(1) by (induction gs) (simp_all add: fresh [unfolded PrincipalSerial_def] update [unfolded PrincipalSerial_def])
  qed
  have "typed_mem (m\<lparr>acl := grant_entry root PrincipalSerial (NormalizeSerial pid) rights (acl m)\<rparr>)"
    if "set rights \<subseteq> {''read'', ''cosign''}" for root pid rights
    using that assms(1) entry [of "acl m" rights root pid] by (simp add: typed_mem_def)
  moreover have "set (if gi_Rights inp = [] then [''read'', ''cosign''] else gi_Rights inp) \<subseteq> {''read'', ''cosign''}"
    and "gi_PrincipalKind inp = ''serial''"
    using assms(2) by (simp_all add: typed_grant_input_def PrincipalSerial_def)
  ultimately show ?thesis
    using assms(1) by (auto simp: mem_Grant_def Let_def split: option.split if_splits)
qed

lemma typed_exec: "typed_mem m \<Longrightarrow> op_typed op \<Longrightarrow> typed_mem (store_exec op m)"
proof (cases op)
  case (OpSetResultFreeze now k frozen)
  have "typed_row (r\<lparr>d_ResultFrozen := b, d_UpdatedAt := t\<rparr>)" if "typed_row r" for r b t
    using that by (simp add: typed_row_def)
  then show "typed_mem m \<Longrightarrow> typed_mem (store_exec op m)"
    using OpSetResultFreeze typed_rowD [of m]
    by (auto simp: mem_SetResultFreeze_def intro!: typed_keep split: option.split)
next
  case (OpExtendRetention now k owner until)
  have "typed_row (d\<lparr>d_RetentionUntil := u, d_UpdatedAt := t\<rparr>)"
    if "typed_row d" and "u = None \<longrightarrow> d_RetentionUntil d = None" for d u t
    using that by (simp add: typed_row_def)
  then show "typed_mem m \<Longrightarrow> typed_mem (store_exec op m)"
    using OpExtendRetention typed_rowD [of m]
    by (simp add: mem_ExtendRetention_def typed_put split: option.split)
next
  case (OpRemoveAccess ord1 ord2 clk k c)
  assume typed: "typed_mem m"
  have "typed_mem (m\<lparr>acl := kept_grants root c m\<rparr>)" for root
    unfolding kept_grants_def using typed by (rule typed_acl_filter)
  moreover from this have "typed_mem (snd (purge_chain root clk ord2 (m\<lparr>acl := kept_grants root c m\<rparr>)))" for root
    by (rule typed_purge_chain)
  ultimately show "typed_mem (store_exec op m)"
    using OpRemoveAccess typed by (simp add: mem_RemoveAccess_def Let_def case_prod_beta split: option.split)
next
  case (OpSweepRetention ord clk now limit)
  then show "typed_mem m \<Longrightarrow> typed_mem (store_exec op m)"
    using typed_sweep_rows [of m now clk limit ord "[]"] by (auto simp: mem_SweepRetention_def split: prod.split)
next
  case (OpSweepHistory ord1 ord2 before limit)
  then show "typed_mem m \<Longrightarrow> typed_mem (store_exec op m)"
    using typed_history_rows [of m before "if limit \<le> 0 then 500 else limit" ord1 0]
    by (auto simp: mem_SweepHistory_def drop_orphan_acl_def Let_def intro!: typed_keep split: prod.split)
next
  case (OpDeleteHistory ord1 ord2 owner root)
  then show "typed_mem m \<Longrightarrow> typed_mem (store_exec op m)"
    using typed_drop_owned [of m owner root ord2 0]
    by (auto simp: mem_DeleteHistoryChain_def intro!: typed_keep split: prod.split)
qed (simp_all add: typed_Insert typed_Replace typed_Bundle typed_Rebundle typed_Grant)

end
