(* ===== verification/System.thy ===== *)
theory System
  imports WellTyped RouteRuns
begin

text \<open>
  The running server as one closed system: the world, the programs of the requests being served,
  and the steps that can happen next.  A request arrives; a request in progress makes its next call;
  the retention task makes one.  There is nothing else: what holds in every reachable state holds at
  every moment of every interleaving of requests, at the granularity of service calls.
\<close>

section \<open>One step of one request\<close>

inductive prog_step :: "'b service \<Rightarrow> 'b world \<Rightarrow> prog \<Rightarrow> 'b world \<Rightarrow> prog \<Rightarrow> bool" for sv where
  emit: "prog_step sv w (Emit e p) w p"
| doc: "out_ok out (w_meta w) \<Longrightarrow> \<not> names_id (e_id (o_env out)) c \<Longrightarrow> doc_exec sv out c w = (x, w1) \<Longrightarrow>
     prog_step sv w (DocCall c k) w1 (k x)"
| unit: "out_ok out (w_meta w) \<Longrightarrow> unit_exec sv out c w = (x, w1) \<Longrightarrow> prog_step sv w (UnitCall c k) w1 (k x)"
| content: "prog_step sv w (ContentCall i c k) w (k (svc_Content sv i c w))"
| list: "visits ord (rows (w_meta w)) \<Longrightarrow>
     prog_step sv w (ListCall c limit after k) w (k (Inr (svc_List ord c limit after w)))"
| list_chains: "visits ord (rows (w_meta w)) \<Longrightarrow>
     visits ord2 (chain_heads (w_meta w) c (range_vals ord (rows (w_meta w))) Map.empty) \<Longrightarrow>
     prog_step sv w (ListChainsCall c limit after incl k) w (k (Inr (svc_ListChains ord ord2 c limit after incl w)))"
| get_chain: "visits ord (rows (w_meta w)) \<Longrightarrow> prog_step sv w (GetChainCall c i k) w (k (svc_GetChain ord c i w))"
| history: "visits ord (rows (w_meta w)) \<Longrightarrow>
     visits ord2 (history_heads ord (w_meta w) owner after (range_vals ord (rows (w_meta w))) Map.empty) \<Longrightarrow>
     prog_step sv w (ListHistoryCall owner limit after k) w (k (Inr (svc_ListHistory ord ord2 owner limit after w)))"
| retention: "visits ord (rows (w_meta w)) \<Longrightarrow>
     prog_step sv w (ChainRetentionCall i k) w (k (svc_ChainRetention ord i w))"
| scan: "prog_step sv w (ScanCall ep data k) w (k (Scan cn ep data))"
| ping: "prog_step sv w (PingCall tg k) w (k x)"
| now: "prog_step sv w (NowCall k) w (k t)"

inductive_cases prog_stepE: "prog_step sv w p w' p'"

section \<open>The system\<close>

record 'b system =
  sy_world :: "'b world"
  sy_running :: "prog list"

datatype sweep = SweepRetentionNow "string list" "string \<Rightarrow> time" time int | SweepHistoryNow "string list" "string list" time int

primrec sweep_op :: "sweep \<Rightarrow> svc_op" where
  "sweep_op (SweepRetentionNow ord clk now limit) = SvSweep ord clk now limit"
| "sweep_op (SweepHistoryNow ord1 ord2 before limit) = SvSweepHistory ord1 ord2 before limit"

inductive system_step :: "'b service \<Rightarrow> router \<Rightarrow> 'b system \<Rightarrow> 'b system \<Rightarrow> bool" for sv r where
  arrive: "system_step sv r s (s\<lparr>sy_running := sy_running s @ [serve r req]\<rparr>)"
| advance: "i < length (sy_running s) \<Longrightarrow> prog_step sv (sy_world s) (sy_running s ! i) w' p' \<Longrightarrow>
     system_step sv r s \<lparr>sy_world = w', sy_running = (sy_running s)[i := p']\<rparr>"
| task: "svc_ok (sweep_op sw) (w_meta (sy_world s)) \<Longrightarrow>
     system_step sv r s (s\<lparr>sy_world := svc_exec sv (sweep_op sw) (sy_world s)\<rparr>)"

inductive system_reachable :: "'b service \<Rightarrow> router \<Rightarrow> 'b \<Rightarrow> 'b system \<Rightarrow> bool" for sv r b0 where
  start: "system_reachable sv r b0 \<lparr>sy_world = \<lparr>w_meta = NewMemory, w_blob = b0\<rparr>, sy_running = []\<rparr>"
| step: "system_reachable sv r b0 s \<Longrightarrow> system_step sv r s s' \<Longrightarrow> system_reachable sv r b0 s'"

section \<open>Well-typed programs\<close>

text \<open>What the handlers store, given that the rows they are answered are well typed.\<close>

definition typed_ingest :: "ingest_input \<Rightarrow> bool" where
  "typed_ingest inp \<longleftrightarrow>
     in_Kind inp \<in> set [[], ''container'', ''pdf''] \<and>
     in_Status inp \<in> set [[], ''signed''] \<and>
     (in_Kind inp = [] \<longrightarrow> in_Status inp = []) \<and>
     (in_PreservationClass inp = [] \<or> presv_class (in_PreservationClass inp)) \<and>
     in_RetentionClass inp \<in> set [[], RetentionTTL, RetentionDurable] \<and>
     in_OwnerKind inp \<in> set [[], PrincipalSub, PrincipalProduct] \<and>
     (in_RetentionClass inp = RetentionDurable \<longrightarrow> in_OwnerKind inp = PrincipalProduct) \<and>
     (in_OwnerKind inp = PrincipalProduct \<longrightarrow> has_prefix (in_Owner inp) ''product:'')"

definition typed_call :: "doc_call \<Rightarrow> bool" where
  "typed_call c \<longleftrightarrow> (\<forall>inp. c = CIngest inp \<longrightarrow> typed_ingest inp)"

definition typed_unit :: "unit_call \<Rightarrow> bool" where
  "typed_unit c \<longleftrightarrow> (\<forall>inp. c = CGrant inp \<longrightarrow> typed_grant_input inp)"

definition typed_answer :: "err + document \<Rightarrow> bool" where
  "typed_answer x \<longleftrightarrow> (\<forall>d. x = Inr d \<longrightarrow> typed_row d)"

definition typed_content :: "(err \<times> document option) + document \<times> bytes \<Rightarrow> bool" where
  "typed_content x \<longleftrightarrow> (\<forall>d data. x = Inr (d, data) \<longrightarrow> typed_row d)"

primrec typed_prog :: "prog \<Rightarrow> bool" where
  "typed_prog (Done rep) \<longleftrightarrow> True"
| "typed_prog (Emit e p) \<longleftrightarrow> typed_prog p"
| "typed_prog (DocCall c k) \<longleftrightarrow> typed_call c \<and> (\<forall>x. typed_answer x \<longrightarrow> typed_prog (k x))"
| "typed_prog (UnitCall c k) \<longleftrightarrow> typed_unit c \<and> (\<forall>x. typed_prog (k x))"
| "typed_prog (ContentCall i c k) \<longleftrightarrow> (\<forall>x. typed_content x \<longrightarrow> typed_prog (k x))"
| "typed_prog (ListCall c limit after k) \<longleftrightarrow> (\<forall>x. typed_prog (k x))"
| "typed_prog (ListChainsCall c limit after incl k) \<longleftrightarrow> (\<forall>x. typed_prog (k x))"
| "typed_prog (GetChainCall c i k) \<longleftrightarrow> (\<forall>x. typed_prog (k x))"
| "typed_prog (ListHistoryCall owner limit after k) \<longleftrightarrow> (\<forall>x. typed_prog (k x))"
| "typed_prog (ChainRetentionCall i k) \<longleftrightarrow> (\<forall>x. typed_prog (k x))"
| "typed_prog (ScanCall ep data k) \<longleftrightarrow> (\<forall>x. typed_prog (k x))"
| "typed_prog (PingCall tg k) \<longleftrightarrow> (\<forall>x. typed_prog (k x))"
| "typed_prog (NowCall k) \<longleftrightarrow> (\<forall>x. typed_prog (k x))"

lemma typed_emits [simp]: "typed_prog (emits es p) = typed_prog p"
  by (induction es) simp_all

lemma typed_call_simps [simp]:
  "typed_call (CIngest inp) \<longleftrightarrow> typed_ingest inp" "typed_call (CBundle owner tenant ids filename)"
  "typed_call (CRebundle owner k entries)" "typed_call (CReplaceContainer k h data)"
  "typed_call (CReplaceContainerArchived k h data)" "typed_call (CGet k c)" "typed_call (CGetContainerByParent k c)"
  "typed_call (CGetLatestSignedPdfByChain k c)" "typed_call (CDelete k c)"
  by (simp_all add: typed_call_def)

lemma typed_unit_simps [simp]:
  "typed_unit (CGrant inp) \<longleftrightarrow> typed_grant_input inp" "typed_unit (CExtendRetention k owner)"
  "typed_unit (CSetResultFreeze k frozen)" "typed_unit (CDeleteHistoryChain owner root)"
  by (simp_all add: typed_unit_def)

lemma typed_answer_simps [simp]:
  "typed_answer (Inl e)" "typed_answer (Inr d) \<longleftrightarrow> typed_row d"
  "typed_content (Inl u)" "typed_content (Inr v) \<longleftrightarrow> typed_row (fst v)"
  by (cases v; auto simp: typed_answer_def typed_content_def)+

text \<open>The guards of the handlers; a product owner is one the configuration names.\<close>

lemma typed_product: "productPrincipal r ctx = (princ, tenant) \<Longrightarrow> princ \<noteq> [] \<Longrightarrow> has_prefix princ ''product:''"
  by (auto simp: productPrincipal_def has_prefix_def Let_def split: if_splits)

lemma typed_resolveRetention:
  assumes "rclass \<noteq> RetentionDurable \<Longrightarrow> typed_prog (k PrincipalSub (callerID ctx) [] None)"
    and "\<And>princ tenant until. rclass = RetentionDurable \<Longrightarrow> has_prefix princ ''product:'' \<Longrightarrow>
      typed_prog (k PrincipalProduct princ tenant until)"
  shows "typed_prog (resolveRetention r ctx rclass k)"
  using assms
  by (auto simp: resolveRetention_def bad_until_def requireScope_def intro: typed_product split: prod.split option.split)

lemma typed_guards:
  "typed_prog k1 \<Longrightarrow> typed_prog (requireScope r ctx level k1)"
  "(\<And>fh data. typed_prog (k2 fh data)) \<Longrightarrow> typed_prog (readRequiredFile r ctx field k2)"
  "typed_prog k4 \<Longrightarrow> typed_prog (scan_upload r ctx data k4)"
  "typed_prog k5 \<Longrightarrow> typed_prog (signedFormIsPdf r caller data k5)"
  by (auto simp: requireScope_def readRequiredFile_def scan_upload_def signedFormIsPdf_def reply_defs Let_def
      split: option.split prod.split sum.split)

lemma typed_readFiles: "(\<And>files. typed_prog (k files)) \<Longrightarrow> typed_prog (readFiles r ctx field fhs k)"
  by (induction fhs arbitrary: k) (simp_all add: reply_defs split: option.split)

lemma typed_inputs:
  "ValidPreservationClass (formField ctx ''preservation_class'') \<Longrightarrow> ValidRetentionClass (formField ctx ''retention_class'') \<Longrightarrow>
     ownerKind \<in> {PrincipalSub, PrincipalProduct} \<Longrightarrow>
     (formField ctx ''retention_class'' = RetentionDurable \<longrightarrow> ownerKind = PrincipalProduct) \<Longrightarrow>
     (ownerKind = PrincipalProduct \<longrightarrow> has_prefix owner ''product:'') \<Longrightarrow>
     typed_ingest (upload_input r ctx fh data gate ownerKind owner tenant until)"
  "presv_class pc \<Longrightarrow> typed_ingest (container_input r caller serial parent pc filename data)"
  "typed_row d \<Longrightarrow> typed_ingest (signed_input r ctx fh data d chainRoot)"
  by (auto simp: typed_ingest_def upload_input_def container_input_def signed_input_def presv_class_def
      ValidPreservationClass_def ValidPreservationClasses_def ValidRetentionClass_def ValidRetentionClasses_def
      RetentionTTL_def RetentionDurable_def PrincipalSub_def PrincipalProduct_def typed_row_def Let_def)

lemma typed_row_presv: "typed_row d \<Longrightarrow> presv_class (d_PreservationClass d)"
  by (simp add: typed_row_def)

lemma presv_none: "presv_class ''none''"
  by (simp add: presv_class_def)

lemma typed_upload_answer: "typed_prog (upload_answer r ctx gate x)"
  by (auto simp: upload_answer_def reply_defs split: sum.split)

lemma typed_ingest_handler: "typed_prog (ingest r ctx)"
  unfolding ingest_def
  by (auto intro!: typed_guards typed_resolveRetention typed_inputs(1) simp: typed_upload_answer writeGateErr_def
      RetentionDurable_def PrincipalSub_def PrincipalProduct_def split: sum.split)

lemma typed_supersede: "typed_prog (supersedeSignedPdf r ctx caller chainRoot data)"
  by (auto simp: supersedeSignedPdf_def reply_defs split: sum.split)

lemma typed_storeSigned: "typed_prog (storeSigned r ctx)"
proof -
  have "typed_prog (signed_answer r ctx chainRoot data y)" for chainRoot data y
    by (auto simp: signed_answer_def reply_defs typed_supersede split: sum.split)
  then show ?thesis
    unfolding storeSigned_def
    by (auto simp: reply_defs Let_def typed_supersede intro!: typed_guards typed_inputs(3) split: sum.split)
qed

lemma typed_grantACL: "typed_prog (grantACL r body ctx)"
proof -
  have "typed_grant_input \<lparr>gi_DocID = k, gi_PrincipalKind = ''serial'', gi_PrincipalID = p, gi_Rights = rights,
      gi_TenantID = [], gi_GrantedBy = gb\<rparr>"
    if "\<not> list_ex (\<lambda>right. right \<noteq> ''read'' \<and> right \<noteq> ''cosign'') rights" for k p rights gb
  proof -
    have "\<forall>x \<in> set rights. x = ''read'' \<or> x = ''cosign''" using that by (fastforce simp only: list_ex_iff)
    then have "set rights \<subseteq> {''read'', ''cosign''}" by blast
    then show ?thesis by (simp add: typed_grant_input_def PrincipalSerial_def)
  qed
  then show ?thesis
    unfolding grantACL_def by (intro typed_guards) (simp add: reply_defs Let_def split: sum.split)
qed

lemma typed_serve: "typed_prog (serve r req)"
proof (cases req)
  case (PostDocuments ctx)
  then show ?thesis by (simp add: typed_ingest_handler)
next
  case (PostDocumentACL body ctx)
  then show ?thesis by (simp add: typed_grantACL)
next
  case (PostSigned ctx)
  then show ?thesis by (simp add: typed_storeSigned)
qed (auto simp: handler_defs reply_defs Let_def presv_none intro!: typed_guards typed_readFiles typed_inputs(2) typed_row_presv
       split: option.split sum.split prod.split)

section \<open>Calls keep the types\<close>

primrec svc_typed :: "svc_op \<Rightarrow> bool" where
  "svc_typed (SvIngest ev inp) \<longleftrightarrow> typed_ingest inp"
| "svc_typed (SvBundle ev owner tenant ids filename) \<longleftrightarrow> True"
| "svc_typed (SvRebundle ev owner k entries) \<longleftrightarrow> True"
| "svc_typed (SvReplaceContainer ev k h data) \<longleftrightarrow> True"
| "svc_typed (SvReplaceContainerArchived ev k h data) \<longleftrightarrow> True"
| "svc_typed (SvDelete ord1 ord2 clk k c) \<longleftrightarrow> True"
| "svc_typed (SvSweep ord clk now limit) \<longleftrightarrow> True"
| "svc_typed (SvGrant inp) \<longleftrightarrow> typed_grant_input inp"
| "svc_typed (SvSweepHistory ord1 ord2 before limit) \<longleftrightarrow> True"
| "svc_typed (SvDeleteHistoryChain ord1 ord2 owner root) \<longleftrightarrow> True"
| "svc_typed (SvExtendRetention now storeNow k owner) \<longleftrightarrow> True"
| "svc_typed (SvSetResultFreeze now k frozen) \<longleftrightarrow> True"

text \<open>An upload is dated unless durable, and classified as a signed container when it is one.\<close>

lemma typed_ingest_row:
  assumes "typed_ingest inp" and "classify lib inp = (inp', inner)"
  shows "typed_insert (ingest_row sv now inp' inner objKey keyRef)"
proof -
  have "inp' = inp \<or> in_Kind inp = [] \<and> inp' = inp\<lparr>in_Kind := ''container'', in_Status := ''signed''\<rparr>"
    using assms by (auto simp: classify_def typed_ingest_def split: option.splits if_splits)
  then show ?thesis
    using assms(1)
    by (elim disjE conjE)
       (auto simp: typed_insert_def ingest_row_def typed_ingest_def retentionFor_def RetentionTTL_def RetentionDurable_def)
qed

lemma stores_typed: "stores sv op sop \<Longrightarrow> svc_typed op \<Longrightarrow> op_typed sop"
  by (cases op) (auto intro: typed_ingest_row)

lemma typed_svc: "typed_mem (w_meta w) \<Longrightarrow> svc_typed op \<Longrightarrow> typed_mem (w_meta (svc_exec sv op w))"
  using svc_meta [of sv op w] stores_typed [of sv op] typed_exec by (fastforce simp: meta_by_def)

lemma typed_Get:
  assumes "typed_mem m" and "mem_Get m k c = Inr d"
  shows "typed_row d"
proof -
  have "typed_row (r\<lparr>d_ResultFrozen := b\<rparr>)" if "typed_row r" for r b
    using that by (simp add: typed_row_def)
  then show ?thesis
    using assms typed_rowD [OF assms(1)] by (auto simp: mem_Get_def project_freeze_def split: option.splits if_splits)
qed

lemma typed_stored_answers:
  assumes "typed_mem m"
  shows "ri_Size ri \<ge> 0 \<Longrightarrow> mem_ReplaceContainerBlob now ri m = (Inr (d, old), m') \<Longrightarrow> typed_row d"
    and "rb_Size rb \<ge> 0 \<Longrightarrow> mem_Rebundle now rb m = (Inr (d, old, ps), m') \<Longrightarrow> typed_row d"
proof -
  have put: "typed_row (replace_row now ri r)"
    if "typed_row r" and "d_Kind r \<noteq> ''source''" and "ri_Size ri \<ge> 0"
      and "ri_PreservationClass ri \<in> set [[], ''none'', ''b_lt'', ''preservation'']" for r
    using that by (auto simp: typed_row_def replace_row_def presv_class_def)
  show "ri_Size ri \<ge> 0 \<Longrightarrow> mem_ReplaceContainerBlob now ri m = (Inr (d, old), m') \<Longrightarrow> typed_row d"
    using typed_rowD [OF assms, of "ri_ID ri"] put
    by (auto simp: mem_ReplaceContainerBlob_def Let_def split: option.splits if_splits)
  show "rb_Size rb \<ge> 0 \<Longrightarrow> mem_Rebundle now rb m = (Inr (d, old, ps), m') \<Longrightarrow> typed_row d"
    using typed_rowD [OF assms, of "rb_ID rb"]
    by (auto simp: mem_Rebundle_def Let_def typed_row_def rebundle_row_def split: option.splits if_splits sum.splits)
qed

lemma typed_replaced:
  assumes "typed_mem (w_meta w)" and "svc_replaceContainer sv ev k h data pc w = (x, w')" and "pc = [] \<or> pc = ''preservation''"
  shows "typed_mem (w_meta w') \<and> typed_answer x"
proof -
  have "typed_mem (w_meta w')"
    using assms(2,3) typed_svc [OF assms(1), of "SvReplaceContainer ev k h data" sv]
      typed_svc [OF assms(1), of "SvReplaceContainerArchived ev k h data" sv]
    by (auto simp: svc_ReplaceContainer_def svc_ReplaceContainerArchived_def)
  moreover have "\<exists>ri old m. mem_ReplaceContainerBlob (e_storeNow ev) ri (w_meta w) = (Inr (d, old), m) \<and> ri_Size ri \<ge> 0"
    if "x = Inr d" for d
    using that assms(2)
    by (auto simp: svc_replaceContainer_def dest!: sealAndStore_meta split: prod.splits sum.splits)
      (intro exI conjI, assumption, simp)+
  ultimately show ?thesis using typed_stored_answers(1) [OF assms(1)] by (fastforce simp: typed_answer_def)
qed

text \<open>Each call of a handler, with its answer.\<close>

lemma typed_doc_exec:
  assumes "typed_mem (w_meta w)" and "typed_call c" and "doc_exec sv out c w = (x, w')"
  shows "typed_mem (w_meta w') \<and> typed_answer x"
proof (cases c)
  case (CIngest inp)
  let ?op = "SvIngest (o_env out) inp"
  have "typed_mem (w_meta w')" using typed_svc [OF assms(1), of ?op sv] assms(2,3) CIngest by simp
  moreover have "\<exists>k cl. mem_Get (w_meta w') k cl = x" if "x = Inr d" for d
    using that assms(3) CIngest by (auto simp: svc_Ingest_def split: prod.splits sum.splits) blast
  ultimately show ?thesis using typed_Get by (fastforce simp: typed_answer_def)
next
  case (CBundle owner tenant ids filename)
  let ?op = "SvBundle (o_env out) owner tenant ids filename"
  have "typed_mem (w_meta w')" using typed_svc [OF assms(1), of ?op sv] assms(3) CBundle by simp
  moreover have "\<exists>k cl. mem_Get (w_meta w') k cl = x" if "x = Inr d" for d
    using that assms(3) CBundle by (auto simp: svc_Bundle_def Let_def split: prod.splits sum.splits if_splits) blast+
  ultimately show ?thesis using typed_Get by (fastforce simp: typed_answer_def)
next
  case (CRebundle owner k entries)
  let ?op = "SvRebundle (o_env out) owner k entries"
  have "typed_mem (w_meta w')" using typed_svc [OF assms(1), of ?op sv] assms(3) CRebundle by simp
  moreover have "\<exists>rb old ps m. mem_Rebundle (e_storeNow (o_env out)) rb (w_meta w) = (Inr (d, old, ps), m) \<and> rb_Size rb \<ge> 0"
    if "x = Inr d" for d
    using that assms(3) CRebundle
    by (auto simp: svc_Rebundle_def dest!: sealAndStore_meta split: prod.splits sum.splits if_splits)
      (intro exI conjI, assumption, simp)+
  ultimately show ?thesis using typed_stored_answers(2) [OF assms(1)] by (fastforce simp: typed_answer_def)
next
  case (CDelete k cl)
  let ?op = "SvDelete (o_ord1 out) (o_ord2 out) (o_clk out) k cl"
  have "typed_mem (w_meta w')" using typed_svc [OF assms(1), of ?op sv] assms(3) CDelete by simp
  moreover have "mem_Get (w_meta w) k cl = x" if "x = Inr d" for d
    using that assms(3) CDelete by (auto simp: svc_Delete_def split: prod.splits sum.splits)
  ultimately show ?thesis using typed_Get [OF assms(1)] by (fastforce simp: typed_answer_def)
next
  case (CGet k cl)
  then show ?thesis using assms typed_Get [OF assms(1)] by (auto simp: svc_Get_def typed_answer_def)
next
  case (CGetContainerByParent k cl)
  then show ?thesis using assms typed_rowD [OF assms(1)]
    by (auto simp: svc_GetContainerByParent_def mem_GetContainerByParent_def typed_answer_def find_Some_iff set_range_vals
        dest!: nth_mem split: if_splits option.splits)
next
  case (CGetLatestSignedPdfByChain k cl)
  then show ?thesis using assms typed_rowD [OF assms(1)]
    by (auto simp: svc_GetLatestSignedPdfByChain_def mem_GetLatestSignedPdfByChain_def typed_answer_def set_range_vals
        dest!: pdf_order.pick_best_max split: if_splits option.splits)
next
  case (CReplaceContainer k h data)
  then show ?thesis using assms typed_replaced [OF assms(1), of sv "o_env out" k h data "[]" x w']
    by (simp add: svc_ReplaceContainer_def)
next
  case (CReplaceContainerArchived k h data)
  then show ?thesis using assms typed_replaced [OF assms(1), of sv "o_env out" k h data "''preservation''" x w']
    by (simp add: svc_ReplaceContainerArchived_def)
qed


lemma typed_unit_exec:
  assumes "typed_mem (w_meta w)" and "typed_unit c" and "unit_exec sv out c w = (x, w')"
  shows "typed_mem (w_meta w')"
proof (cases c)
  case (CGrant inp)
  then show ?thesis using assms typed_svc [OF assms(1), of "SvGrant inp" sv] by simp
next
  case (CExtendRetention k owner)
  then show ?thesis
    using assms(3) typed_svc [OF assms(1), of "SvExtendRetention (e_now (o_env out)) (e_storeNow (o_env out)) k owner" sv] by simp
next
  case (CSetResultFreeze k frozen)
  then show ?thesis using assms(3) typed_svc [OF assms(1), of "SvSetResultFreeze (e_storeNow (o_env out)) k frozen" sv] by simp
next
  case (CDeleteHistoryChain owner root)
  then show ?thesis
    using assms(3) typed_svc [OF assms(1), of "SvDeleteHistoryChain (o_ord1 out) (o_ord2 out) owner root" sv] by simp
qed

lemma Content_row: "svc_Content sv k c w = Inr (d, data) \<Longrightarrow> mem_Get (w_meta w) k c = Inr d"
  unfolding svc_Content_def by (split sum.splits; simp)+ (auto split: sum.splits option.splits if_splits)

lemma typed_Content: "typed_mem (w_meta w) \<Longrightarrow> typed_content (svc_Content sv k c w)"
  unfolding typed_content_def by (blast dest: Content_row intro: typed_Get)

section \<open>Every reachable state\<close>

text \<open>What the induction carries: the world is one the service reaches, its rows and grants are well
  typed, and so is every program in progress.\<close>

definition sound_system :: "'b service \<Rightarrow> 'b \<Rightarrow> 'b system \<Rightarrow> bool" where
  "sound_system sv b0 s \<longleftrightarrow>
     svc_reachable sv b0 (sy_world s) \<and> typed_mem (w_meta (sy_world s)) \<and>
     (\<forall>p \<in> set (sy_running s). typed_prog p \<and> calls_ok stores_live p)"

lemma prog_step_sound:
  assumes "prog_step sv w p w' p'" and "typed_mem (w_meta w)" and "typed_prog p" and "calls_ok stores_live p"
  shows "others sv w w' \<and> typed_mem (w_meta w') \<and> typed_prog p' \<and> calls_ok stores_live p'"
  using assms
proof cases
  case (doc out c x k)
  then have c: "typed_call c" "stores_live c" using assms(3,4) by simp_all
  from assms(2) c(1) doc(5) have "typed_mem (w_meta w') \<and> typed_answer x" by (rule typed_doc_exec)
  moreover have "others sv w w'" using doc c by (blast intro: doc_exec_others)
  ultimately show ?thesis using doc assms(3,4) by simp
next
  case (unit out c x k)
  then have "typed_unit c" using assms(3) by simp
  with unit assms(2) have "typed_mem (w_meta w')" by (blast intro: typed_unit_exec)
  moreover have "others sv w w'" using unit by (blast intro: unit_exec_others)
  ultimately show ?thesis using unit assms(3,4) by simp
qed (simp_all add: typed_Content)

lemma system_step_sound:
  assumes "system_step sv r s s'" and "sound_system sv b0 s"
  shows "sound_system sv b0 s'"
  using assms(1)
proof cases
  case (arrive req)
  then show ?thesis using assms(2) typed_serve [of r req] serve_stores_live [of r req]
    by (auto simp: sound_system_def)
next
  case (advance i w' p')
  from advance(2) have "sy_running s ! i \<in> set (sy_running s)" by simp
  with assms(2) have "typed_mem (w_meta (sy_world s))" "typed_prog (sy_running s ! i)" "calls_ok stores_live (sy_running s ! i)"
    by (auto simp: sound_system_def)
  from prog_step_sound [OF advance(3) this] assms(2) show ?thesis
    using advance(1) set_update_subset_insert [of "sy_running s" i p'] by (auto simp: sound_system_def intro: others_reachable)
next
  case (task sw)
  have "svc_typed (sweep_op sw)" by (cases sw) simp_all
  then show ?thesis using task assms(2) typed_svc [of "sy_world s" "sweep_op sw" sv]
    by (auto simp: sound_system_def intro: svc_reachable.step svc_step.call)
qed

lemma sound_reachable: "system_reachable sv r b0 s \<Longrightarrow> sound_system sv b0 s"
proof (induction rule: system_reachable.induct)
  case start
  show ?case by (simp add: sound_system_def typed_new svc_reachable.start)
qed (rule system_step_sound)

end
