(* ===== verification/SystemProps.thy ===== *)
theory SystemProps
  imports System SigningProps
begin

text \<open>
  The system as a whole: each layer refines the one below, and the types of the rows hold in every
  state of the running server.
\<close>

text \<open>C21: the service refines the metadata store's machine.  In every world the service reaches, over any
  blob store and any KMS, the metadata is one the store machine alone can reach; and each further
  call leaves it as it is or performs exactly one store operation, the one the call stands for,
  with arguments the store admits.\<close>

theorem service_refines_store:
  assumes "svc_reachable sv b0 w"
  shows "store_reachable (w_meta w) \<and>
    (\<forall>op w'. svc_step sv w op w' \<longrightarrow>
       w_meta w' = w_meta w \<or> (\<exists>sop. stores sv op sop \<and> store_step (w_meta w) sop (w_meta w')))"
  using reachable_store [OF assms] svc_step_store [of sv w] by blast

lemma service_refines_store_witness:
  "store_reachable (w_meta sample_world) \<and>
   (\<exists>sop. stores sample_service (SvIngest sample_env sample_upload) sop \<and>
      store_step (w_meta empty_world) sop (w_meta sample_world))"
proof -
  have "svc_step sample_service empty_world (SvIngest sample_env sample_upload) sample_world"
    unfolding sample_world_def
    by (rule svc_step.call) (use sample_env_ok in \<open>simp add: sample_upload_def sample_env_def\<close>)
  moreover have "w_meta sample_world \<noteq> w_meta empty_world"
    by (rule sample_world_row) (auto simp: empty_world_def NewMemory_def)
  ultimately show ?thesis
    using service_refines_store [OF reachable_empty] service_refines_store [OF reachable_sample_world]
    unfolding sample_service_def by blast
qed

text \<open>C4: every state of the running server is well typed.  Whatever requests arrived, however their calls
  and the retention task's interleaved: the world is one the service reaches; every row has a
  known kind, state and class, a plain source is never signed, only a durable row has no end
  of retention and only a product owns one; and every access entry names a known kind of
  principal with known rights, a product one to read only, a serial in its normal spelling.\<close>

theorem running_system_typed:
  assumes "system_reachable sv r b0 s"
  shows "svc_reachable sv b0 (sy_world s) \<and>
    (\<forall>k d. rows (w_meta (sy_world s)) k = Some d \<longrightarrow> typed_row d) \<and>
    (\<forall>g \<in> set (acl (w_meta (sy_world s))). typed_grant g)"
  using sound_reachable [OF assms] by (simp add: sound_system_def typed_mem_def)

text \<open>An upload arrives at the empty server and is stored.\<close>

lemma running_system_typed_witness:
  "\<exists>s d. system_reachable (dev_service sample_kms sample_lib 100) sample_router NewBlobMemory s \<and>
     d \<in> ran (rows (w_meta (sy_world s))) \<and> d_Owner d = ''ana'' \<and> typed_row d"
proof -
  let ?sv = "dev_service sample_kms sample_lib 100"
  let ?c = "CIngest sample_post_input" and ?k = "upload_answer sample_router (sample_ctx [''write'']) sample_gate"
  obtain out doc w' where out: "out_ok out (w_meta empty_world)" "\<not> names_id (e_id (o_env out)) ?c"
      "doc_exec ?sv out ?c empty_world = (Inr doc, w')"
    and ing: "svc_Ingest ?sv sample_env sample_post_input empty_world = (Inr doc, w')"
    by (rule sample_post_exec)
  let ?s1 = "\<lparr>sy_world = empty_world, sy_running = [DocCall ?c ?k]\<rparr>" and ?s2 = "\<lparr>sy_world = w', sy_running = [?k (Inr doc)]\<rparr>"
  have "system_reachable ?sv sample_router NewBlobMemory ?s1"
    using system_reachable.step [OF system_reachable.start system_step.arrive,
        of ?sv sample_router NewBlobMemory "PostDocuments (sample_ctx [''write''])"]
    unfolding sample_post empty_world_def by simp
  moreover have "system_step ?sv sample_router ?s1 ?s2"
    using system_step.advance [of 0 ?s1 ?sv w' "?k (Inr doc)" sample_router] prog_step.doc [OF out] by simp
  ultimately have s2: "system_reachable ?sv sample_router NewBlobMemory ?s2" by (rule system_reachable.step)
  obtain inp1 inner keyRef where c: "classify sample_lib sample_post_input = (inp1, inner)"
    and row: "rows (w_meta w') = (rows (w_meta empty_world))(e_id sample_env \<mapsto> insert_row (e_id sample_env) (e_storeNow sample_env)
          (ingest_row ?sv (e_now sample_env) inp1 inner (e_objKey sample_env) keyRef))"
    by (rule dev_ingested [OF reachable_empty sample_env_ok ing]) (rule that)
  let ?d = "insert_row (e_id sample_env) (e_storeNow sample_env) (ingest_row ?sv (e_now sample_env) inp1 inner (e_objKey sample_env) keyRef)"
  have at: "rows (w_meta w') (e_id sample_env) = Some ?d" unfolding row by simp
  then have "?d \<in> ran (rows (w_meta w'))" by (rule ranI)
  moreover have "d_Owner ?d = ''ana''" using classify_keeps [OF c] by (simp add: ingest_row_def upload_input_def Let_def)
  moreover have "typed_row ?d" using running_system_typed [OF s2] at unfolding system.simps by blast
  ultimately show ?thesis using s2 by fastforce
qed

end
