(* ===== verification/GoUtf8.thy ===== *)
theory GoUtf8
  imports GoStrings
begin

text \<open>
  UTF-8 as Go's \<open>unicode/utf8\<close> decodes it, over byte strings, and what \<open>encoding/json\<close> does to a string it
  writes: every byte that does not start a well-formed rune becomes the replacement character.
\<close>

section \<open>Decoding one rune\<close>

text \<open>Go's table of first bytes: the length of the rune and the range of its second byte.  Bytes that
  start no rune have length 0.\<close>

definition rune_first :: "nat \<Rightarrow> nat \<times> nat \<times> nat" where
  "rune_first n =
     (if n < 0x80 then (1, 0x80, 0xBF)
      else if n < 0xC2 then (0, 0x80, 0xBF)
      else if n < 0xE0 then (2, 0x80, 0xBF)
      else if n = 0xE0 then (3, 0xA0, 0xBF)
      else if n = 0xED then (3, 0x80, 0x9F)
      else if n < 0xF0 then (3, 0x80, 0xBF)
      else if n = 0xF0 then (4, 0x90, 0xBF)
      else if n < 0xF4 then (4, 0x80, 0xBF)
      else if n = 0xF4 then (4, 0x80, 0x8F)
      else (0, 0x80, 0xBF))"

text \<open>The length of the well-formed rune a string starts with, 0 if there is none.\<close>

definition rune_len :: "string \<Rightarrow> nat" where
  "rune_len s =
     (case map of_char s of
        [] \<Rightarrow> 0
      | n # ns \<Rightarrow>
          (case rune_first n of (len, lo, hi) \<Rightarrow>
             if len \<le> 1 then len
             else if len \<le> length s \<and> lo \<le> hd ns \<and> hd ns \<le> hi \<and>
                     list_all (\<lambda>m. 0x80 \<le> m \<and> m \<le> 0xBF) (take (len - 2) (tl ns))
             then len else 0))"

lemma rune_len_le: "rune_len s \<le> length s"
  by (simp add: rune_len_def rune_first_def split: list.split prod.split) (auto simp: Suc_le_eq split: if_splits)

section \<open>Repairing a string\<close>

definition RuneError :: string where
  "RuneError = map char_of [0xEF :: nat, 0xBF, 0xBD]"

function to_utf8 :: "string \<Rightarrow> string" where
  "to_utf8 s =
     (if s = [] then []
      else if rune_len s = 0 then RuneError @ to_utf8 (tl s)
      else take (rune_len s) s @ to_utf8 (drop (rune_len s) s))"
  by pat_completeness auto
termination by (relation "measure length") (auto simp: Suc_le_eq)

declare to_utf8.simps [simp del]

function valid_utf8 :: "string \<Rightarrow> bool" where
  "valid_utf8 s \<longleftrightarrow> (if s = [] then True else if rune_len s = 0 then False else valid_utf8 (drop (rune_len s) s))"
  by pat_completeness auto
termination by (relation "measure length") auto

declare valid_utf8.simps [simp del]

lemma to_utf8_Nil [simp]: "to_utf8 [] = []"
  by (subst to_utf8.simps) simp

lemma to_utf8_eq_Nil [simp]: "to_utf8 s = [] \<longleftrightarrow> s = []"
  by (subst to_utf8.simps) (auto simp: RuneError_def)

text \<open>Valid strings are left alone.\<close>

lemma to_utf8_valid: "valid_utf8 s \<Longrightarrow> to_utf8 s = s"
proof (induction s rule: valid_utf8.induct)
  case (1 s)
  then show ?case by (cases "s = []") (use valid_utf8.simps [of s] in \<open>auto simp: to_utf8.simps [of s]\<close>)
qed

lemma valid_Nil [simp]: "valid_utf8 []"
  by (subst valid_utf8.simps) simp

lemma rune_len_ascii [simp]: "of_char c < (0x80 :: nat) \<Longrightarrow> rune_len (c # s) = 1"
  by (simp add: rune_len_def rune_first_def)

lemma valid_ascii: "list_all (\<lambda>c. of_char c < (0x80 :: nat)) s \<Longrightarrow> valid_utf8 s"
proof (induction s)
  case (Cons c s)
  then show ?case by (subst valid_utf8.simps) simp
qed simp

text \<open>Two different bytes that start no rune.\<close>

lemma to_utf8_invalid: "to_utf8 [char_of (0xFF :: nat)] = RuneError" "to_utf8 [char_of (0xFE :: nat)] = RuneError"
  by (subst to_utf8.simps, simp add: rune_len_def rune_first_def)+

end
