(* ===== verification/Postgres.thy ===== *)
theory Postgres
  imports StoreTypes GoTime GoUtf8 "HOL-Library.Monad_Syntax"
begin

text \<open>
  \<open>store/postgres.go\<close>: the metadata store as a client of database procedures.  The procedures are
  not in the repository: the database is a parameter that takes a procedure's name and the JSON
  object it is called with.  Modelled are the requests, the envelope and its errors, and the decoding of
  each answer.
\<close>

section \<open>JSON\<close>

text \<open>
  The part of \<open>encoding/json\<close> the store uses, on values: objects with distinct keys, as the database
  returns them; an instant is the string of its RFC 3339 rendering.  Decoding goes into zero values:
  a missing or null field stays zero, an unknown field is skipped, a value of another type is an
  error.  Field names are matched as spelled; the library's fallback to other capitalisations is left out.
  A string of an answer is the decoded one; a string of a request is repaired when it is written (below).
\<close>

datatype json =
    JNull
  | JBool bool
  | JInt int
  | JFraction
  | JStr string
  | JTime time
  | JArr "json list"
  | JObj "(string \<times> json) list"

type_synonym fields = "(string \<times> json) list"

definition dec_fields :: "json \<Rightarrow> fields option" where
  "dec_fields v = (case v of JObj kvs \<Rightarrow> Some kvs | JNull \<Rightarrow> Some [] | _ \<Rightarrow> None)"

definition dec_str :: "string \<Rightarrow> fields \<Rightarrow> string option" where
  "dec_str k kvs = (case map_of kvs k of None \<Rightarrow> Some [] | Some JNull \<Rightarrow> Some [] | Some (JStr s) \<Rightarrow> Some s | _ \<Rightarrow> None)"

definition dec_int :: "string \<Rightarrow> fields \<Rightarrow> int option" where
  "dec_int k kvs =
     (case map_of kvs k of
        None \<Rightarrow> Some 0
      | Some JNull \<Rightarrow> Some 0
      | Some (JInt n) \<Rightarrow> if - (2 ^ 63) \<le> n \<and> n < 2 ^ 63 then Some n else None
      | _ \<Rightarrow> None)"

definition dec_bool :: "string \<Rightarrow> fields \<Rightarrow> bool option" where
  "dec_bool k kvs = (case map_of kvs k of None \<Rightarrow> Some False | Some JNull \<Rightarrow> Some False | Some (JBool b) \<Rightarrow> Some b | _ \<Rightarrow> None)"

text \<open>A pointer to an instant, and an instant; the zero instant is \<open>0\<close>.\<close>

definition dec_time_ptr :: "string \<Rightarrow> fields \<Rightarrow> time option option" where
  "dec_time_ptr k kvs =
     (case map_of kvs k of
        None \<Rightarrow> Some None
      | Some JNull \<Rightarrow> Some None
      | Some (JTime t) \<Rightarrow> Some (Some t)
      | Some (JStr s) \<Rightarrow> map_option Some (parse_rfc3339 s)
      | _ \<Rightarrow> None)"

definition dec_time :: "string \<Rightarrow> fields \<Rightarrow> time option" where
  "dec_time k kvs = map_option (\<lambda>p. case p of None \<Rightarrow> 0 | Some t \<Rightarrow> t) (dec_time_ptr k kvs)"

definition dec_list :: "(json \<Rightarrow> 'a option) \<Rightarrow> string \<Rightarrow> fields \<Rightarrow> 'a list option" where
  "dec_list f k kvs =
     (case map_of kvs k of None \<Rightarrow> Some [] | Some JNull \<Rightarrow> Some [] | Some (JArr vs) \<Rightarrow> those (map f vs) | _ \<Rightarrow> None)"

definition dec_ptr :: "(json \<Rightarrow> 'a option) \<Rightarrow> string \<Rightarrow> fields \<Rightarrow> 'a option option" where
  "dec_ptr f k kvs =
     (case map_of kvs k of None \<Rightarrow> Some None | Some JNull \<Rightarrow> Some None | Some v \<Rightarrow> map_option Some (f v))"

section \<open>Rows\<close>

definition dec_manifest_file :: "json \<Rightarrow> manifest_file option" where
  "dec_manifest_file v = do {
     kvs \<leftarrow> dec_fields v;
     name \<leftarrow> dec_str ''name'' kvs; mediaType \<leftarrow> dec_str ''mediaType'' kvs; size \<leftarrow> dec_int ''size'' kvs;
     Some \<lparr>mf_Name = name, mf_MediaType = mediaType, mf_Size = size\<rparr> }"

definition dec_document :: "json \<Rightarrow> document option" where
  "dec_document v = do {
     kvs \<leftarrow> dec_fields v;
     i \<leftarrow> dec_str ''id'' kvs; owner \<leftarrow> dec_str ''owner'' kvs; tenant \<leftarrow> dec_str ''tenant_id'' kvs;
     kind \<leftarrow> dec_str ''kind'' kvs; parent \<leftarrow> dec_str ''parent_id'' kvs; filename \<leftarrow> dec_str ''filename'' kvs;
     ref \<leftarrow> dec_str ''storage_ref'' kvs; hash \<leftarrow> dec_str ''content_hash'' kvs; mime \<leftarrow> dec_str ''mime'' kvs;
     size \<leftarrow> dec_int ''size'' kvs; status \<leftarrow> dec_str ''status'' kvs; keyRef \<leftarrow> dec_str ''encryption_key_ref'' kvs;
     pclass \<leftarrow> dec_str ''preservation_class'' kvs; rclass \<leftarrow> dec_str ''retention_class'' kvs;
     until \<leftarrow> dec_time_ptr ''retention_until'' kvs; hold \<leftarrow> dec_bool ''legal_hold'' kvs;
     signed_at \<leftarrow> dec_time_ptr ''signed_at'' kvs; frozen \<leftarrow> dec_bool ''result_frozen'' kvs;
     inner \<leftarrow> dec_list dec_manifest_file ''inner_files'' kvs;
     created \<leftarrow> dec_time ''created_at'' kvs; updated \<leftarrow> dec_time ''updated_at'' kvs;
     Some \<lparr>d_ID = i, d_Owner = owner, d_TenantID = tenant, d_Kind = kind, d_ParentID = parent, d_Filename = filename,
           d_StorageRef = ref, d_ContentHash = hash, d_Mime = mime, d_Size = size, d_Status = status,
           d_EncryptionKeyRef = keyRef, d_PreservationClass = pclass, d_RetentionClass = rclass,
           d_RetentionUntil = until, d_LegalHold = hold, d_SignedAt = signed_at, d_ResultFrozen = frozen,
           d_InnerFiles = inner, d_CreatedAt = created, d_UpdatedAt = updated\<rparr> }"

definition dec_chain :: "json \<Rightarrow> chain option" where
  "dec_chain v = do {
     kvs \<leftarrow> dec_fields v;
     root \<leftarrow> dec_str ''chain_root_id'' kvs; i \<leftarrow> dec_str ''id'' kvs; kind \<leftarrow> dec_str ''kind'' kvs;
     status \<leftarrow> dec_str ''status'' kvs; filename \<leftarrow> dec_str ''filename'' kvs; mime \<leftarrow> dec_str ''mime'' kvs;
     size \<leftarrow> dec_int ''size'' kvs; until \<leftarrow> dec_time_ptr ''retention_until'' kvs; hold \<leftarrow> dec_bool ''legal_hold'' kvs;
     pclass \<leftarrow> dec_str ''preservation_class'' kvs; has_sigs \<leftarrow> dec_bool ''has_signatures'' kvs;
     platform \<leftarrow> dec_bool ''platform_signed'' kvs; frozen \<leftarrow> dec_bool ''result_frozen'' kvs;
     inner \<leftarrow> dec_list dec_manifest_file ''inner_files'' kvs;
     started \<leftarrow> dec_time ''chain_created_at'' kvs; created \<leftarrow> dec_time ''created_at'' kvs; updated \<leftarrow> dec_time ''updated_at'' kvs;
     Some \<lparr>c_ChainRootID = root, c_ID = i, c_Kind = kind, c_Status = status, c_Filename = filename, c_Mime = mime,
           c_Size = size, c_RetentionUntil = until, c_LegalHold = hold, c_PreservationClass = pclass,
           c_HasSignatures = has_sigs, c_PlatformSigned = platform, c_ResultFrozen = frozen, c_InnerFiles = inner,
           c_ChainCreatedAt = started, c_CreatedAt = created, c_UpdatedAt = updated\<rparr> }"

definition dec_history :: "json \<Rightarrow> history_chain option" where
  "dec_history v = do {
     kvs \<leftarrow> dec_fields v;
     root \<leftarrow> dec_str ''chain_root_id'' kvs; i \<leftarrow> dec_str ''id'' kvs; kind \<leftarrow> dec_str ''kind'' kvs;
     status \<leftarrow> dec_str ''status'' kvs; filename \<leftarrow> dec_str ''filename'' kvs; mime \<leftarrow> dec_str ''mime'' kvs;
     size \<leftarrow> dec_int ''size'' kvs; has_sigs \<leftarrow> dec_bool ''has_signatures'' kvs; platform \<leftarrow> dec_bool ''platform_signed'' kvs;
     started \<leftarrow> dec_time ''chain_created_at'' kvs; destroyed \<leftarrow> dec_time ''destroyed_at'' kvs;
     Some \<lparr>h_ChainRootID = root, h_ID = i, h_Kind = kind, h_Status = status, h_Filename = filename, h_Mime = mime,
           h_Size = size, h_HasSignatures = has_sigs, h_PlatformSigned = platform, h_ChainCreatedAt = started,
           h_DestroyedAt = destroyed\<rparr> }"

definition dec_purged :: "json \<Rightarrow> purged_ref option" where
  "dec_purged v = do {
     kvs \<leftarrow> dec_fields v;
     i \<leftarrow> dec_str ''id'' kvs; ref \<leftarrow> dec_str ''storageRef'' kvs; keyRef \<leftarrow> dec_str ''encryptionKeyRef'' kvs;
     Some \<lparr>p_ID = i, p_StorageRef = ref, p_EncryptionKeyRef = keyRef\<rparr> }"

section \<open>Requests\<close>

text \<open>
  The object a procedure is called with.  A nil slice and an empty one are not told apart: both
  are the empty array here (the code sends null for the first).
\<close>

type_synonym body = "string \<rightharpoonup> json"

definition putOpt :: "string \<Rightarrow> string \<Rightarrow> body \<Rightarrow> body" where
  "putOpt key val b = (if val \<noteq> [] then b(key \<mapsto> JStr val) else b)"

definition putTime :: "string \<Rightarrow> time option \<Rightarrow> body \<Rightarrow> body" where
  "putTime key val b = (case val of None \<Rightarrow> b | Some t \<Rightarrow> b(key \<mapsto> JTime t))"

definition putCaller :: "caller \<Rightarrow> body \<Rightarrow> body" where
  "putCaller c b =
     putOpt ''caller_tenant'' (cl_Tenant c) (putOpt ''caller_product'' (cl_Product c) (putOpt ''caller_serial'' (cl_Serial c) b))"

text \<open>The limit and the cursor of a listing.\<close>

definition putLimit :: "int \<Rightarrow> body \<Rightarrow> body" where
  "putLimit limit b = (if limit > 0 then b(''limit'' \<mapsto> JInt limit) else b)"

definition enc_strs :: "string list \<Rightarrow> json" where
  "enc_strs ss = JArr (map JStr ss)"

definition enc_manifest_file :: "manifest_file \<Rightarrow> json" where
  "enc_manifest_file f = JObj ([(''name'', JStr (mf_Name f))] @
     (if mf_MediaType f \<noteq> [] then [(''mediaType'', JStr (mf_MediaType f))] else []) @
     (if mf_Size f \<noteq> 0 then [(''size'', JInt (mf_Size f))] else []))"

definition enc_manifest :: "manifest_file list \<Rightarrow> json" where
  "enc_manifest fs = JArr (map enc_manifest_file fs)"

definition putManifest :: "manifest_file list \<Rightarrow> body \<Rightarrow> body" where
  "putManifest fs b = (if fs \<noteq> [] then b(''inner_files'' \<mapsto> enc_manifest fs) else b)"

definition insert_body :: "insert_input \<Rightarrow> body" where
  "insert_body inp =
     putManifest (ii_InnerFiles inp)
    (putOpt ''preservation_class'' (ii_PreservationClass inp)
    (putOpt ''encryption_key_ref'' (ii_EncryptionKeyRef inp)
    (putOpt ''status'' (ii_Status inp)
    (putOpt ''storage_ref'' (ii_StorageRef inp)
    (putOpt ''filename'' (ii_Filename inp)
    (putOpt ''parent_id'' (ii_ParentID inp)
    (putOpt ''kind'' (ii_Kind inp)
    (putOpt ''tenant_id'' (ii_TenantID inp)
    (putOpt ''retention_class'' (ii_RetentionClass inp)
    (putOpt ''owner_kind'' (ii_OwnerKind inp)
    (putTime ''retention_until'' (ii_RetentionUntil inp)
      [''owner'' \<mapsto> JStr (ii_Owner inp), ''content_hash'' \<mapsto> JStr (ii_ContentHash inp),
       ''mime'' \<mapsto> JStr (ii_Mime inp), ''size'' \<mapsto> JInt (ii_Size inp)])))))))))))"

definition replace_body :: "replace_input \<Rightarrow> body" where
  "replace_body inp =
     putOpt ''preservation_class'' (ri_PreservationClass inp)
      [''id'' \<mapsto> JStr (ri_ID inp), ''expected_hash'' \<mapsto> JStr (ri_ExpectedHash inp),
       ''storage_ref'' \<mapsto> JStr (ri_StorageRef inp), ''content_hash'' \<mapsto> JStr (ri_ContentHash inp),
       ''size'' \<mapsto> JInt (ri_Size inp), ''encryption_key_ref'' \<mapsto> JStr (ri_EncryptionKeyRef inp)]"

definition bundle_body :: "bundle_input \<Rightarrow> body" where
  "bundle_body inp =
     putManifest (bi_InnerFiles inp)
    (putOpt ''preservation_class'' (bi_PreservationClass inp)
    (putOpt ''encryption_key_ref'' (bi_EncryptionKeyRef inp)
    (putOpt ''tenant_id'' (bi_TenantID inp)
      [''caller_sub'' \<mapsto> JStr (bi_Owner inp), ''source_ids'' \<mapsto> enc_strs (bi_SourceIDs inp),
       ''filename'' \<mapsto> JStr (bi_Filename inp), ''storage_ref'' \<mapsto> JStr (bi_StorageRef inp),
       ''content_hash'' \<mapsto> JStr (bi_ContentHash inp), ''mime'' \<mapsto> JStr (bi_Mime inp),
       ''size'' \<mapsto> JInt (bi_Size inp), ''retention_until'' \<mapsto> JTime (bi_RetentionUntil inp)])))"

definition rebundle_body :: "rebundle_input \<Rightarrow> body" where
  "rebundle_body inp =
     (let b = [''caller_sub'' \<mapsto> JStr (rb_Owner inp), ''doc_id'' \<mapsto> JStr (rb_ID inp),
               ''expected_hash'' \<mapsto> JStr (rb_ExpectedHash inp), ''storage_ref'' \<mapsto> JStr (rb_StorageRef inp),
               ''content_hash'' \<mapsto> JStr (rb_ContentHash inp), ''size'' \<mapsto> JInt (rb_Size inp),
               ''encryption_key_ref'' \<mapsto> JStr (rb_EncryptionKeyRef inp), ''inner_files'' \<mapsto> enc_manifest (rb_InnerFiles inp)]
      in if rb_AbsorbSourceIDs inp \<noteq> [] then b(''absorb_source_ids'' \<mapsto> enc_strs (rb_AbsorbSourceIDs inp)) else b)"

definition grant_body :: "grant_input \<Rightarrow> body" where
  "grant_body inp =
     putOpt ''granted_by'' (gi_GrantedBy inp) (putOpt ''tenant_id'' (gi_TenantID inp)
      (let b = [''doc_id'' \<mapsto> JStr (gi_DocID inp), ''principal_kind'' \<mapsto> JStr (gi_PrincipalKind inp),
                ''principal_id'' \<mapsto> JStr (gi_PrincipalID inp)]
       in if gi_Rights inp \<noteq> [] then b(''rights'' \<mapsto> enc_strs (gi_Rights inp)) else b))"

text \<open>A request by key and caller: the four reads and the delete address a row this way.\<close>

definition caller_body :: "string \<Rightarrow> string \<Rightarrow> caller \<Rightarrow> body" where
  "caller_body key k c = putCaller c [key \<mapsto> JStr k, ''caller_sub'' \<mapsto> JStr (cl_Sub c)]"

definition list_body :: "caller \<Rightarrow> int \<Rightarrow> string \<Rightarrow> body" where
  "list_body c limit after = putOpt ''after'' after (putLimit limit (putCaller c [''caller_sub'' \<mapsto> JStr (cl_Sub c)]))"

definition list_chains_body :: "caller \<Rightarrow> int \<Rightarrow> string \<Rightarrow> bool \<Rightarrow> body" where
  "list_chains_body c limit after incl =
     (if incl then (list_body c limit after)(''include_expired'' \<mapsto> JBool True) else list_body c limit after)"

definition history_body :: "string \<Rightarrow> int \<Rightarrow> string \<Rightarrow> body" where
  "history_body owner limit after = putOpt ''after'' after (putLimit limit [''caller_sub'' \<mapsto> JStr owner])"

section \<open>Calls\<close>

text \<open>What calling a procedure ends in: a row, whose value is \<open>None\<close> when it is not JSON; a database
  error with its code and message, the message parsed likewise; or a failure to reach it.\<close>

datatype answer =
    Row "json option"
  | Raised string string "json option"
  | Unreached string

type_synonym 'd database = "string \<Rightarrow> body \<Rightarrow> 'd \<Rightarrow> answer \<times> 'd"

record pg_envelope =
  pe_Result :: string
  pe_Data :: "json option"
  pe_Code :: string
  pe_Message :: string

definition dec_envelope :: "json \<Rightarrow> pg_envelope option" where
  "dec_envelope v = do {
     kvs \<leftarrow> dec_fields v;
     rslt \<leftarrow> dec_str ''result'' kvs; code \<leftarrow> dec_str ''code'' kvs; msg \<leftarrow> dec_str ''message'' kvs;
     Some \<lparr>pe_Result = rslt, pe_Data = map_of kvs ''data'', pe_Code = code, pe_Message = msg\<rparr> }"

definition mapCode :: "string \<Rightarrow> string \<Rightarrow> string \<Rightarrow> err" where
  "mapCode proc code msg =
     (if has_suffix code '':not_found'' then ErrNotFound
      else if has_suffix code '':legal_hold'' then ErrLegalHold
      else if has_suffix code '':chain_advanced'' then ErrChainAdvanced
      else if has_suffix code '':chain_live'' then ErrChainLive
      else if has_suffix code '':not_bundleable'' then ErrNotBundleable
      else ErrOther (''store: '' @ proc @ '': '' @ code @ '': '' @ msg))"

text \<open>The payload of a successful answer, which may be missing, or the error.\<close>

definition pg_answer :: "string \<Rightarrow> answer \<Rightarrow> err + json option" where
  "pg_answer proc a =
     (case a of
        Unreached msg \<Rightarrow> Inl (ErrOther (''store: '' @ proc @ '': '' @ msg))
      | Raised code msg parsed \<Rightarrow>
          (case Option.bind parsed dec_envelope of
             Some env \<Rightarrow>
               if code = ''P0001'' \<and> pe_Result env = ''error'' then Inl (mapCode proc (pe_Code env) (pe_Message env))
               else Inl (ErrOther (''store: '' @ proc @ '': '' @ msg))
           | None \<Rightarrow> Inl (ErrOther (''store: '' @ proc @ '': '' @ msg)))
      | Row v \<Rightarrow>
          (case Option.bind v dec_envelope of
             None \<Rightarrow> Inl (ErrOther (''store: '' @ proc @ '': decode result''))
           | Some env \<Rightarrow>
               if pe_Result env \<noteq> ''success'' then Inl (mapCode proc (pe_Code env) (pe_Message env))
               else Inr (pe_Data env)))"

text \<open>
  \<open>json.Marshal\<close> on the values of a request: what is not valid UTF-8 in a string is replaced.  The error
  of \<open>json.Marshal\<close> cannot occur: all values are strings, integers, booleans, and lists and objects of them.
\<close>

primrec marshal_value :: "json \<Rightarrow> json" where
  "marshal_value JNull = JNull"
| "marshal_value (JBool b) = JBool b"
| "marshal_value (JInt n) = JInt n"
| "marshal_value JFraction = JFraction"
| "marshal_value (JStr s) = JStr (to_utf8 s)"
| "marshal_value (JTime t) = JTime t"
| "marshal_value (JArr vs) = JArr (map marshal_value vs)"
| "marshal_value (JObj kvs) = JObj (map (map_prod id marshal_value) kvs)"

definition Marshal :: "body \<Rightarrow> body" where
  "Marshal b = (\<lambda>k. map_option marshal_value (b k))"

definition pg_call :: "'d database \<Rightarrow> string \<Rightarrow> body \<Rightarrow> 'd \<Rightarrow> (json option, 'd) res" where
  "pg_call db proc b s = (case db proc (Marshal b) s of (a, s') \<Rightarrow> (pg_answer proc a, s'))"

text \<open>Call, then decode the payload; the two ways an operation can go on from a call.\<close>

definition pg_query :: "'d database \<Rightarrow> string \<Rightarrow> body \<Rightarrow> string \<Rightarrow> (json \<Rightarrow> 'a option) \<Rightarrow> 'd \<Rightarrow> ('a, 'd) res" where
  "pg_query db proc b what decode s =
     (case pg_call db proc b s of
        (Inl e, s') \<Rightarrow> (Inl e, s')
      | (Inr data, s') \<Rightarrow>
          (case Option.bind data decode of
             None \<Rightarrow> (Inl (ErrOther (''store: '' @ what @ '': decode'')), s')
           | Some x \<Rightarrow> (Inr x, s')))"

definition pg_exec :: "'d database \<Rightarrow> string \<Rightarrow> body \<Rightarrow> 'd \<Rightarrow> (unit, 'd) res" where
  "pg_exec db proc b s = (case pg_call db proc b s of (Inl e, s') \<Rightarrow> (Inl e, s') | (Inr data, s') \<Rightarrow> (Inr (), s'))"

section \<open>The store's operations\<close>

definition dec_id :: "json \<Rightarrow> string option" where
  "dec_id v = do { kvs \<leftarrow> dec_fields v; dec_str ''id'' kvs }"

definition pg_Insert :: "'d database \<Rightarrow> insert_input \<Rightarrow> 'd \<Rightarrow> (string, 'd) res" where
  "pg_Insert db inp = pg_query db ''document.insert'' (insert_body inp) ''insert'' dec_id"

text \<open>The replaced row, if the answer holds one, and where the superseded bytes are.\<close>

definition dec_replaced :: "string \<Rightarrow> json \<Rightarrow> (document option \<times> purged_ref) option" where
  "dec_replaced k v = do {
     kvs \<leftarrow> dec_fields v;
     doc \<leftarrow> dec_ptr dec_document ''document'' kvs;
     ref \<leftarrow> dec_str ''oldStorageRef'' kvs; keyRef \<leftarrow> dec_str ''oldEncryptionKeyRef'' kvs;
     Some (doc, \<lparr>p_ID = k, p_StorageRef = ref, p_EncryptionKeyRef = keyRef\<rparr>) }"

definition pg_ReplaceContainerBlob :: "'d database \<Rightarrow> replace_input \<Rightarrow> 'd \<Rightarrow> (document option \<times> purged_ref, 'd) res" where
  "pg_ReplaceContainerBlob db inp =
     pg_query db ''document.replace_container_blob'' (replace_body inp) ''replace_container_blob'' (dec_replaced (ri_ID inp))"

definition dec_bundled :: "json \<Rightarrow> (string \<times> purged_ref list) option" where
  "dec_bundled v = do {
     kvs \<leftarrow> dec_fields v; i \<leftarrow> dec_str ''id'' kvs; absorbed \<leftarrow> dec_list dec_purged ''absorbed'' kvs; Some (i, absorbed) }"

definition pg_Bundle :: "'d database \<Rightarrow> bundle_input \<Rightarrow> 'd \<Rightarrow> (string \<times> purged_ref list, 'd) res" where
  "pg_Bundle db inp = pg_query db ''document.bundle_sources'' (bundle_body inp) ''bundle_sources'' dec_bundled"

definition dec_rebundled :: "string \<Rightarrow> json \<Rightarrow> (document option \<times> purged_ref \<times> purged_ref list) option" where
  "dec_rebundled k v = do {
     kvs \<leftarrow> dec_fields v; r \<leftarrow> dec_replaced k v; absorbed \<leftarrow> dec_list dec_purged ''absorbed'' kvs;
     Some (fst r, snd r, absorbed) }"

definition pg_Rebundle :: "'d database \<Rightarrow> rebundle_input \<Rightarrow> 'd \<Rightarrow> (document option \<times> purged_ref \<times> purged_ref list, 'd) res" where
  "pg_Rebundle db inp =
     pg_query db ''document.rebundle_container'' (rebundle_body inp) ''rebundle_container'' (dec_rebundled (rb_ID inp))"

definition pg_Grant :: "'d database \<Rightarrow> grant_input \<Rightarrow> 'd \<Rightarrow> (unit, 'd) res" where
  "pg_Grant db inp = pg_exec db ''document.grant_acl'' (grant_body inp)"

definition pg_Get :: "'d database \<Rightarrow> string \<Rightarrow> caller \<Rightarrow> 'd \<Rightarrow> (document, 'd) res" where
  "pg_Get db k c = pg_query db ''document.get'' (caller_body ''id'' k c) ''get'' dec_document"

definition pg_GetContainerByParent :: "'d database \<Rightarrow> string \<Rightarrow> caller \<Rightarrow> 'd \<Rightarrow> (document, 'd) res" where
  "pg_GetContainerByParent db k c =
     pg_query db ''document.get_container_by_parent'' (caller_body ''parent_id'' k c) ''get_container_by_parent'' dec_document"

definition pg_GetLatestSignedPdfByChain :: "'d database \<Rightarrow> string \<Rightarrow> caller \<Rightarrow> 'd \<Rightarrow> (document, 'd) res" where
  "pg_GetLatestSignedPdfByChain db k c =
     pg_query db ''document.get_latest_signed_pdf_by_chain'' (caller_body ''parent_id'' k c)
       ''get_latest_signed_pdf_by_chain'' dec_document"

text \<open>A field that holds a list of rows; a null row in it would be a nil pointer, which no procedure returns.\<close>

definition dec_rows :: "(json \<Rightarrow> 'a option) \<Rightarrow> string \<Rightarrow> json \<Rightarrow> 'a list option" where
  "dec_rows f k v = do { kvs \<leftarrow> dec_fields v; dec_list f k kvs }"

definition pg_List :: "'d database \<Rightarrow> caller \<Rightarrow> int \<Rightarrow> string \<Rightarrow> 'd \<Rightarrow> (document list, 'd) res" where
  "pg_List db c limit after = pg_query db ''document.list'' (list_body c limit after) ''list'' (dec_rows dec_document ''documents'')"

definition pg_ListChains :: "'d database \<Rightarrow> caller \<Rightarrow> int \<Rightarrow> string \<Rightarrow> bool \<Rightarrow> 'd \<Rightarrow> (chain list, 'd) res" where
  "pg_ListChains db c limit after incl =
     pg_query db ''document.list_chains'' (list_chains_body c limit after incl) ''list_chains'' (dec_rows dec_chain ''chains'')"

text \<open>An answer without a chain is reported as not found.\<close>

definition dec_chain_ptr :: "json \<Rightarrow> chain option option" where
  "dec_chain_ptr v = do { kvs \<leftarrow> dec_fields v; dec_ptr dec_chain ''chain'' kvs }"

definition pg_GetChain :: "'d database \<Rightarrow> caller \<Rightarrow> string \<Rightarrow> 'd \<Rightarrow> (chain, 'd) res" where
  "pg_GetChain db c k s =
     (case pg_query db ''document.get_chain'' (caller_body ''id'' k c) ''get_chain'' dec_chain_ptr s of
        (Inl e, s') \<Rightarrow> (Inl e, s')
      | (Inr None, s') \<Rightarrow> (Inl ErrNotFound, s')
      | (Inr (Some ch), s') \<Rightarrow> (Inr ch, s'))"

definition pg_ListHistory :: "'d database \<Rightarrow> string \<Rightarrow> int \<Rightarrow> string \<Rightarrow> 'd \<Rightarrow> (history_chain list, 'd) res" where
  "pg_ListHistory db owner limit after =
     pg_query db ''document.list_history'' (history_body owner limit after) ''list_history'' (dec_rows dec_history ''chains'')"

definition dec_removed :: "json \<Rightarrow> int option" where
  "dec_removed v = do { kvs \<leftarrow> dec_fields v; dec_int ''removed'' kvs }"

definition pg_SweepHistory :: "'d database \<Rightarrow> time \<Rightarrow> int \<Rightarrow> 'd \<Rightarrow> (int, 'd) res" where
  "pg_SweepHistory db before limit =
     pg_query db ''document.sweep_history'' (putLimit limit [''before'' \<mapsto> JTime before]) ''sweep_history'' dec_removed"

definition pg_DeleteHistoryChain :: "'d database \<Rightarrow> string \<Rightarrow> string \<Rightarrow> 'd \<Rightarrow> (unit, 'd) res" where
  "pg_DeleteHistoryChain db owner root =
     pg_exec db ''document.delete_history_chain'' [''chain_root_id'' \<mapsto> JStr root, ''caller_sub'' \<mapsto> JStr owner]"

definition pg_SetStatus :: "'d database \<Rightarrow> string \<Rightarrow> string \<Rightarrow> string \<Rightarrow> 'd \<Rightarrow> (unit, 'd) res" where
  "pg_SetStatus db k owner status =
     pg_exec db ''document.set_status'' [''id'' \<mapsto> JStr k, ''caller'' \<mapsto> JStr owner, ''status'' \<mapsto> JStr status]"

definition pg_SetResultFreeze :: "'d database \<Rightarrow> string \<Rightarrow> bool \<Rightarrow> 'd \<Rightarrow> (unit, 'd) res" where
  "pg_SetResultFreeze db k frozen =
     pg_exec db ''document.set_result_freeze'' [''id'' \<mapsto> JStr k, ''frozen'' \<mapsto> JBool frozen]"

text \<open>A null instant decodes to the zero time.\<close>

definition dec_retention :: "json \<Rightarrow> (time \<times> int) option" where
  "dec_retention v = do {
     kvs \<leftarrow> dec_fields v; until \<leftarrow> dec_time_ptr ''retentionUntil'' kvs; live \<leftarrow> dec_int ''liveRows'' kvs;
     Some (case until of None \<Rightarrow> 0 | Some t \<Rightarrow> t, live) }"

definition pg_ChainRetention :: "'d database \<Rightarrow> string \<Rightarrow> 'd \<Rightarrow> (time \<times> int, 'd) res" where
  "pg_ChainRetention db k = pg_query db ''document.chain_retention'' [''id'' \<mapsto> JStr k] ''chain_retention'' dec_retention"

definition pg_ExtendRetention :: "'d database \<Rightarrow> string \<Rightarrow> string \<Rightarrow> time \<Rightarrow> 'd \<Rightarrow> (unit, 'd) res" where
  "pg_ExtendRetention db k owner until =
     pg_exec db ''document.extend_retention''
       [''id'' \<mapsto> JStr k, ''caller'' \<mapsto> JStr owner, ''retention_until'' \<mapsto> JTime until]"

definition pg_RemoveAccess :: "'d database \<Rightarrow> string \<Rightarrow> caller \<Rightarrow> 'd \<Rightarrow> (purged_ref list, 'd) res" where
  "pg_RemoveAccess db k c =
     pg_query db ''document.remove_access'' (caller_body ''doc_id'' k c) ''remove_access'' (dec_rows dec_purged ''purged'')"

definition pg_SweepRetention :: "'d database \<Rightarrow> time \<Rightarrow> int \<Rightarrow> 'd \<Rightarrow> (purged_ref list, 'd) res" where
  "pg_SweepRetention db now limit =
     pg_query db ''document.sweep_retention'' (putLimit limit [''now'' \<mapsto> JTime now]) ''sweep_retention'' (dec_rows dec_purged ''purged'')"

section \<open>What the requests and the errors carry\<close>

lemma putOpt_apply: "putOpt key val b k = (if k = key \<and> val \<noteq> [] then Some (JStr val) else b k)"
  by (simp add: putOpt_def)

lemma putTime_apply: "putTime key val b k = (if k = key \<and> val \<noteq> None then Some (JTime (the val)) else b k)"
  by (simp add: putTime_def split: option.split)

lemma putManifest_apply:
  "putManifest fs b k = (if k = ''inner_files'' \<and> fs \<noteq> [] then Some (enc_manifest fs) else b k)"
  by (simp add: putManifest_def)

lemma putLimit_apply: "putLimit limit b k = (if k = ''limit'' \<and> limit > 0 then Some (JInt limit) else b k)"
  by (simp add: putLimit_def)

lemma Marshal_simps [simp]:
  "Marshal Map.empty = Map.empty" "Marshal (b(k \<mapsto> v)) = (Marshal b)(k \<mapsto> marshal_value v)"
  "Marshal (putOpt key val b) = putOpt key (to_utf8 val) (Marshal b)"
  "Marshal (putTime key t b) = putTime key t (Marshal b)"
  "Marshal (putLimit limit b) = putLimit limit (Marshal b)"
  by (auto simp: Marshal_def putOpt_def putTime_def putLimit_def split: option.split)

text \<open>A repaired list of files, and of strings.\<close>

definition file_utf8 :: "manifest_file \<Rightarrow> manifest_file" where
  "file_utf8 f = f\<lparr>mf_Name := to_utf8 (mf_Name f), mf_MediaType := to_utf8 (mf_MediaType f)\<rparr>"

lemma marshal_enc [simp]:
  "marshal_value (enc_strs ss) = enc_strs (map to_utf8 ss)"
  "marshal_value (enc_manifest fs) = enc_manifest (map file_utf8 fs)"
  by (simp_all add: enc_strs_def enc_manifest_def enc_manifest_file_def file_utf8_def)

lemma Marshal_putManifest [simp]: "Marshal (putManifest fs b) = putManifest (map file_utf8 fs) (Marshal b)"
  by (simp add: putManifest_def)

lemmas put_apply = putOpt_apply putTime_apply putManifest_apply putLimit_apply

lemma enc_manifest_file_inject: "enc_manifest_file f = enc_manifest_file g \<longleftrightarrow> f = g"
  by (cases f; cases g) (auto simp: enc_manifest_file_def split: if_splits)

lemma enc_manifest_inject [simp]: "enc_manifest fs = enc_manifest gs \<longleftrightarrow> fs = gs"
  by (simp add: enc_manifest_def inj_map_eq_map inj_def enc_manifest_file_inject)

lemma enc_strs_inject [simp]: "enc_strs ss = enc_strs ts \<longleftrightarrow> ss = ts"
  by (simp add: enc_strs_def inj_map_eq_map inj_def)

end
