(* ===== verification/PostgresProps.thy ===== *)
theory PostgresProps
  imports Postgres
begin

text \<open>
  What the database-backed store puts on the wire: each operation is one call of one procedure, and
  the object it is called with determines the operation's arguments.
\<close>

section \<open>Requests determine their arguments\<close>

text \<open>The string at a key of a request.\<close>

definition str_at :: "string \<Rightarrow> body \<Rightarrow> string" where
  "str_at k b = (case b k of Some (JStr s) \<Rightarrow> s | _ \<Rightarrow> [])"

lemma str_at_simps [simp]:
  "str_at k (putOpt key val b) = (if k = key \<and> val \<noteq> [] then val else str_at k b)"
  "str_at k (putTime key t b) = (if k = key \<and> t \<noteq> None then [] else str_at k b)"
  "str_at k (putManifest fs b) = (if k = ''inner_files'' \<and> fs \<noteq> [] then [] else str_at k b)"
  "str_at k (putLimit limit b) = (if k = ''limit'' \<and> limit > 0 then [] else str_at k b)"
  "str_at k (b(key \<mapsto> v)) = (if k = key then (case v of JStr s \<Rightarrow> s | _ \<Rightarrow> []) else str_at k b)"
  "str_at k Map.empty = []"
  by (auto simp: str_at_def put_apply enc_manifest_def)

lemma insert_body_at:
  "str_at ''owner'' (insert_body i) = ii_Owner i" "str_at ''tenant_id'' (insert_body i) = ii_TenantID i"
  "str_at ''kind'' (insert_body i) = ii_Kind i" "str_at ''parent_id'' (insert_body i) = ii_ParentID i"
  "str_at ''filename'' (insert_body i) = ii_Filename i" "str_at ''storage_ref'' (insert_body i) = ii_StorageRef i"
  "str_at ''content_hash'' (insert_body i) = ii_ContentHash i" "str_at ''mime'' (insert_body i) = ii_Mime i"
  "str_at ''status'' (insert_body i) = ii_Status i" "str_at ''encryption_key_ref'' (insert_body i) = ii_EncryptionKeyRef i"
  "str_at ''preservation_class'' (insert_body i) = ii_PreservationClass i" "str_at ''owner_kind'' (insert_body i) = ii_OwnerKind i"
  "str_at ''retention_class'' (insert_body i) = ii_RetentionClass i"
  "insert_body i ''size'' = Some (JInt (ii_Size i))"
  "insert_body i ''retention_until'' = map_option JTime (ii_RetentionUntil i)"
  "insert_body i ''inner_files'' = (if ii_InnerFiles i = [] then None else Some (enc_manifest (ii_InnerFiles i)))"
  by (simp_all add: insert_body_def put_apply map_option_case split: option.split)

lemma insert_body_inject: "insert_body i = insert_body j \<longleftrightarrow> i = j"
proof
  assume eq: "insert_body i = insert_body j"
  then have at: "str_at k (insert_body i) = str_at k (insert_body j)" "insert_body i k = insert_body j k" for k by simp_all
  show "i = j"
  proof (rule insert_input.equality)
    show "ii_RetentionUntil i = ii_RetentionUntil j" using at(2) [of "''retention_until''"]
      by (cases "ii_RetentionUntil i"; cases "ii_RetentionUntil j") (simp_all add: insert_body_at)
    show "ii_InnerFiles i = ii_InnerFiles j" using at(2) [of "''inner_files''"]
      by (simp add: insert_body_at split: if_splits)
    show "ii_Size i = ii_Size j" using at(2) [of "''size''"] by (simp add: insert_body_at)
  qed (use at(1) [of "''owner''"] at(1) [of "''tenant_id''"] at(1) [of "''kind''"] at(1) [of "''parent_id''"]
       at(1) [of "''filename''"] at(1) [of "''storage_ref''"] at(1) [of "''content_hash''"] at(1) [of "''mime''"]
       at(1) [of "''status''"] at(1) [of "''encryption_key_ref''"] at(1) [of "''preservation_class''"]
       at(1) [of "''owner_kind''"] at(1) [of "''retention_class''"] in \<open>simp_all add: insert_body_at\<close>)
qed simp

lemma replace_body_inject: "replace_body i = replace_body j \<longleftrightarrow> i = j"
proof
  assume eq: "replace_body i = replace_body j"
  then have at: "str_at k (replace_body i) = str_at k (replace_body j)" "replace_body i k = replace_body j k" for k by simp_all
  show "i = j"
    by (rule replace_input.equality)
       (use at(1) [of "''id''"] at(1) [of "''expected_hash''"] at(1) [of "''storage_ref''"] at(1) [of "''content_hash''"]
         at(1) [of "''encryption_key_ref''"] at(1) [of "''preservation_class''"] at(2) [of "''size''"]
        in \<open>simp_all add: replace_body_def put_apply split: if_splits\<close>)
qed simp

lemma bundle_body_at:
  "str_at ''caller_sub'' (bundle_body i) = bi_Owner i" "str_at ''tenant_id'' (bundle_body i) = bi_TenantID i"
  "str_at ''filename'' (bundle_body i) = bi_Filename i" "str_at ''storage_ref'' (bundle_body i) = bi_StorageRef i"
  "str_at ''content_hash'' (bundle_body i) = bi_ContentHash i" "str_at ''mime'' (bundle_body i) = bi_Mime i"
  "str_at ''encryption_key_ref'' (bundle_body i) = bi_EncryptionKeyRef i"
  "str_at ''preservation_class'' (bundle_body i) = bi_PreservationClass i"
  by (simp_all add: bundle_body_def split: if_splits)

lemma bundle_body_inject: "bundle_body i = bundle_body j \<longleftrightarrow> i = j"
proof
  assume eq: "bundle_body i = bundle_body j"
  then have at: "str_at k (bundle_body i) = str_at k (bundle_body j)" "bundle_body i k = bundle_body j k" for k by simp_all
  have "bi_InnerFiles i = bi_InnerFiles j"
    using at(2) [of "''inner_files''"] by (simp add: bundle_body_def put_apply split: if_splits)
  moreover have "bi_SourceIDs i = bi_SourceIDs j" "bi_Size i = bi_Size j" "bi_RetentionUntil i = bi_RetentionUntil j"
    using at(2) [of "''source_ids''"] at(2) [of "''size''"] at(2) [of "''retention_until''"]
    by (simp_all add: bundle_body_def put_apply)
  ultimately show "i = j"
    by (intro bundle_input.equality)
       (use at(1) [of "''caller_sub''"] at(1) [of "''tenant_id''"] at(1) [of "''filename''"] at(1) [of "''storage_ref''"]
         at(1) [of "''content_hash''"] at(1) [of "''mime''"] at(1) [of "''encryption_key_ref''"] at(1) [of "''preservation_class''"]
        in \<open>simp_all add: bundle_body_at\<close>)
qed simp

lemma rebundle_body_inject: "rebundle_body i = rebundle_body j \<longleftrightarrow> i = j"
proof
  assume eq: "rebundle_body i = rebundle_body j"
  then have at: "rebundle_body i k = rebundle_body j k" for k by simp
  have "rb_AbsorbSourceIDs i = rb_AbsorbSourceIDs j"
    using at [of "''absorb_source_ids''"] by (simp add: rebundle_body_def Let_def split: if_splits)
  then show "i = j"
    by (intro rebundle_input.equality)
       (use at [of "''caller_sub''"] at [of "''doc_id''"] at [of "''expected_hash''"] at [of "''storage_ref''"]
         at [of "''content_hash''"] at [of "''size''"] at [of "''encryption_key_ref''"] at [of "''inner_files''"]
        in \<open>simp_all add: rebundle_body_def Let_def split: if_splits\<close>)
qed simp

lemma grant_body_inject: "grant_body i = grant_body j \<longleftrightarrow> i = j"
proof
  assume eq: "grant_body i = grant_body j"
  then have at: "str_at k (grant_body i) = str_at k (grant_body j)" "grant_body i k = grant_body j k" for k by simp_all
  have "gi_Rights i = gi_Rights j"
    using at(2) [of "''rights''"] by (simp add: grant_body_def Let_def put_apply split: if_splits)
  then show "i = j"
    by (intro grant_input.equality)
       (use at(1) [of "''doc_id''"] at(1) [of "''principal_kind''"] at(1) [of "''principal_id''"] at(1) [of "''tenant_id''"]
         at(1) [of "''granted_by''"]
        in \<open>simp_all add: grant_body_def Let_def split: if_splits\<close>)
qed simp

lemma caller_body_at:
  assumes "key = ''id'' \<or> key = ''parent_id'' \<or> key = ''doc_id''"
  shows "str_at key (caller_body key k c) = k" "str_at ''caller_sub'' (caller_body key k c) = cl_Sub c"
    "str_at ''caller_serial'' (caller_body key k c) = cl_Serial c"
    "str_at ''caller_product'' (caller_body key k c) = cl_Product c"
    "str_at ''caller_tenant'' (caller_body key k c) = cl_Tenant c"
  using assms by (elim disjE; simp add: caller_body_def putCaller_def)+

lemma caller_body_inject:
  assumes "key = ''id'' \<or> key = ''parent_id'' \<or> key = ''doc_id''"
  shows "caller_body key k c = caller_body key k' c' \<longleftrightarrow> k = k' \<and> c = c'"
proof
  assume "caller_body key k c = caller_body key k' c'"
  then show "k = k' \<and> c = c'"
    using caller_body_at [OF assms, of k c] caller_body_at [OF assms, of k' c'] by (auto intro: caller.equality)
qed simp

text \<open>What a limit asks for: no positive limit is no limit.\<close>

definition asked :: "int \<Rightarrow> int" where
  "asked limit = (if limit > 0 then limit else 0)"

lemma list_body_inject:
  "list_body c limit after = list_body c' limit' after' \<longleftrightarrow> c = c' \<and> asked limit = asked limit' \<and> after = after'"
proof
  assume "list_body c limit after = list_body c' limit' after'"
  then have at: "str_at x (list_body c limit after) = str_at x (list_body c' limit' after')"
      "list_body c limit after x = list_body c' limit' after' x" for x by simp_all
  have "c = c'"
    by (rule caller.equality)
       (use at(1) [of "''caller_sub''"] at(1) [of "''caller_serial''"] at(1) [of "''caller_product''"] at(1) [of "''caller_tenant''"]
        in \<open>simp_all add: list_body_def putCaller_def split: if_splits\<close>)
  then show "c = c' \<and> asked limit = asked limit' \<and> after = after'"
    using at(1) [of "''after''"] at(2) [of "''limit''"]
    by (simp add: list_body_def putCaller_def put_apply asked_def split: if_splits)
qed (auto simp: list_body_def putLimit_def asked_def)

lemma list_chains_body_inject:
  "list_chains_body c limit after incl = list_chains_body c' limit' after' incl' \<longleftrightarrow>
     c = c' \<and> asked limit = asked limit' \<and> after = after' \<and> incl = incl'"
proof
  assume eq: "list_chains_body c limit after incl = list_chains_body c' limit' after' incl'"
  have none: "list_body c limit after ''include_expired'' = None" for c limit after
    by (simp add: list_body_def putCaller_def put_apply)
  have "incl = incl'"
    using fun_cong [OF eq, of "''include_expired''"] none by (simp add: list_chains_body_def split: if_splits)
  moreover have "list_body c limit after = list_body c' limit' after'"
  proof
    fix x show "list_body c limit after x = list_body c' limit' after' x"
      using fun_cong [OF eq, of x] none by (cases "x = ''include_expired''") (simp_all add: list_chains_body_def split: if_splits)
  qed
  ultimately show "c = c' \<and> asked limit = asked limit' \<and> after = after' \<and> incl = incl'" by (simp add: list_body_inject)
qed (auto simp: list_chains_body_def list_body_inject intro!: arg_cong2 [where f = "\<lambda>b k. b(k \<mapsto> JBool True)"])

lemma history_body_inject:
  "history_body ow limit after = history_body ow' limit' after' \<longleftrightarrow> ow = ow' \<and> asked limit = asked limit' \<and> after = after'"
proof
  assume "history_body ow limit after = history_body ow' limit' after'"
  then have at: "str_at x (history_body ow limit after) = str_at x (history_body ow' limit' after')"
      "history_body ow limit after x = history_body ow' limit' after' x" for x by simp_all
  show "ow = ow' \<and> asked limit = asked limit' \<and> after = after'"
    using at(1) [of "''caller_sub''"] at(1) [of "''after''"] at(2) [of "''limit''"]
    by (simp add: history_body_def put_apply asked_def split: if_splits)
qed (auto simp: history_body_def putLimit_def asked_def)

lemma limit_body_inject:
  assumes "key \<noteq> ''limit''"
  shows "putLimit limit [key \<mapsto> JTime t] = putLimit limit' [key \<mapsto> JTime t'] \<longleftrightarrow> asked limit = asked limit' \<and> t = t'"
proof
  assume eq: "putLimit limit [key \<mapsto> JTime t] = putLimit limit' [key \<mapsto> JTime t']"
  show "asked limit = asked limit' \<and> t = t'"
    using fun_cong [OF eq, of "''limit''"] fun_cong [OF eq, of key] assms by (simp add: put_apply asked_def split: if_splits)
qed (auto simp: putLimit_def asked_def)

section \<open>One call per operation\<close>

text \<open>The store's operations as values.\<close>

datatype pg_op =
    PgInsert insert_input
  | PgReplaceContainerBlob replace_input
  | PgBundle bundle_input
  | PgRebundle rebundle_input
  | PgGrant grant_input
  | PgGet string caller
  | PgGetContainerByParent string caller
  | PgGetLatestSignedPdfByChain string caller
  | PgList caller int string
  | PgListChains caller int string bool
  | PgGetChain caller string
  | PgListHistory string int string
  | PgSweepHistory time int
  | PgDeleteHistoryChain string string
  | PgSetStatus string string string
  | PgSetResultFreeze string bool
  | PgChainRetention string
  | PgExtendRetention string string time
  | PgRemoveAccess string caller
  | PgSweepRetention time int

text \<open>The database after an operation.\<close>

primrec pg_run :: "'d database \<Rightarrow> pg_op \<Rightarrow> 'd \<Rightarrow> 'd" where
  "pg_run db (PgInsert inp) s = snd (pg_Insert db inp s)"
| "pg_run db (PgReplaceContainerBlob inp) s = snd (pg_ReplaceContainerBlob db inp s)"
| "pg_run db (PgBundle inp) s = snd (pg_Bundle db inp s)"
| "pg_run db (PgRebundle inp) s = snd (pg_Rebundle db inp s)"
| "pg_run db (PgGrant inp) s = snd (pg_Grant db inp s)"
| "pg_run db (PgGet k c) s = snd (pg_Get db k c s)"
| "pg_run db (PgGetContainerByParent k c) s = snd (pg_GetContainerByParent db k c s)"
| "pg_run db (PgGetLatestSignedPdfByChain k c) s = snd (pg_GetLatestSignedPdfByChain db k c s)"
| "pg_run db (PgList c limit after) s = snd (pg_List db c limit after s)"
| "pg_run db (PgListChains c limit after incl) s = snd (pg_ListChains db c limit after incl s)"
| "pg_run db (PgGetChain c k) s = snd (pg_GetChain db c k s)"
| "pg_run db (PgListHistory owner limit after) s = snd (pg_ListHistory db owner limit after s)"
| "pg_run db (PgSweepHistory before limit) s = snd (pg_SweepHistory db before limit s)"
| "pg_run db (PgDeleteHistoryChain owner root) s = snd (pg_DeleteHistoryChain db owner root s)"
| "pg_run db (PgSetStatus k owner status) s = snd (pg_SetStatus db k owner status s)"
| "pg_run db (PgSetResultFreeze k frozen) s = snd (pg_SetResultFreeze db k frozen s)"
| "pg_run db (PgChainRetention k) s = snd (pg_ChainRetention db k s)"
| "pg_run db (PgExtendRetention k owner until) s = snd (pg_ExtendRetention db k owner until s)"
| "pg_run db (PgRemoveAccess k c) s = snd (pg_RemoveAccess db k c s)"
| "pg_run db (PgSweepRetention now limit) s = snd (pg_SweepRetention db now limit s)"

text \<open>The procedure each one calls, by the operation it is numbered with, and the object.\<close>

primrec pg_proc :: "pg_op \<Rightarrow> string" where
  "pg_proc (PgInsert inp) = ''document.insert''"
| "pg_proc (PgReplaceContainerBlob inp) = ''document.replace_container_blob''"
| "pg_proc (PgBundle inp) = ''document.bundle_sources''"
| "pg_proc (PgRebundle inp) = ''document.rebundle_container''"
| "pg_proc (PgGrant inp) = ''document.grant_acl''"
| "pg_proc (PgGet k c) = ''document.get''"
| "pg_proc (PgGetContainerByParent k c) = ''document.get_container_by_parent''"
| "pg_proc (PgGetLatestSignedPdfByChain k c) = ''document.get_latest_signed_pdf_by_chain''"
| "pg_proc (PgList c limit after) = ''document.list''"
| "pg_proc (PgListChains c limit after incl) = ''document.list_chains''"
| "pg_proc (PgGetChain c k) = ''document.get_chain''"
| "pg_proc (PgListHistory owner limit after) = ''document.list_history''"
| "pg_proc (PgSweepHistory before limit) = ''document.sweep_history''"
| "pg_proc (PgDeleteHistoryChain owner root) = ''document.delete_history_chain''"
| "pg_proc (PgSetStatus k owner status) = ''document.set_status''"
| "pg_proc (PgSetResultFreeze k frozen) = ''document.set_result_freeze''"
| "pg_proc (PgChainRetention k) = ''document.chain_retention''"
| "pg_proc (PgExtendRetention k owner until) = ''document.extend_retention''"
| "pg_proc (PgRemoveAccess k c) = ''document.remove_access''"
| "pg_proc (PgSweepRetention now limit) = ''document.sweep_retention''"

primrec pg_body :: "pg_op \<Rightarrow> body" where
  "pg_body (PgInsert inp) = insert_body inp"
| "pg_body (PgReplaceContainerBlob inp) = replace_body inp"
| "pg_body (PgBundle inp) = bundle_body inp"
| "pg_body (PgRebundle inp) = rebundle_body inp"
| "pg_body (PgGrant inp) = grant_body inp"
| "pg_body (PgGet k c) = caller_body ''id'' k c"
| "pg_body (PgGetContainerByParent k c) = caller_body ''parent_id'' k c"
| "pg_body (PgGetLatestSignedPdfByChain k c) = caller_body ''parent_id'' k c"
| "pg_body (PgList c limit after) = list_body c limit after"
| "pg_body (PgListChains c limit after incl) = list_chains_body c limit after incl"
| "pg_body (PgGetChain c k) = caller_body ''id'' k c"
| "pg_body (PgListHistory owner limit after) = history_body owner limit after"
| "pg_body (PgSweepHistory before limit) = putLimit limit [''before'' \<mapsto> JTime before]"
| "pg_body (PgDeleteHistoryChain owner root) = [''chain_root_id'' \<mapsto> JStr root, ''caller_sub'' \<mapsto> JStr owner]"
| "pg_body (PgSetStatus k owner status) = [''id'' \<mapsto> JStr k, ''caller'' \<mapsto> JStr owner, ''status'' \<mapsto> JStr status]"
| "pg_body (PgSetResultFreeze k frozen) = [''id'' \<mapsto> JStr k, ''frozen'' \<mapsto> JBool frozen]"
| "pg_body (PgChainRetention k) = [''id'' \<mapsto> JStr k]"
| "pg_body (PgExtendRetention k owner until) = [''id'' \<mapsto> JStr k, ''caller'' \<mapsto> JStr owner, ''retention_until'' \<mapsto> JTime until]"
| "pg_body (PgRemoveAccess k c) = caller_body ''doc_id'' k c"
| "pg_body (PgSweepRetention now limit) = putLimit limit [''now'' \<mapsto> JTime now]"

lemma snd_pg_query: "snd (pg_query db proc b what decode s) = snd (db proc (Marshal b) s)"
  by (simp add: pg_query_def pg_call_def split: prod.split sum.split option.split)

lemma snd_pg_exec: "snd (pg_exec db proc b s) = snd (db proc (Marshal b) s)"
  by (simp add: pg_exec_def pg_call_def split: prod.split sum.split)

lemma snd_pg_GetChain: "snd (pg_GetChain db c k s) = snd (db ''document.get_chain'' (Marshal (caller_body ''id'' k c)) s)"
  using snd_pg_query [of db "''document.get_chain''" "caller_body ''id'' k c" "''get_chain''" dec_chain_ptr s]
  by (auto simp: pg_GetChain_def split: prod.split sum.split option.split)

lemma pg_run_once: "pg_run db c s = snd (db (pg_proc c) (Marshal (pg_body c)) s)"
  by (cases c)
     (simp_all add: snd_pg_query snd_pg_exec snd_pg_GetChain pg_Insert_def pg_ReplaceContainerBlob_def pg_Bundle_def
       pg_Rebundle_def pg_Grant_def pg_Get_def pg_GetContainerByParent_def pg_GetLatestSignedPdfByChain_def pg_List_def
       pg_ListChains_def pg_ListHistory_def pg_SweepHistory_def pg_DeleteHistoryChain_def pg_SetStatus_def
       pg_SetResultFreeze_def pg_ChainRetention_def pg_ExtendRetention_def pg_RemoveAccess_def pg_SweepRetention_def)

text \<open>An operation up to limits that ask for the same.\<close>

definition asks :: "pg_op \<Rightarrow> pg_op" where
  "asks c =
     (case c of
        PgList cl limit after \<Rightarrow> PgList cl (asked limit) after
      | PgListChains cl limit after incl \<Rightarrow> PgListChains cl (asked limit) after incl
      | PgListHistory owner limit after \<Rightarrow> PgListHistory owner (asked limit) after
      | PgSweepHistory before limit \<Rightarrow> PgSweepHistory before (asked limit)
      | PgSweepRetention now limit \<Rightarrow> PgSweepRetention now (asked limit)
      | _ \<Rightarrow> c)"

lemma map_upd_inject: "[k \<mapsto> x] = [k \<mapsto> y] \<longleftrightarrow> x = y"
  by (metis map_upd_Some_unfold)

lemma map_upds_inject:
  assumes "k \<noteq> l"
  shows "[k \<mapsto> x, l \<mapsto> y] = [k \<mapsto> x', l \<mapsto> y'] \<longleftrightarrow> x = x' \<and> y = y'"
proof
  assume eq: "[k \<mapsto> x, l \<mapsto> y] = [k \<mapsto> x', l \<mapsto> y']"
  show "x = x' \<and> y = y'" using fun_cong [OF eq, of k] fun_cong [OF eq, of l] assms by simp
qed simp

lemma map_upds3_inject:
  assumes "k \<noteq> l" and "k \<noteq> n" and "l \<noteq> n"
  shows "[k \<mapsto> x, l \<mapsto> y, n \<mapsto> z] = [k \<mapsto> x', l \<mapsto> y', n \<mapsto> z'] \<longleftrightarrow> x = x' \<and> y = y' \<and> z = z'"
proof
  assume eq: "[k \<mapsto> x, l \<mapsto> y, n \<mapsto> z] = [k \<mapsto> x', l \<mapsto> y', n \<mapsto> z']"
  show "x = x' \<and> y = y' \<and> z = z'"
    using fun_cong [OF eq, of k] fun_cong [OF eq, of l] fun_cong [OF eq, of n] assms by simp
qed simp

lemmas body_inject =
  insert_body_inject replace_body_inject bundle_body_inject rebundle_body_inject grant_body_inject caller_body_inject
  list_body_inject list_chains_body_inject history_body_inject limit_body_inject map_upd_inject map_upds_inject map_upds3_inject

lemma same_request: "pg_proc c = pg_proc c' \<Longrightarrow> pg_body c = pg_body c' \<longleftrightarrow> asks c = asks c'"
  by (cases c; cases c'; simp add: asks_def body_inject) auto

lemma asks_proc: "asks c = asks c' \<Longrightarrow> pg_proc c = pg_proc c'"
  by (cases c; cases c'; simp add: asks_def)

text \<open>What becomes of an operation's strings on the way: each is repaired.\<close>

definition caller_utf8 :: "caller \<Rightarrow> caller" where
  "caller_utf8 c = \<lparr>cl_Sub = to_utf8 (cl_Sub c), cl_Serial = to_utf8 (cl_Serial c), cl_Product = to_utf8 (cl_Product c),
     cl_Tenant = to_utf8 (cl_Tenant c)\<rparr>"

definition insert_utf8 :: "insert_input \<Rightarrow> insert_input" where
  "insert_utf8 i = \<lparr>ii_Owner = to_utf8 (ii_Owner i), ii_TenantID = to_utf8 (ii_TenantID i), ii_Kind = to_utf8 (ii_Kind i),
     ii_ParentID = to_utf8 (ii_ParentID i), ii_Filename = to_utf8 (ii_Filename i), ii_StorageRef = to_utf8 (ii_StorageRef i),
     ii_ContentHash = to_utf8 (ii_ContentHash i), ii_Mime = to_utf8 (ii_Mime i), ii_Size = ii_Size i,
     ii_Status = to_utf8 (ii_Status i), ii_EncryptionKeyRef = to_utf8 (ii_EncryptionKeyRef i),
     ii_PreservationClass = to_utf8 (ii_PreservationClass i), ii_OwnerKind = to_utf8 (ii_OwnerKind i),
     ii_RetentionClass = to_utf8 (ii_RetentionClass i), ii_RetentionUntil = ii_RetentionUntil i,
     ii_InnerFiles = map file_utf8 (ii_InnerFiles i)\<rparr>"

definition replace_utf8 :: "replace_input \<Rightarrow> replace_input" where
  "replace_utf8 i = \<lparr>ri_ID = to_utf8 (ri_ID i), ri_ExpectedHash = to_utf8 (ri_ExpectedHash i),
     ri_StorageRef = to_utf8 (ri_StorageRef i), ri_ContentHash = to_utf8 (ri_ContentHash i), ri_Size = ri_Size i,
     ri_EncryptionKeyRef = to_utf8 (ri_EncryptionKeyRef i), ri_PreservationClass = to_utf8 (ri_PreservationClass i)\<rparr>"

definition bundle_utf8 :: "bundle_input \<Rightarrow> bundle_input" where
  "bundle_utf8 i = \<lparr>bi_Owner = to_utf8 (bi_Owner i), bi_TenantID = to_utf8 (bi_TenantID i),
     bi_SourceIDs = map to_utf8 (bi_SourceIDs i), bi_Filename = to_utf8 (bi_Filename i),
     bi_StorageRef = to_utf8 (bi_StorageRef i), bi_ContentHash = to_utf8 (bi_ContentHash i), bi_Mime = to_utf8 (bi_Mime i),
     bi_Size = bi_Size i, bi_EncryptionKeyRef = to_utf8 (bi_EncryptionKeyRef i),
     bi_PreservationClass = to_utf8 (bi_PreservationClass i), bi_RetentionUntil = bi_RetentionUntil i,
     bi_InnerFiles = map file_utf8 (bi_InnerFiles i)\<rparr>"

definition rebundle_utf8 :: "rebundle_input \<Rightarrow> rebundle_input" where
  "rebundle_utf8 i = \<lparr>rb_Owner = to_utf8 (rb_Owner i), rb_ID = to_utf8 (rb_ID i),
     rb_ExpectedHash = to_utf8 (rb_ExpectedHash i), rb_StorageRef = to_utf8 (rb_StorageRef i),
     rb_ContentHash = to_utf8 (rb_ContentHash i), rb_Size = rb_Size i, rb_EncryptionKeyRef = to_utf8 (rb_EncryptionKeyRef i),
     rb_InnerFiles = map file_utf8 (rb_InnerFiles i), rb_AbsorbSourceIDs = map to_utf8 (rb_AbsorbSourceIDs i)\<rparr>"

definition grant_utf8 :: "grant_input \<Rightarrow> grant_input" where
  "grant_utf8 i = \<lparr>gi_DocID = to_utf8 (gi_DocID i), gi_PrincipalKind = to_utf8 (gi_PrincipalKind i),
     gi_PrincipalID = to_utf8 (gi_PrincipalID i), gi_Rights = map to_utf8 (gi_Rights i),
     gi_TenantID = to_utf8 (gi_TenantID i), gi_GrantedBy = to_utf8 (gi_GrantedBy i)\<rparr>"

primrec op_utf8 :: "pg_op \<Rightarrow> pg_op" where
  "op_utf8 (PgInsert inp) = PgInsert (insert_utf8 inp)"
| "op_utf8 (PgReplaceContainerBlob inp) = PgReplaceContainerBlob (replace_utf8 inp)"
| "op_utf8 (PgBundle inp) = PgBundle (bundle_utf8 inp)"
| "op_utf8 (PgRebundle inp) = PgRebundle (rebundle_utf8 inp)"
| "op_utf8 (PgGrant inp) = PgGrant (grant_utf8 inp)"
| "op_utf8 (PgGet k c) = PgGet (to_utf8 k) (caller_utf8 c)"
| "op_utf8 (PgGetContainerByParent k c) = PgGetContainerByParent (to_utf8 k) (caller_utf8 c)"
| "op_utf8 (PgGetLatestSignedPdfByChain k c) = PgGetLatestSignedPdfByChain (to_utf8 k) (caller_utf8 c)"
| "op_utf8 (PgList c limit after) = PgList (caller_utf8 c) limit (to_utf8 after)"
| "op_utf8 (PgListChains c limit after incl) = PgListChains (caller_utf8 c) limit (to_utf8 after) incl"
| "op_utf8 (PgGetChain c k) = PgGetChain (caller_utf8 c) (to_utf8 k)"
| "op_utf8 (PgListHistory owner limit after) = PgListHistory (to_utf8 owner) limit (to_utf8 after)"
| "op_utf8 (PgSweepHistory before limit) = PgSweepHistory before limit"
| "op_utf8 (PgDeleteHistoryChain owner root) = PgDeleteHistoryChain (to_utf8 owner) (to_utf8 root)"
| "op_utf8 (PgSetStatus k owner status) = PgSetStatus (to_utf8 k) (to_utf8 owner) (to_utf8 status)"
| "op_utf8 (PgSetResultFreeze k frozen) = PgSetResultFreeze (to_utf8 k) frozen"
| "op_utf8 (PgChainRetention k) = PgChainRetention (to_utf8 k)"
| "op_utf8 (PgExtendRetention k owner until) = PgExtendRetention (to_utf8 k) (to_utf8 owner) until"
| "op_utf8 (PgRemoveAccess k c) = PgRemoveAccess (to_utf8 k) (caller_utf8 c)"
| "op_utf8 (PgSweepRetention now limit) = PgSweepRetention now limit"

lemmas op_utf8_defs =
  caller_utf8_def insert_utf8_def replace_utf8_def bundle_utf8_def rebundle_utf8_def grant_utf8_def

lemmas body_defs =
  insert_body_def replace_body_def bundle_body_def rebundle_body_def grant_body_def caller_body_def putCaller_def
  list_body_def list_chains_body_def history_body_def

lemma Marshal_body: "Marshal (pg_body c) = pg_body (op_utf8 c)"
  by (cases c) (simp_all add: body_defs op_utf8_defs Let_def)

lemma op_utf8_proc [simp]: "pg_proc (op_utf8 c) = pg_proc c"
  by (cases c) simp_all

text \<open>A database that records its calls.\<close>

definition recording :: "(string \<times> body) list database" where
  "recording proc b s = (Unreached [], s @ [(proc, b)])"

text \<open>C26: the database sees every operation exactly once, and all of its arguments.  Each operation makes
  one call of one procedure, whatever the database answers.  Two operations make the same call exactly
  when they are the same operation with the same arguments, up to two things that the encoding
  does not keep apart: listing limits that ask for no limit, and strings that are not valid
  UTF-8 and have the same repair.  So operations whose strings are valid, as all identifiers,
  hashes and decoded tokens are, and whose limits are not negative make different calls if they differ
  in any argument, in particular in any part of the caller's identity.  (A nil list is an empty one here.)\<close>

theorem requests_carry_arguments:
  "(\<forall>db s. pg_run db c s = snd (db (pg_proc c) (Marshal (pg_body c)) s)) \<and>
   (pg_run recording c [] = pg_run recording c' [] \<longleftrightarrow> asks (op_utf8 c) = asks (op_utf8 c')) \<and>
   (op_utf8 c = c \<and> op_utf8 c' = c' \<and> asks c = c \<and> asks c' = c' \<longrightarrow>
     (pg_run recording c [] = pg_run recording c' [] \<longleftrightarrow> c = c'))"
proof -
  have "pg_run recording c [] = pg_run recording c' [] \<longleftrightarrow> asks (op_utf8 c) = asks (op_utf8 c')"
    using same_request [of "op_utf8 c" "op_utf8 c'"] asks_proc [of "op_utf8 c" "op_utf8 c'"]
    by (auto simp: pg_run_once recording_def Marshal_body)
  then show ?thesis using pg_run_once by auto
qed

lemma requests_carry_arguments_witness:
  "\<exists>ana bea. pg_run recording (PgGet ''01'' ana) [] \<noteq> pg_run recording (PgGet ''01'' bea) [] \<and>
     pg_run recording (PgGet [char_of (0xFF :: nat)] ana) [] = pg_run recording (PgGet [char_of (0xFE :: nat)] ana) []"
proof -
  let ?ana = "\<lparr>cl_Sub = ''ana'', cl_Serial = [], cl_Product = [], cl_Tenant = []\<rparr>"
  let ?bea = "\<lparr>cl_Sub = ''bea'', cl_Serial = [], cl_Product = [], cl_Tenant = []\<rparr>"
  let ?c = "PgGet ''01'' ?ana" and ?c' = "PgGet ''01'' ?bea"
  let ?ff = "PgGet [char_of (0xFF :: nat)] ?ana" and ?fe = "PgGet [char_of (0xFE :: nat)] ?ana"
  have "op_utf8 ?c = ?c \<and> op_utf8 ?c' = ?c' \<and> asks ?c = ?c \<and> asks ?c' = ?c'"
    by (simp add: caller_utf8_def asks_def to_utf8_valid [OF valid_ascii])
  then have "pg_run recording ?c [] \<noteq> pg_run recording ?c' []"
    using conjunct2 [OF conjunct2 [OF requests_carry_arguments [of ?c ?c']]] by simp
  moreover have "asks (op_utf8 ?ff) = asks (op_utf8 ?fe)"
    by (simp only: op_utf8.simps to_utf8_invalid)
  then have "pg_run recording ?ff [] = pg_run recording ?fe []"
    by (rule iffD2 [OF conjunct1 [OF conjunct2 [OF requests_carry_arguments [of ?ff ?fe]]]])
  ultimately show ?thesis by blast
qed

text \<open>C27: a refusal of the database is never taken for an answer.  If a procedure answers with an error,
  returned or raised, every operation that calls it fails, and with the store's own error for
  the code; an operation succeeds only on an answer marked as success.\<close>

theorem refusals_are_errors:
  assumes "fst (db proc (Marshal b) s) = Row (Some v) \<and> pe_Result env \<noteq> ''success'' \<or>
    fst (db proc (Marshal b) s) = Raised ''P0001'' msg (Some v) \<and> pe_Result env = ''error''"
    and "dec_envelope v = Some env"
  shows "fst (pg_query db proc b what decode s) = Inl (mapCode proc (pe_Code env) (pe_Message env)) \<and>
    fst (pg_exec db proc b s) = Inl (mapCode proc (pe_Code env) (pe_Message env)) \<and>
    mapCode proc (area @ '':not_found'') txt = ErrNotFound \<and>
    mapCode proc (area @ '':legal_hold'') txt = ErrLegalHold \<and>
    mapCode proc (area @ '':chain_advanced'') txt = ErrChainAdvanced \<and>
    mapCode proc (area @ '':chain_live'') txt = ErrChainLive \<and>
    mapCode proc (area @ '':not_bundleable'') txt = ErrNotBundleable"
proof -
  have "pg_answer proc (fst (db proc (Marshal b) s)) = Inl (mapCode proc (pe_Code env) (pe_Message env))"
    using assms by (auto simp: pg_answer_def)
  then have call: "fst (pg_call db proc b s) = Inl (mapCode proc (pe_Code env) (pe_Message env))"
    by (auto simp: pg_call_def split: prod.split)
  then obtain s' where "pg_call db proc b s = (Inl (mapCode proc (pe_Code env) (pe_Message env)), s')"
    by (cases "pg_call db proc b s") auto
  then have "fst (pg_query db proc b what decode s) = Inl (mapCode proc (pe_Code env) (pe_Message env))"
    and "fst (pg_exec db proc b s) = Inl (mapCode proc (pe_Code env) (pe_Message env))"
    by (simp_all add: pg_query_def pg_exec_def)
  then show ?thesis by (simp add: mapCode_def has_suffix_def has_prefix_def)
qed

text \<open>A database that refuses everything, raising.\<close>

definition refusing :: "unit database" where
  "refusing proc b s =
     (Raised ''P0001'' [] (Some (JObj [(''result'', JStr ''error''), (''code'', JStr ''document:not_found'')])), s)"

lemma refusals_are_errors_witness:
  "fst (pg_Get refusing ''01'' \<lparr>cl_Sub = ''u'', cl_Serial = [], cl_Product = [], cl_Tenant = []\<rparr> ()) = Inl ErrNotFound"
proof -
  let ?c = "\<lparr>cl_Sub = ''u'', cl_Serial = [], cl_Product = [], cl_Tenant = []\<rparr>"
  let ?v = "JObj [(''result'', JStr ''error''), (''code'', JStr ''document:not_found'')]"
  let ?env = "\<lparr>pe_Result = ''error'', pe_Data = None, pe_Code = ''document:not_found'', pe_Message = []\<rparr>"
  have env: "dec_envelope ?v = Some ?env" by (simp add: dec_envelope_def dec_fields_def dec_str_def)
  have "fst (refusing ''document.get'' (Marshal (caller_body ''id'' ''01'' ?c)) ()) = Raised ''P0001'' [] (Some ?v)"
    by (simp add: refusing_def)
  then have "fst (pg_Get refusing ''01'' ?c ()) = Inl (mapCode ''document.get'' ''document:not_found'' [])"
    using refusals_are_errors [of refusing "''document.get''" "caller_body ''id'' ''01'' ?c" "()" ?v ?env "[]" "''get''" dec_document]
      env by (simp add: pg_Get_def)
  then show ?thesis by (simp add: mapCode_def has_suffix_def has_prefix_def)
qed

end
