(* ===== verification/Wire.thy ===== *)
theory Wire
  imports PostgresProps
begin

text \<open>
  The other direction of the JSON tags of \<open>store/store.go\<close>: what a row looks like on the wire when it is
  written by those tags (an \<open>omitempty\<close> field is left out when it is zero), and that the PostgreSQL store
  reads every such row back exactly.
\<close>

section \<open>Writing rows\<close>

definition field :: "string \<Rightarrow> bool \<Rightarrow> json \<Rightarrow> fields" where
  "field k present v = (if present then [(k, v)] else [])"

definition enc_time_ptr :: "time option \<Rightarrow> json" where
  "enc_time_ptr p = (case p of None \<Rightarrow> JNull | Some t \<Rightarrow> JTime t)"

definition str_field :: "string \<Rightarrow> string \<Rightarrow> fields" where
  "str_field k s = field k (s \<noteq> []) (JStr s)"

definition enc_document :: "document \<Rightarrow> json" where
  "enc_document d = JObj
    ([(''id'', JStr (d_ID d)), (''owner'', JStr (d_Owner d))] @
     str_field ''tenant_id'' (d_TenantID d) @ [(''kind'', JStr (d_Kind d))] @
     str_field ''parent_id'' (d_ParentID d) @ str_field ''filename'' (d_Filename d) @
     str_field ''storage_ref'' (d_StorageRef d) @
     [(''content_hash'', JStr (d_ContentHash d)), (''mime'', JStr (d_Mime d)), (''size'', JInt (d_Size d)),
      (''status'', JStr (d_Status d))] @
     str_field ''encryption_key_ref'' (d_EncryptionKeyRef d) @
     [(''preservation_class'', JStr (d_PreservationClass d)), (''retention_class'', JStr (d_RetentionClass d)),
      (''retention_until'', enc_time_ptr (d_RetentionUntil d)), (''legal_hold'', JBool (d_LegalHold d))] @
     field ''signed_at'' (d_SignedAt d \<noteq> None) (enc_time_ptr (d_SignedAt d)) @
     field ''result_frozen'' (d_ResultFrozen d) (JBool True) @
     field ''inner_files'' (d_InnerFiles d \<noteq> []) (enc_manifest (d_InnerFiles d)) @
     [(''created_at'', JTime (d_CreatedAt d)), (''updated_at'', JTime (d_UpdatedAt d))])"

definition enc_chain :: "chain \<Rightarrow> json" where
  "enc_chain c = JObj
    ([(''chain_root_id'', JStr (c_ChainRootID c)), (''id'', JStr (c_ID c)), (''kind'', JStr (c_Kind c)),
      (''status'', JStr (c_Status c))] @ str_field ''filename'' (c_Filename c) @
     [(''mime'', JStr (c_Mime c)), (''size'', JInt (c_Size c)), (''retention_until'', enc_time_ptr (c_RetentionUntil c)),
      (''legal_hold'', JBool (c_LegalHold c)), (''preservation_class'', JStr (c_PreservationClass c)),
      (''has_signatures'', JBool (c_HasSignatures c)), (''platform_signed'', JBool (c_PlatformSigned c))] @
     field ''result_frozen'' (c_ResultFrozen c) (JBool True) @
     field ''inner_files'' (c_InnerFiles c \<noteq> []) (enc_manifest (c_InnerFiles c)) @
     [(''chain_created_at'', JTime (c_ChainCreatedAt c)), (''created_at'', JTime (c_CreatedAt c)),
      (''updated_at'', JTime (c_UpdatedAt c))])"

definition enc_history :: "history_chain \<Rightarrow> json" where
  "enc_history h = JObj
    ([(''chain_root_id'', JStr (h_ChainRootID h)), (''id'', JStr (h_ID h)), (''kind'', JStr (h_Kind h)),
      (''status'', JStr (h_Status h))] @ str_field ''filename'' (h_Filename h) @
     [(''mime'', JStr (h_Mime h)), (''size'', JInt (h_Size h)), (''has_signatures'', JBool (h_HasSignatures h)),
      (''platform_signed'', JBool (h_PlatformSigned h)), (''chain_created_at'', JTime (h_ChainCreatedAt h)),
      (''destroyed_at'', JTime (h_DestroyedAt h))])"

definition enc_purged :: "purged_ref \<Rightarrow> json" where
  "enc_purged p = JObj [(''id'', JStr (p_ID p)), (''storageRef'', JStr (p_StorageRef p)),
     (''encryptionKeyRef'', JStr (p_EncryptionKeyRef p))]"

section \<open>Reading them\<close>

definition int64 :: "int \<Rightarrow> bool" where
  "int64 n \<longleftrightarrow> - (2 ^ 63) \<le> n \<and> n < 2 ^ 63"

definition sizes_fit :: "int \<Rightarrow> manifest_file list \<Rightarrow> bool" where
  "sizes_fit n fs \<longleftrightarrow> int64 n \<and> (\<forall>f \<in> set fs. int64 (mf_Size f))"

lemma map_of_field [simp]:
  "map_of (field k p v @ kvs) k' = (if k = k' \<and> p then Some v else map_of kvs k')"
  "map_of (str_field k s @ kvs) k' = (if k = k' \<and> s \<noteq> [] then Some (JStr s) else map_of kvs k')"
  by (simp_all add: field_def str_field_def)

text \<open>The value a decoder of a key sees, on the shapes the writer leaves there.\<close>

lemma dec_str_here: "map_of kvs k = Some (JStr s) \<or> map_of kvs k = None \<and> s = [] \<Longrightarrow> dec_str k kvs = Some s"
  by (auto simp: dec_str_def)

lemma dec_int_here: "map_of kvs k = Some (JInt n) \<Longrightarrow> int64 n \<Longrightarrow> dec_int k kvs = Some n"
  by (simp add: dec_int_def int64_def)

lemma dec_bool_here:
  "map_of kvs k = Some (JBool b) \<or> map_of kvs k = None \<and> \<not> b \<Longrightarrow> dec_bool k kvs = Some b"
  by (auto simp: dec_bool_def)

lemma dec_time_ptr_here:
  "map_of kvs k = Some (enc_time_ptr p) \<or> map_of kvs k = None \<and> p = None \<Longrightarrow> dec_time_ptr k kvs = Some p"
  by (auto simp: dec_time_ptr_def enc_time_ptr_def split: option.splits)

lemma dec_time_here: "map_of kvs k = Some (JTime t) \<Longrightarrow> dec_time k kvs = Some t"
  by (simp add: dec_time_def dec_time_ptr_def)

lemma dec_manifest_file_enc: "int64 (mf_Size f) \<Longrightarrow> dec_manifest_file (enc_manifest_file f) = Some f"
  by (simp add: dec_manifest_file_def enc_manifest_file_def dec_fields_def dec_str_def dec_int_def int64_def)

lemma those_map_enc: "\<forall>x \<in> set xs. f (g x) = Some x \<Longrightarrow> those (map f (map g xs)) = Some xs"
  by (induction xs) auto

lemma dec_list_here:
  "map_of kvs k = Some (JArr (map g xs)) \<or> map_of kvs k = None \<and> xs = [] \<Longrightarrow> \<forall>x \<in> set xs. f (g x) = Some x \<Longrightarrow>
    dec_list f k kvs = Some xs"
  using those_map_enc [of xs f g] by (auto simp: dec_list_def)

lemma dec_manifest_here:
  "map_of kvs k = Some (enc_manifest fs) \<or> map_of kvs k = None \<and> fs = [] \<Longrightarrow> \<forall>f \<in> set fs. int64 (mf_Size f) \<Longrightarrow>
    dec_list dec_manifest_file k kvs = Some fs"
  using dec_list_here [of kvs k enc_manifest_file fs dec_manifest_file] dec_manifest_file_enc
  by (simp add: enc_manifest_def)

lemmas dec_here = dec_str_here dec_bool_here dec_time_ptr_here dec_time_here

lemma dec_document_enc:
  assumes "sizes_fit (d_Size d) (d_InnerFiles d)"
  shows "dec_document (enc_document d) = Some d"
proof -
  define kvs where "kvs = (case enc_document d of JObj kvs \<Rightarrow> kvs | _ \<Rightarrow> [])"
  have obj: "dec_fields (enc_document d) = Some kvs" by (simp add: kvs_def enc_document_def dec_fields_def)
  have "dec_str ''id'' kvs = Some (d_ID d)" "dec_str ''owner'' kvs = Some (d_Owner d)"
    "dec_str ''tenant_id'' kvs = Some (d_TenantID d)" "dec_str ''kind'' kvs = Some (d_Kind d)"
    "dec_str ''parent_id'' kvs = Some (d_ParentID d)" "dec_str ''filename'' kvs = Some (d_Filename d)"
    "dec_str ''storage_ref'' kvs = Some (d_StorageRef d)" "dec_str ''content_hash'' kvs = Some (d_ContentHash d)"
    "dec_str ''mime'' kvs = Some (d_Mime d)" "dec_str ''status'' kvs = Some (d_Status d)"
    "dec_str ''encryption_key_ref'' kvs = Some (d_EncryptionKeyRef d)"
    "dec_str ''preservation_class'' kvs = Some (d_PreservationClass d)"
    "dec_str ''retention_class'' kvs = Some (d_RetentionClass d)"
    "dec_bool ''legal_hold'' kvs = Some (d_LegalHold d)" "dec_bool ''result_frozen'' kvs = Some (d_ResultFrozen d)"
    "dec_time_ptr ''retention_until'' kvs = Some (d_RetentionUntil d)"
    "dec_time_ptr ''signed_at'' kvs = Some (d_SignedAt d)"
    "dec_time ''created_at'' kvs = Some (d_CreatedAt d)" "dec_time ''updated_at'' kvs = Some (d_UpdatedAt d)"
    by (rule dec_here; simp add: kvs_def enc_document_def del: map_of_append)+
  moreover have "dec_int ''size'' kvs = Some (d_Size d)"
    using assms by (intro dec_int_here) (simp_all add: kvs_def enc_document_def sizes_fit_def del: map_of_append)
  moreover have "dec_list dec_manifest_file ''inner_files'' kvs = Some (d_InnerFiles d)"
    using assms by (intro dec_manifest_here) (simp_all add: kvs_def enc_document_def sizes_fit_def del: map_of_append)
  ultimately show ?thesis by (simp add: dec_document_def obj)
qed

lemma dec_chain_enc:
  assumes "sizes_fit (c_Size x) (c_InnerFiles x)"
  shows "dec_chain (enc_chain x) = Some x"
proof -
  define kvs where "kvs = (case enc_chain x of JObj kvs \<Rightarrow> kvs | _ \<Rightarrow> [])"
  have obj: "dec_fields (enc_chain x) = Some kvs" by (simp add: kvs_def enc_chain_def dec_fields_def)
  have "dec_str ''chain_root_id'' kvs = Some (c_ChainRootID x)"
    "dec_str ''id'' kvs = Some (c_ID x)"
    "dec_str ''kind'' kvs = Some (c_Kind x)"
    "dec_str ''status'' kvs = Some (c_Status x)"
    "dec_str ''filename'' kvs = Some (c_Filename x)"
    "dec_str ''mime'' kvs = Some (c_Mime x)"
    "dec_str ''preservation_class'' kvs = Some (c_PreservationClass x)"
    "dec_bool ''legal_hold'' kvs = Some (c_LegalHold x)"
    "dec_bool ''has_signatures'' kvs = Some (c_HasSignatures x)"
    "dec_bool ''platform_signed'' kvs = Some (c_PlatformSigned x)"
    "dec_bool ''result_frozen'' kvs = Some (c_ResultFrozen x)"
    "dec_time_ptr ''retention_until'' kvs = Some (c_RetentionUntil x)"
    "dec_time ''chain_created_at'' kvs = Some (c_ChainCreatedAt x)"
    "dec_time ''created_at'' kvs = Some (c_CreatedAt x)"
    "dec_time ''updated_at'' kvs = Some (c_UpdatedAt x)"
    by (rule dec_here; simp add: kvs_def enc_chain_def del: map_of_append)+
  moreover have "dec_int ''size'' kvs = Some (c_Size x)"
    using assms by (intro dec_int_here) (simp_all add: kvs_def enc_chain_def sizes_fit_def del: map_of_append)
  moreover have "dec_list dec_manifest_file ''inner_files'' kvs = Some (c_InnerFiles x)"
    using assms by (intro dec_manifest_here) (simp_all add: kvs_def enc_chain_def sizes_fit_def del: map_of_append)
  ultimately show ?thesis by (simp add: dec_chain_def obj)
qed

lemma dec_history_enc:
  assumes "int64 (h_Size x)"
  shows "dec_history (enc_history x) = Some x"
proof -
  define kvs where "kvs = (case enc_history x of JObj kvs \<Rightarrow> kvs | _ \<Rightarrow> [])"
  have obj: "dec_fields (enc_history x) = Some kvs" by (simp add: kvs_def enc_history_def dec_fields_def)
  have "dec_str ''chain_root_id'' kvs = Some (h_ChainRootID x)"
    "dec_str ''id'' kvs = Some (h_ID x)"
    "dec_str ''kind'' kvs = Some (h_Kind x)"
    "dec_str ''status'' kvs = Some (h_Status x)"
    "dec_str ''filename'' kvs = Some (h_Filename x)"
    "dec_str ''mime'' kvs = Some (h_Mime x)"
    "dec_bool ''has_signatures'' kvs = Some (h_HasSignatures x)"
    "dec_bool ''platform_signed'' kvs = Some (h_PlatformSigned x)"
    "dec_time ''chain_created_at'' kvs = Some (h_ChainCreatedAt x)"
    "dec_time ''destroyed_at'' kvs = Some (h_DestroyedAt x)"
    by (rule dec_here; simp add: kvs_def enc_history_def del: map_of_append)+
  moreover have "dec_int ''size'' kvs = Some (h_Size x)"
    using assms by (intro dec_int_here) (simp_all add: kvs_def enc_history_def sizes_fit_def del: map_of_append)
  ultimately show ?thesis by (simp add: dec_history_def obj)
qed

lemma dec_purged_enc:
  "dec_purged (enc_purged x) = Some x"
proof -
  define kvs where "kvs = (case enc_purged x of JObj kvs \<Rightarrow> kvs | _ \<Rightarrow> [])"
  have obj: "dec_fields (enc_purged x) = Some kvs" by (simp add: kvs_def enc_purged_def dec_fields_def)
  have "dec_str ''id'' kvs = Some (p_ID x)"
    "dec_str ''storageRef'' kvs = Some (p_StorageRef x)"
    "dec_str ''encryptionKeyRef'' kvs = Some (p_EncryptionKeyRef x)"
    by (rule dec_here; simp add: kvs_def enc_purged_def del: map_of_append)+
  then show ?thesis by (simp add: dec_purged_def obj)
qed

section \<open>Through the operations\<close>

text \<open>The database answers a call with success and a payload.\<close>

definition answers :: "'d database \<Rightarrow> string \<Rightarrow> body \<Rightarrow> 'd \<Rightarrow> json \<Rightarrow> bool" where
  "answers db proc b s v \<longleftrightarrow>
     fst (db proc (Marshal b) s) = Row (Some (JObj [(''result'', JStr ''success''), (''data'', v)]))"

definition enc_rows :: "string \<Rightarrow> ('a \<Rightarrow> json) \<Rightarrow> 'a list \<Rightarrow> json" where
  "enc_rows k f xs = JObj [(k, JArr (map f xs))]"

lemma answered_query:
  assumes "answers db proc b s v" and "decode v = Some x"
  shows "fst (pg_query db proc b what decode s) = Inr x"
proof -
  obtain s' where "db proc (Marshal b) s = (Row (Some (JObj [(''result'', JStr ''success''), (''data'', v)])), s')"
    using assms(1) by (cases "db proc (Marshal b) s") (simp add: answers_def)
  then have "pg_call db proc b s = (Inr (Some v), s')"
    by (simp add: pg_call_def pg_answer_def dec_envelope_def dec_fields_def dec_str_def)
  then show ?thesis using assms(2) by (simp add: pg_query_def)
qed

lemma dec_rows_enc: "\<forall>x \<in> set xs. f (g x) = Some x \<Longrightarrow> dec_rows f k (enc_rows k g xs) = Some xs"
  using dec_list_here [of "[(k, JArr (map g xs))]" k g xs f]
  by (simp add: dec_rows_def enc_rows_def dec_fields_def)

text \<open>No field is lost on the way back.  Whenever a procedure answers with rows written by the tags
  of the row types, with sizes that fit 64 bits, the operation that called it returns exactly those
  rows, in order: all fields, present or left out, with a missing date kept apart from the zero date.\<close>

theorem rows_survive_the_wire:
  assumes "\<forall>x \<in> set ds. sizes_fit (d_Size x) (d_InnerFiles x)" and "\<forall>x \<in> set cs. sizes_fit (c_Size x) (c_InnerFiles x)"
    and "\<forall>x \<in> set hs. int64 (h_Size x)" and "d \<in> set ds" and "ch \<in> set cs"
  shows "(answers db ''document.get'' (caller_body ''id'' k c) s (enc_document d) \<longrightarrow> fst (pg_Get db k c s) = Inr d) \<and>
    (answers db ''document.get_container_by_parent'' (caller_body ''parent_id'' k c) s (enc_document d) \<longrightarrow>
      fst (pg_GetContainerByParent db k c s) = Inr d) \<and>
    (answers db ''document.get_latest_signed_pdf_by_chain'' (caller_body ''parent_id'' k c) s (enc_document d) \<longrightarrow>
      fst (pg_GetLatestSignedPdfByChain db k c s) = Inr d) \<and>
    (answers db ''document.list'' (list_body c limit after) s (enc_rows ''documents'' enc_document ds) \<longrightarrow>
      fst (pg_List db c limit after s) = Inr ds) \<and>
    (answers db ''document.list_chains'' (list_chains_body c limit after incl) s (enc_rows ''chains'' enc_chain cs) \<longrightarrow>
      fst (pg_ListChains db c limit after incl s) = Inr cs) \<and>
    (answers db ''document.get_chain'' (caller_body ''id'' k c) s (JObj [(''chain'', enc_chain ch)]) \<longrightarrow>
      fst (pg_GetChain db c k s) = Inr ch) \<and>
    (answers db ''document.list_history'' (history_body owner limit after) s (enc_rows ''chains'' enc_history hs) \<longrightarrow>
      fst (pg_ListHistory db owner limit after s) = Inr hs) \<and>
    (answers db ''document.remove_access'' (caller_body ''doc_id'' k c) s (enc_rows ''purged'' enc_purged ps) \<longrightarrow>
      fst (pg_RemoveAccess db k c s) = Inr ps) \<and>
    (answers db ''document.replace_container_blob'' (replace_body inp) s
        (JObj [(''document'', enc_document d), (''oldStorageRef'', JStr r), (''oldEncryptionKeyRef'', JStr q)]) \<longrightarrow>
      fst (pg_ReplaceContainerBlob db inp s) = Inr (Some d, \<lparr>p_ID = ri_ID inp, p_StorageRef = r, p_EncryptionKeyRef = q\<rparr>))"
proof -
  have doc: "dec_document (enc_document d) = Some d" using assms(1,4) dec_document_enc by blast
  have docs: "dec_rows dec_document ''documents'' (enc_rows ''documents'' enc_document ds) = Some ds"
    and chains: "dec_rows dec_chain ''chains'' (enc_rows ''chains'' enc_chain cs) = Some cs"
    and history: "dec_rows dec_history ''chains'' (enc_rows ''chains'' enc_history hs) = Some hs"
    and purged: "dec_rows dec_purged ''purged'' (enc_rows ''purged'' enc_purged ps) = Some ps"
    using assms(1-3) by (auto intro!: dec_rows_enc dec_document_enc dec_chain_enc dec_history_enc dec_purged_enc)
  have "dec_chain (enc_chain ch) = Some ch" using assms(2,5) dec_chain_enc by blast
  then have chain: "dec_chain_ptr (JObj [(''chain'', enc_chain ch)]) = Some (Some ch)"
    by (simp add: dec_chain_ptr_def dec_fields_def dec_ptr_def enc_chain_def)
  have replaced: "dec_replaced (ri_ID inp)
      (JObj [(''document'', enc_document d), (''oldStorageRef'', JStr r), (''oldEncryptionKeyRef'', JStr q)]) =
      Some (Some d, \<lparr>p_ID = ri_ID inp, p_StorageRef = r, p_EncryptionKeyRef = q\<rparr>)"
    using doc by (simp add: dec_replaced_def dec_fields_def dec_ptr_def dec_str_def enc_document_def)
  have get_chain: "fst (pg_GetChain db c k s) = Inr ch"
    if "answers db ''document.get_chain'' (caller_body ''id'' k c) s (JObj [(''chain'', enc_chain ch)])"
    using answered_query [where decode = dec_chain_ptr and what = "''get_chain''", OF that chain]
    by (auto simp: pg_GetChain_def split: prod.split)
  show ?thesis
    unfolding pg_Get_def pg_GetContainerByParent_def pg_GetLatestSignedPdfByChain_def pg_List_def pg_ListChains_def
      pg_ListHistory_def pg_RemoveAccess_def pg_ReplaceContainerBlob_def
    using get_chain by (blast intro: answered_query doc docs chains history purged replaced)
qed

text \<open>A database that answers every call with one row.\<close>

definition sample_wire_row :: document where
  "sample_wire_row = \<lparr>d_ID = ''01'', d_Owner = ''u'', d_TenantID = [], d_Kind = ''source'', d_ParentID = [],
     d_Filename = ''a.pdf'', d_StorageRef = ''k'', d_ContentHash = ''h'', d_Mime = ''application/pdf'', d_Size = 7,
     d_Status = ''received'', d_EncryptionKeyRef = ''w'', d_PreservationClass = ''none'', d_RetentionClass = ''durable'',
     d_RetentionUntil = None, d_LegalHold = False, d_SignedAt = None, d_ResultFrozen = False,
     d_InnerFiles = [\<lparr>mf_Name = ''x'', mf_MediaType = [], mf_Size = 0\<rparr>], d_CreatedAt = 0, d_UpdatedAt = 5\<rparr>"

definition one_row :: "unit database" where
  "one_row proc b s = (Row (Some (JObj [(''result'', JStr ''success''), (''data'', enc_document sample_wire_row)])), s)"

lemma rows_survive_the_wire_witness:
  "fst (pg_Get one_row ''01'' \<lparr>cl_Sub = ''u'', cl_Serial = [], cl_Product = [], cl_Tenant = []\<rparr> ()) = Inr sample_wire_row"
proof -
  let ?c = "\<lparr>cl_Sub = ''u'', cl_Serial = [], cl_Product = [], cl_Tenant = []\<rparr>"
  let ?ch = "\<lparr>c_ChainRootID = [], c_ID = [], c_Kind = [], c_Status = [], c_Filename = [], c_Mime = [], c_Size = 0,
    c_RetentionUntil = None, c_LegalHold = False, c_PreservationClass = [], c_HasSignatures = False,
    c_PlatformSigned = False, c_ResultFrozen = False, c_InnerFiles = [], c_ChainCreatedAt = 0, c_CreatedAt = 0, c_UpdatedAt = 0\<rparr>"
  have "answers one_row ''document.get'' (caller_body ''id'' ''01'' ?c) () (enc_document sample_wire_row)"
    by (simp add: answers_def one_row_def)
  then show ?thesis
    using rows_survive_the_wire [of "[sample_wire_row]" "[?ch]" "[]" sample_wire_row ?ch one_row "''01''" ?c "()"]
    by (simp add: sizes_fit_def int64_def sample_wire_row_def)
qed

end
