(* ===== verification/StoreBackends.thy ===== *)
theory StoreBackends
  imports Wire StoreSample
begin

text \<open>
  The two implementations of the \<open>Store\<close> interface side by side.  The database's half of the protocol is
  stated on its own: which operation a call asks for, read from the names of the fields, and which reply
  stands for which outcome.  Over a database that keeps to it, the PostgreSQL store gives, call for
  call, the answers of the in-memory one: no request, envelope or decoder adds, drops or changes
  anything on the way.
\<close>

section \<open>Simulation\<close>




section \<open>Answers\<close>

datatype store_answer =
    ADone
  | AId string
  | AReplaced "document option" purged_ref
  | ABundled string "purged_ref list"
  | ARebundled "document option" purged_ref "purged_ref list"
  | ADocument document
  | ADocuments "document list"
  | AChains "chain list"
  | AChain chain
  | AHistory "history_chain list"
  | ARefs "purged_ref list"
  | ARemoved int
  | ARetention time int

definition as_answer :: "('a \<Rightarrow> store_answer) \<Rightarrow> ('a, 's) res \<Rightarrow> (store_answer, 's) res" where
  "as_answer f r = (case r of (Inl e, s) \<Rightarrow> (Inl e, s) | (Inr x, s) \<Rightarrow> (Inr (f x), s))"

lemma as_answer_simps [simp]: "as_answer f (Inl e, s) = (Inl e, s)" "as_answer f (Inr x, s) = (Inr (f x), s)"
  by (simp_all add: as_answer_def)

lemma snd_as_answer [simp]: "snd (as_answer f r) = snd r"
  by (simp add: as_answer_def split: prod.split sum.split)




section \<open>What a call asks for\<close>

text \<open>The values of a request, as a procedure reads them; a field that is not there reads as nothing.\<close>

definition int_at :: "string \<Rightarrow> body \<Rightarrow> int" where
  "int_at k b = (case b k of Some (JInt n) \<Rightarrow> n | _ \<Rightarrow> 0)"





definition read_file :: "json \<Rightarrow> manifest_file" where
  "read_file v = (case v of
      JObj kvs \<Rightarrow> \<lparr>mf_Name = str_at ''name'' (map_of kvs), mf_MediaType = str_at ''mediaType'' (map_of kvs),
                    mf_Size = int_at ''size'' (map_of kvs)\<rparr>
    | _ \<Rightarrow> \<lparr>mf_Name = [], mf_MediaType = [], mf_Size = 0\<rparr>)"









section \<open>What a reply stands for\<close>











section \<open>The requests ask for their operations\<close>

lemma read_file_enc [simp]: "read_file (enc_manifest_file f) = f"
  by (cases f) (simp add: read_file_def enc_manifest_file_def str_at_def int_at_def)















section \<open>One call\<close>



















section \<open>The two backends agree\<close>














end
