(* ===== verification/App.thy ===== *)
theory App
  imports Config Retention Postgres AuditEvents Clamav "HOL-Library.Signed_Division"
begin

text \<open>
  \<open>app.go\<close>, \<open>auditposter.go\<close>, \<open>audit/drain.go\<close>, \<open>logtransport.go\<close> and the \<open>web\<close> command: how the parts are put
  together from the configuration, and the delivery of access records.  The platform's constructors and the
  clients of other services are parameters; a failing one ends the start.  Other log lines are left out.
\<close>

section \<open>Delivery of access records\<close>

text \<open>
  The authentication client: a post that carries the request's token, and a call under the
  service's own, which yields a response status.  A record is delivered as its JSON rendering, which
  is the library's and may fail.
\<close>

record ('e, 'r) auth_client =
  ac_PostJSON :: "'e \<Rightarrow> string \<Rightarrow> string \<Rightarrow> string \<Rightarrow> 'r \<Rightarrow> err + unit"
  ac_DoService :: "string \<Rightarrow> string \<Rightarrow> string \<Rightarrow> string \<Rightarrow> bytes \<Rightarrow> err + int"

record 'a accessAuditPoster =
  po_auth :: 'a
  po_url :: string
  po_audience :: string
  po_scope :: string

definition newAccessAuditPoster :: "'a \<Rightarrow> string \<Rightarrow> string \<Rightarrow> string \<Rightarrow> 'a accessAuditPoster" where
  "newAccessAuditPoster ac baseURL audience scope =
     \<lparr>po_auth = ac, po_url = trim_suffix baseURL ''/'' @ ''/v1/access-records'', po_audience = audience, po_scope = scope\<rparr>"

text \<open>A record that is posted while a request is served goes out in its context; the drain has none.\<close>

definition Post ::
  "('r \<Rightarrow> err + bytes) \<Rightarrow> ('e, 'r) auth_client accessAuditPoster \<Rightarrow> 'e option \<Rightarrow> 'r \<Rightarrow> err + unit" where
  "Post marshal p request rec =
     (case request of
        Some ac \<Rightarrow> ac_PostJSON (po_auth p) ac (po_audience p) (po_scope p) (po_url p) rec
      | None \<Rightarrow>
          (case marshal rec of
             Inl e \<Rightarrow> Inl e
           | Inr body \<Rightarrow>
               (case ac_DoService (po_auth p) (po_audience p) (po_scope p) ''POST'' (po_url p) body of
                  Inl e \<Rightarrow> Inl e
                | Inr status \<Rightarrow>
                    if status sdiv 100 \<noteq> 2 then Inl (ErrOther (''access-audit: POST '' @ po_url p)) else Inr ())))"

text \<open>The drain delivers what was buffered, in the background; when it is stopped the client has five seconds.\<close>

datatype client_call = Drain | CloseWithin duration

definition drain_Start :: "client_call list" where
  "drain_Start = [Drain]"

definition drain_Stop :: "client_call list" where
  "drain_Stop = [CloseWithin (5 * second)]"

text \<open>Without a broker an event is a line of the log: topic, key and payload.\<close>

definition logTransport_Publish ::
  "string \<Rightarrow> string \<Rightarrow> bytes \<Rightarrow> (string \<times> string \<times> string \<times> bytes) list \<Rightarrow> (unit, (string \<times> string \<times> string \<times> bytes) list) res" where
  "logTransport_Publish topic key payload lines = (Inr (), lines @ [(''document_event'', topic, key, payload)])"

section \<open>The parts of the application\<close>

datatype 'd metadata_store = PostgresStore "'d database" | MemoryStore memory

datatype 'c byte_store = S3ByteStore "'c s3_client" s3_store | MemoryByteStore blob_memory

datatype task = DrainTask | RetentionTask retention_config duration

text \<open>Of the broker's settings, the address and the TLS material.\<close>

record broker_config =
  bk_URL :: string
  bk_TLSCert :: string
  bk_TLSKey :: string
  bk_TLSCA :: string

text \<open>What the platform's base configuration contributes.\<close>

record base_config =
  bs_Broker :: "broker_config option"
  bs_ServiceName :: string

datatype transport = NatsTransport broker_config string | LogTransport

record ('d, 'c, 'a) platform =
  pl_Setup :: "err option"
  pl_pgxpool_New :: "string \<Rightarrow> string + 'd database"
  pl_minio_New :: "string \<Rightarrow> string \<Rightarrow> string \<Rightarrow> bool \<Rightarrow> string + 'c s3_client"
  pl_rand :: "bytes option"
  pl_authclient_New :: "auth_config \<Rightarrow> err + 'a"
  pl_NewFileOutbox :: "string \<Rightarrow> err option"
  pl_gdpr_New :: "gdpr_config \<Rightarrow> 'a accessAuditPoster \<Rightarrow> string option \<Rightarrow> err option"
  pl_Connect :: "broker_config \<Rightarrow> string \<Rightarrow> err option"
  pl_AddTask :: "task \<Rightarrow> err option"

record ('d, 'c, 'a) app =
  ap_store :: "'d metadata_store"
  ap_blob :: "'c byte_store"
  ap_kms :: local_kms
  ap_ttl :: duration
  ap_authClient :: 'a
  ap_outboundClient :: "'a option"
  ap_audit :: recorder
  ap_transport :: transport
  ap_tasks :: "task list"

section \<open>Building them\<close>

text \<open>One fallible step of the start, the rest of it, and an error of a library that is passed on.\<close>

definition step :: "err + 'x \<Rightarrow> ('x \<Rightarrow> err + 'y) \<Rightarrow> err + 'y" where
  "step r k = (case r of Inl e \<Rightarrow> Inl e | Inr x \<Rightarrow> k x)"

definition failing :: "err option \<Rightarrow> err + unit" where
  "failing e = (case e of None \<Rightarrow> Inr () | Some e \<Rightarrow> Inl e)"

definition wrapped :: "string \<Rightarrow> err + 'x \<Rightarrow> err + 'x" where
  "wrapped msg r = (case r of Inl e \<Rightarrow> Inl (ErrOther msg) | Inr x \<Rightarrow> Inr x)"

definition NewPostgres :: "(string \<Rightarrow> string + 'd database) \<Rightarrow> string \<Rightarrow> err + 'd database" where
  "NewPostgres pgxpool_New dsn =
     (case pgxpool_New dsn of Inl e \<Rightarrow> Inl (ErrOther (''store: postgres connect: '' @ e)) | Inr db \<Rightarrow> Inr db)"

definition init_store :: "('d, 'c, 'a) platform \<Rightarrow> configuration \<Rightarrow> err + 'd metadata_store" where
  "init_store pl cfg =
     (case StoreBackend cfg of
        StoreBackendPostgres \<Rightarrow> step (NewPostgres (pl_pgxpool_New pl) (cf_StoreDSN cfg)) (\<lambda>db. Inr (PostgresStore db))
      | StoreBackendMemory \<Rightarrow> Inr (MemoryStore NewMemory))"

definition s3_options_of :: "configuration \<Rightarrow> s3_options" where
  "s3_options_of cfg =
     \<lparr>so_Endpoint = cf_S3Endpoint cfg, so_AccessKey = cf_S3AccessKey cfg, so_SecretKey = cf_S3SecretKey cfg,
      so_UseSSL = cf_S3UseSSL cfg, so_Bucket = cf_S3Bucket cfg, so_Prefix = cf_S3Prefix cfg\<rparr>"

definition init_blob :: "('d, 'c, 'a) platform \<Rightarrow> configuration \<Rightarrow> err + 'c byte_store" where
  "init_blob pl cfg =
     (case BlobBackend cfg of
        BlobBackendS3 \<Rightarrow> step (S3_New (pl_minio_New pl) (s3_options_of cfg)) (\<lambda>(cl, s). Inr (S3ByteStore cl s))
      | BlobBackendMemory \<Rightarrow> Inr (MemoryByteStore NewBlobMemory))"

definition init_kms :: "('d, 'c, 'a) platform \<Rightarrow> configuration \<Rightarrow> err + local_kms \<times> bool" where
  "init_kms pl cfg =
     step (wrapped ''document-store: invalid DOCUMENT_KMS_MASTER_KEY (expect base64 32 bytes)'' (MasterKeyBytes cfg))
       (\<lambda>master. wrapped ''document-store: kms'' (NewLocal (pl_rand pl) master))"

text \<open>The access-record client, its drain, and the client that authenticates them; none without
  an address to post to.\<close>

definition init_outbound :: "('d, 'c, 'a) platform \<Rightarrow> configuration \<Rightarrow> err + 'a option" where
  "init_outbound pl cfg =
     (if OutboundEnabled cfg
      then step (wrapped ''document-store: outbound auth client'' (pl_authclient_New pl (OutboundAuthClientConfig cfg)))
        (\<lambda>ac. Inr (Some ac))
      else Inr None)"

definition init_gdpr :: "('d, 'c, 'a) platform \<Rightarrow> configuration \<Rightarrow> 'a option \<Rightarrow> err + task list" where
  "init_gdpr pl cfg outbound =
     (case outbound of
        Some ac \<Rightarrow>
          step (if cf_AccessAuditOutboxDir cfg \<noteq> []
                then wrapped ''document-store: audit outbox'' (failing (pl_NewFileOutbox pl (cf_AccessAuditOutboxDir cfg)))
                else Inr ())
          (\<lambda>_. step (wrapped ''document-store: gdpr-audit client'' (failing (pl_gdpr_New pl (GDPRConfig cfg)
                  (newAccessAuditPoster ac (cf_AccessAuditURL cfg) (cf_AccessAuditAudience cfg) (cf_AccessAuditScope cfg))
                  (if cf_AccessAuditOutboxDir cfg \<noteq> [] then Some (cf_AccessAuditOutboxDir cfg) else None))))
          (\<lambda>_. step (wrapped ''document-store: gdpr drain task'' (failing (pl_AddTask pl DrainTask)))
          (\<lambda>_. Inr [DrainTask])))
      | None \<Rightarrow> Inr [])"

definition init_broker :: "('d, 'c, 'a) platform \<Rightarrow> base_config \<Rightarrow> err + transport" where
  "init_broker pl base =
     (case bs_Broker base of
        Some bk \<Rightarrow>
          if bk_URL bk \<noteq> []
          then step (wrapped ''document-store: broker connect'' (failing (pl_Connect pl bk (bs_ServiceName base))))
            (\<lambda>_. Inr (NatsTransport bk (bs_ServiceName base)))
          else Inr LogTransport
      | None \<Rightarrow> Inr LogTransport)"

text \<open>\<open>audit.New\<close>: the security channel and the publisher are always there.\<close>

definition NewRecorder :: "bool \<Rightarrow> string \<Rightarrow> recorder" where
  "NewRecorder gdpr topic = \<lparr>rd_sec = True, rd_gdpr = gdpr, rd_pub = True, rd_topic = topic\<rparr>"

definition retention_task :: "configuration \<Rightarrow> task" where
  "retention_task cfg =
     RetentionTask \<lparr>rc_Batch = cf_RetentionSweepBatch cfg, rc_HistoryKeep = cf_HistoryRetention cfg\<rparr> (cf_RetentionSweepInterval cfg)"

definition init :: "('d, 'c, 'a) platform \<Rightarrow> base_config \<Rightarrow> configuration \<Rightarrow> err + ('d, 'c, 'a) app" where
  "init pl base cfg =
     step (failing (pl_Setup pl)) (\<lambda>_.
     step (init_store pl cfg) (\<lambda>st.
     step (init_blob pl cfg) (\<lambda>bl.
     step (init_kms pl cfg) (\<lambda>(km, ephemeral).
     step (wrapped ''document-store: auth client'' (pl_authclient_New pl (cf_Auth cfg))) (\<lambda>auth.
     step (init_outbound pl cfg) (\<lambda>outbound.
     step (init_gdpr pl cfg outbound) (\<lambda>drain.
     step (init_broker pl base) (\<lambda>tr.
     step (failing (pl_AddTask pl (retention_task cfg))) (\<lambda>_.
       Inr \<lparr>ap_store = st, ap_blob = bl, ap_kms = km, ap_ttl = cf_RetentionTTL cfg, ap_authClient = auth,
            ap_outboundClient = outbound, ap_audit = NewRecorder (outbound \<noteq> None) (cf_DocumentEventsTopic cfg),
            ap_transport = tr, ap_tasks = drain @ [retention_task cfg]\<rparr>)))))))))"

section \<open>The server command\<close>

text \<open>
  \<open>New\<close>: the framework's server, which reads and validates the configuration, then \<open>init\<close>.  The \<open>web\<close> command
  builds the application, registers the routes and runs it; \<open>srv\<close> and \<open>routes_Init\<close> are how the framework's
  two parts end.
\<close>

definition New_app ::
  "err option \<Rightarrow> ('d, 'c, 'a) platform \<Rightarrow> base_config \<Rightarrow> configuration \<Rightarrow> err + ('d, 'c, 'a) app" where
  "New_app srv pl base cfg = step (failing srv) (\<lambda>_. init pl base cfg)"

definition runWeb ::
  "err option \<Rightarrow> err option \<Rightarrow> ('d, 'c, 'a) platform \<Rightarrow> base_config \<Rightarrow> configuration \<Rightarrow> err + ('d, 'c, 'a) app" where
  "runWeb srv routes_Init pl base cfg =
     step (New_app srv pl base cfg) (\<lambda>a. step (failing routes_Init) (\<lambda>_. Inr a))"

text \<open>What a running application does to its parts, in order; an unreachable backend is only reported.\<close>

datatype lifecycle = PingStore | PingBlob | Unreachable string | StartServer | CloseStore | StopServer

definition report :: "string \<Rightarrow> err option \<Rightarrow> lifecycle list" where
  "report part e = (case e of None \<Rightarrow> [] | Some msg \<Rightarrow> [Unreachable part])"

definition Start :: "err option \<Rightarrow> err option \<Rightarrow> lifecycle list" where
  "Start store_ping blob_ping =
     [PingStore] @ report ''document store'' store_ping @ [PingBlob] @ report ''blob store'' blob_ping @ [StartServer]"

text \<open>An application whose construction failed has no store to close.\<close>

definition Stop :: "('d, 'c, 'a) app option \<Rightarrow> lifecycle list" where
  "Stop a = (case a of None \<Rightarrow> [] | Some x \<Rightarrow> [CloseStore]) @ [StopServer]"

section \<open>What a start guarantees\<close>

lemma start_steps [simp]:
  "step r k = Inr y \<longleftrightarrow> (\<exists>x. r = Inr x \<and> k x = Inr y)"
  "wrapped msg r = Inr x \<longleftrightarrow> r = Inr x"
  "failing e = Inr u \<longleftrightarrow> e = None"
  by (auto simp: step_def wrapped_def failing_def split: sum.splits option.splits)

lemma b64_quads_empty: "b64_quads s = Some [] \<Longrightarrow> s = []"
  by (induction s rule: b64_quads.induct) (auto simp: Let_def split: option.splits if_splits)

text \<open>A trimmed text starts with no line break, so one that is not empty decodes to no empty key.\<close>

lemma trim_space_head:
  assumes "trim_space s \<noteq> []"
  shows "hd (trim_space s) \<noteq> CHR 0x0D \<and> hd (trim_space s) \<noteq> CHR 0x0A"
proof -
  have "leading_rune space_runes (trim_space s) = None" by (rule leading_rune_trim_space)
  moreover have "[CHR 0x0D] \<in> set space_runes" and "[CHR 0x0A] \<in> set space_runes" by code_simp+
  ultimately have "\<not> has_prefix (trim_space s) [CHR 0x0D]" and "\<not> has_prefix (trim_space s) [CHR 0x0A]"
    by (fastforce simp: leading_rune_None)+
  with assms show ?thesis by (cases "trim_space s") (auto simp: has_prefix_def)
qed

lemma trimmed_key_not_empty:
  assumes "trim_space s \<noteq> []"
  shows "b64_decode (trim_space s) \<noteq> Some []"
proof
  assume "b64_decode (trim_space s) = Some []"
  then have "filter (\<lambda>c. c \<noteq> CHR 0x0D \<and> c \<noteq> CHR 0x0A) (trim_space s) = []"
    unfolding b64_decode_def by (rule b64_quads_empty)
  with trim_space_head [OF assms] assms show False by (cases "trim_space s") auto
qed

lemma init_kms_key:
  assumes "init_kms pl cfg = Inr (km, ephemeral)"
  shows "if trim_space (cf_KMSMasterKey cfg) = [] then ephemeral \<and> (\<exists>k. pl_rand pl = Some k \<and> km = \<lparr>lc_gcm = Gcm k\<rparr>)
    else \<not> ephemeral \<and> (\<exists>k. b64_decode (trim_space (cf_KMSMasterKey cfg)) = Some k \<and> length k = dataKeyLen \<and>
      km = \<lparr>lc_gcm = Gcm k\<rparr>)"
  using assms trimmed_key_not_empty [of "cf_KMSMasterKey cfg"]
  by (auto simp: init_kms_def MasterKeyBytes_def NewLocal_def Let_def split: option.splits if_splits)


lemma init_parts:
  assumes "init pl base cfg = Inr a"
  shows "init_store pl cfg = Inr (ap_store a)" and "init_blob pl cfg = Inr (ap_blob a)"
    and "\<exists>ephemeral. init_kms pl cfg = Inr (ap_kms a, ephemeral)"
    and "ap_ttl a = cf_RetentionTTL cfg" and "ap_tasks a = butlast (ap_tasks a) @ [retention_task cfg]"
    and "init_outbound pl cfg = Inr (ap_outboundClient a)"
    and "init_gdpr pl cfg (ap_outboundClient a) = Inr (butlast (ap_tasks a))"
    and "ap_audit a = NewRecorder (ap_outboundClient a \<noteq> None) (cf_DocumentEventsTopic cfg)"
  using assms by (auto simp: init_def)

lemma drain_iff:
  assumes "init pl base cfg = Inr a"
  shows "DrainTask \<in> set (ap_tasks a) \<longleftrightarrow> ap_outboundClient a \<noteq> None"
proof -
  have "DrainTask \<in> set (butlast (ap_tasks a)) \<longleftrightarrow> ap_outboundClient a \<noteq> None"
  proof (cases "ap_outboundClient a")
    case None
    with init_parts(7) [OF assms] have "butlast (ap_tasks a) = []" by (simp add: init_gdpr_def)
    with None show ?thesis by simp
  next
    case (Some ac)
    with init_parts(7) [OF assms] have "butlast (ap_tasks a) = [DrainTask]" by (auto simp: init_gdpr_def)
    with Some show ?thesis by simp
  qed
  moreover have "set (ap_tasks a) = insert (retention_task cfg) (set (butlast (ap_tasks a)))"
    by (subst init_parts(5) [OF assms]) simp
  ultimately show ?thesis by (simp add: retention_task_def)
qed

text \<open>C25: a start never falls back to volatile parts behind a configured setting.  When the settings were read and
  validated and the start succeeded: a metadata store named by a variable or a secret, or merely
  named as a secret's file, is the database behind that address; a named object store, reached at
  its address with the configured credentials, holds the bytes; a master key given by a variable or the secret store is exactly the key in use, so that what one start
  sealed the next can open.  Only with no key value is the key a random one, even if a key file was
  named.  Every start has a positive retention time and the retention task with the configured
  settings, and access records are delivered, and drained, if and only if an address is set.\<close>

theorem start_not_silently_volatile:
  assumes "read_settings ps env remote au v0 = Some cfg"
    and "vp_default v0 ''document_store_dsn'' = None" and "vp_default v0 ''document_kms_master_key'' = None"
    and "Validate env base_err av is_url cfg = Inr ()" and "runWeb srv routes_Init pl base cfg = Inr a"
  shows "(env ''DOCUMENT_STORE_DSN_FILE'' \<noteq> [] \<or> trim_space (secret_value env remote ''DOCUMENT_STORE_DSN'') \<noteq> [] \<longrightarrow>
      (\<exists>db. pl_pgxpool_New pl (secret_value env remote ''DOCUMENT_STORE_DSN'') = Inr db \<and> ap_store a = PostgresStore db)) \<and>
    (trim_space (cf_S3Endpoint cfg) \<noteq> [] \<and> trim_space (cf_S3Bucket cfg) \<noteq> [] \<longrightarrow>
      (\<exists>cl s. pl_minio_New pl (cf_S3Endpoint cfg) (cf_S3AccessKey cfg) (cf_S3SecretKey cfg) (cf_S3UseSSL cfg) = Inr cl \<and>
         ap_blob a = S3ByteStore cl s \<and> s3_bucket s = cf_S3Bucket cfg)) \<and>
    (let key = trim_space (secret_value env remote ''DOCUMENT_KMS_MASTER_KEY'') in
      if key \<noteq> [] then \<exists>k. b64_decode key = Some k \<and> length k = 32 \<and> ap_kms a = \<lparr>lc_gcm = Gcm k\<rparr>
      else \<exists>k. pl_rand pl = Some k \<and> ap_kms a = \<lparr>lc_gcm = Gcm k\<rparr>) \<and>
    0 < ap_ttl a \<and> retention_task cfg \<in> set (ap_tasks a) \<and>
    rd_gdpr (ap_audit a) = AccessAuditEnabled cfg \<and> (DrainTask \<in> set (ap_tasks a)) = AccessAuditEnabled cfg"
proof -
  note secrets = read_settings_secrets [OF assms(1-3)]
  have built: "init pl base cfg = Inr a" using assms(5) by (auto simp: runWeb_def New_app_def)
  note parts = init_parts [OF built]
  have "env ''DOCUMENT_STORE_DSN_FILE'' \<noteq> [] \<longrightarrow> trim_space (cf_StoreDSN cfg) \<noteq> []" and "0 < cf_RetentionTTL cfg"
    using assms(4) by (auto simp: Validate_def refuseEmptyFileSecret_def valid_Struct_def split: sum.splits if_splits option.splits)
  moreover have "trim_space (cf_StoreDSN cfg) \<noteq> [] \<longrightarrow>
      (\<exists>db. pl_pgxpool_New pl (cf_StoreDSN cfg) = Inr db \<and> ap_store a = PostgresStore db)"
    using parts(1) by (auto simp: init_store_def StoreBackend_def NewPostgres_def split: sum.splits)
  moreover have "trim_space (cf_S3Endpoint cfg) \<noteq> [] \<and> trim_space (cf_S3Bucket cfg) \<noteq> [] \<longrightarrow>
      (\<exists>cl s. pl_minio_New pl (cf_S3Endpoint cfg) (cf_S3AccessKey cfg) (cf_S3SecretKey cfg) (cf_S3UseSSL cfg) = Inr cl \<and>
         ap_blob a = S3ByteStore cl s \<and> s3_bucket s = cf_S3Bucket cfg)"
    using parts(2) by (auto simp: init_blob_def BlobBackend_def S3_New_def s3_options_of_def Let_def split: sum.splits)
      (metis s3_store.select_convs(1))
  moreover obtain eph where "init_kms pl cfg = Inr (ap_kms a, eph)" using parts(3) by blast
  moreover have "(ap_outboundClient a \<noteq> None) = AccessAuditEnabled cfg"
    using parts(6) by (cases "ap_outboundClient a") (auto simp: init_outbound_def OutboundEnabled_def split: if_splits)
  moreover have "retention_task cfg \<in> set (ap_tasks a)" by (subst parts(5)) simp
  ultimately show ?thesis
    using init_kms_key [of pl cfg "ap_kms a" eph] parts(4,8) drain_iff [OF built]
    by (auto simp: secrets Let_def dataKeyLen_def NewRecorder_def)
qed

text \<open>A start with the database's address in a secret file and the master key in a variable.\<close>

definition sample_key :: string where
  "sample_key = ''BwcHBwcHBwcHBwcHBwcHBwcHBwcHBwcHBwcHBwcHBwc=''"

definition sample_env :: "string \<Rightarrow> string" where
  "sample_env name =
     (if name = ''DOCUMENT_STORE_DSN_FILE'' then ''/run/dsn''
      else if name = ''DOCUMENT_KMS_MASTER_KEY'' then sample_key else [])"

definition sample_remote :: "string \<Rightarrow> string option" where
  "sample_remote name = (if name = ''DOCUMENT_STORE_DSN'' then Some ''db'' else None)"

definition sample_platform :: "(unit, unit, unit) platform" where
  "sample_platform =
     \<lparr>pl_Setup = None, pl_pgxpool_New = (\<lambda>dsn. Inr (\<lambda>proc b s. (Unreached [], s))), pl_minio_New = (\<lambda>_ _ _ _. Inl []),
      pl_rand = None, pl_authclient_New = (\<lambda>_. Inr ()), pl_NewFileOutbox = (\<lambda>_. None), pl_gdpr_New = (\<lambda>_ _ _. None),
      pl_Connect = (\<lambda>_ _. None), pl_AddTask = (\<lambda>_. None)\<rparr>"

definition no_parsers :: parsers where
  "no_parsers = \<lparr>ps_int = (\<lambda>_. None), ps_duration = (\<lambda>_. None), ps_bool = (\<lambda>_. None)\<rparr>"

definition no_settings :: viper where
  "no_settings = \<lparr>vp_default = Map.empty, vp_env = Map.empty\<rparr>"

definition sample_cfg :: configuration where
  "sample_cfg =
     \<lparr>cf_Auth = \<lparr>au_IssuerURL = [], au_ServiceClientID = [], au_ServiceClientSecret = []\<rparr>, cf_StoreDSN = ''db'',
      cf_MaxFileBytes = 25 * 1024 * 1024, cf_S3Endpoint = [], cf_S3AccessKey = [], cf_S3SecretKey = [], cf_S3UseSSL = False,
      cf_S3Bucket = [], cf_S3Prefix = [], cf_KMSMasterKey = sample_key, cf_RetentionTTL = 24 * hour,
      cf_RetentionSweepInterval = 15 * minute, cf_RetentionSweepBatch = 500, cf_HistoryRetention = 90 * 24 * hour,
      cf_ServiceClientID = ''svc:document'', cf_ServiceClientSecret = [], cf_AuditIssuerURL = [], cf_AccessAuditURL = [],
      cf_AccessAuditAudience = ''svc:access-audit'', cf_AccessAuditScope = ''access-audit:write'',
      cf_AccessAuditOutboxDir = [], cf_ClamAVEndpoint = [], cf_DocumentEventsTopic = ''document.events'',
      cf_DocumentProductClients = []\<rparr>"

lemma sample_key_simps:
  "trim_space sample_key = sample_key" "sample_key \<noteq> []" "b64_decode sample_key = Some (replicate 32 7)"
proof -
  have "leading_rune (map rev space_runes) (rev sample_key) = None" "leading_rune space_runes sample_key = None"
    by code_simp+
  then show "trim_space sample_key = sample_key" by (simp add: trim_space_id)
  show "sample_key \<noteq> []" by (simp add: sample_key_def)
  have triple: "b64_encode (7 # 7 # 7 # bs) = ''BwcH'' @ b64_encode bs" for bs
    by (simp add: b64_char_def b64_alphabet_def Let_def)
  have pair: "b64_encode [7, 7] = ''Bwc=''" by (simp add: b64_char_def b64_alphabet_def Let_def)
  have rep: "replicate 32 (7 :: 8 word) = [7, 7, 7, 7, 7, 7, 7, 7, 7, 7, 7, 7, 7, 7, 7, 7, 7, 7, 7, 7, 7, 7, 7, 7, 7, 7, 7, 7, 7, 7, 7, 7]"
    by (simp add: numeral_eq_Suc)
  have "sample_key = b64_encode (replicate 32 7)"
    unfolding sample_key_def rep triple pair by simp
  then show "b64_decode sample_key = Some (replicate 32 7)" by (metis b64_decode_encode)
qed

definition sample_get :: "string \<Rightarrow> setting option" where
  "sample_get = get_setting sample_env (Bind sample_remote no_settings)"

lemma sample_gets:
  "sample_get ''document_store_dsn'' = Some (SText ''db'')"
  "sample_get ''s3_endpoint'' = None"
  "sample_get ''s3_access_key'' = None"
  "sample_get ''s3_secret_key'' = None"
  "sample_get ''s3_bucket'' = None"
  "sample_get ''s3_prefix'' = None"
  "sample_get ''document_kms_master_key'' = Some (SText (sample_key))"
  "sample_get ''service_client_id'' = Some (SText ''svc:document'')"
  "sample_get ''service_client_secret'' = None"
  "sample_get ''audit_issuer_url'' = None"
  "sample_get ''access_audit_url'' = None"
  "sample_get ''access_audit_audience'' = Some (SText ''svc:access-audit'')"
  "sample_get ''access_audit_scope'' = Some (SText ''access-audit:write'')"
  "sample_get ''access_audit_outbox_dir'' = None"
  "sample_get ''clamav_endpoint'' = None"
  "sample_get ''document_events_topic'' = Some (SText ''document.events'')"
  "sample_get ''document_product_clients'' = None"
  "sample_get ''max_file_bytes'' = Some (SInt (25 * 1024 * 1024))"
  "sample_get ''s3_use_ssl'' = Some (SBool False)"
  "sample_get ''document_retention_ttl'' = Some (SInt (24 * hour))"
  "sample_get ''document_retention_sweep_interval'' = Some (SInt (15 * minute))"
  "sample_get ''document_retention_sweep_batch'' = Some (SInt 500)"
  "sample_get ''document_history_retention'' = Some (SInt (90 * 24 * hour))"
  by code_simp+

lemma sample_settings: "read_settings no_parsers sample_env sample_remote (cf_Auth sample_cfg) no_settings = Some sample_cfg"
  unfolding read_settings_def Unmarshal_def sample_get_def [symmetric] Let_def sample_gets
  by (simp add: text_of_def number_of_def truth_of_def sample_cfg_def)

lemma sample_platform_simps:
  "pl_Setup sample_platform = None" "pl_pgxpool_New sample_platform dsn = Inr (\<lambda>proc b s. (Unreached [], s))"
  "pl_authclient_New sample_platform au = Inr ()" "pl_AddTask sample_platform t = None"
  by (simp_all add: sample_platform_def)

lemma sample_cfg_simps:
  "cf_StoreDSN sample_cfg = ''db''" "cf_S3Endpoint sample_cfg = []" "cf_KMSMasterKey sample_cfg = sample_key"
  "cf_AccessAuditURL sample_cfg = []"
  by (simp_all add: sample_cfg_def)

lemma sample_trims: "trim_space ''db'' = ''db''" "trim_space [] = []"
proof -
  show "trim_space ''db'' = ''db''" by code_simp
  have "leading_rune rs [] = None" for rs by (auto simp: leading_rune_None has_prefix_def)
  then show "trim_space [] = []" by (simp add: trim_space_id)
qed

lemma start_not_silently_volatile_witness:
  "\<exists>a. runWeb None None sample_platform \<lparr>bs_Broker = None, bs_ServiceName = []\<rparr> sample_cfg = Inr a \<and>
     ap_kms a = \<lparr>lc_gcm = Gcm (replicate 32 7)\<rparr> \<and> (\<exists>db. ap_store a = PostgresStore db) \<and> DrainTask \<notin> set (ap_tasks a)"
proof -
  let ?base = "\<lparr>bs_Broker = None, bs_ServiceName = []\<rparr>"
  note dsn = sample_trims(1) and nil = sample_trims(2)
  note key = sample_key_simps
  have valid: "Validate sample_env None (\<lambda>_. None) (\<lambda>_. True) sample_cfg = Inr ()"
    using dsn by (simp add: Validate_def refuseEmptyFileSecret_def valid_Struct_def sample_cfg_def hour_def minute_def second_def)
  obtain a where a: "runWeb None None sample_platform ?base sample_cfg = Inr a"
  proof -
    obtain st bl km eph where parts: "init_store sample_platform sample_cfg = Inr st"
        "init_blob sample_platform sample_cfg = Inr bl" "init_kms sample_platform sample_cfg = Inr (km, eph)"
      using dsn nil key
      by (simp add: init_store_def StoreBackend_def NewPostgres_def init_blob_def BlobBackend_def init_kms_def
          MasterKeyBytes_def NewLocal_def sample_platform_simps sample_cfg_simps Let_def dataKeyLen_def)
    have outbound: "init_outbound sample_platform sample_cfg = Inr None"
      using nil by (simp add: init_outbound_def OutboundEnabled_def AccessAuditEnabled_def sample_cfg_simps)
    have late: "init_gdpr sample_platform sample_cfg None = Inr []" "init_broker sample_platform ?base = Inr LogTransport"
      by (simp_all add: init_gdpr_def init_broker_def)
    show ?thesis
      by (rule that) (simp add: runWeb_def New_app_def init_def step_def wrapped_def failing_def parts outbound late sample_platform_simps)
  qed
  have dsn_value: "secret_value sample_env sample_remote ''DOCUMENT_STORE_DSN'' = ''db''"
    and key_value: "secret_value sample_env sample_remote ''DOCUMENT_KMS_MASTER_KEY'' = sample_key"
    using key by (simp_all add: secret_value_def sample_env_def sample_remote_def)
  have "\<not> AccessAuditEnabled sample_cfg" using nil by (simp add: AccessAuditEnabled_def sample_cfg_def)
  with start_not_silently_volatile [OF sample_settings _ _ valid a] dsn key a show ?thesis
    unfolding dsn_value key_value by (auto simp: no_settings_def Let_def)
qed

end
