(* ===== verification/Spec2Isabelle.thy ===== *)
theory Spec2Isabelle
  imports StoreProps LifecycleProps ReadProps ServiceProps Retention TaskLoop CallerProps SystemProps StoreBackends App
begin

text \<open>
  A verification development of the document store: a service that keeps uploaded documents encrypted, lets
  their owners and named co-signers read and sign them, and destroys them when their time is up.

  \<^bold>\<open>The program and its model.\<close>  A request reaches a handler (\<open>routes/\<close>), which checks the token's scopes and
  calls the document service (\<open>documents/service.go\<close>); the service seals the bytes under a fresh data key
  (\<open>kms/\<close>), puts them into an object store (\<open>s3/\<close>) and records a row in a metadata store (\<open>store/\<close>), which
  decides who may read it.  A background task (\<open>tasks/retention.go\<close>) sweeps what has expired; what happens
  is reported on up to three channels (\<open>audit/\<close>).  \<open>app.go\<close> builds all this from the configuration.

  \<^item> Common ground.  \<open>Prelude\<close>: byte strings, instants, Go's unordered \<open>range\<close> over a map (the order
    is an argument of every loop, and \<open>visits\<close> says it is a possible one), \<open>sort.Slice\<close>, the "keep the better" loop.
    \<open>GoStrings\<close>, \<open>GoUtf8\<close>, \<open>GoTime\<close>, \<open>Sha256\<close>, \<open>AesGcm\<close>: the standard library functions the program uses, executable.
  \<^item> \<open>StoreTypes\<close> (\<open>store/store.go\<close>): rows, inputs, errors, projections.  \<open>MemoryStore\<close> and \<open>MemoryViews\<close>
    (\<open>store/memory.go\<close>): the in-memory store, one definition per method over a record of the row map and the access list.
    \<open>StoreLemmas\<close> and \<open>ViewLemmas\<close> give the loops in closed form; \<open>StoreInv\<close> is the store as a state machine with its
    invariants, \<open>StoreSafety\<close> the safety of single steps, \<open>StoreMoves\<close> the flow of references to sealed bytes,
    \<open>ReadConfinement\<close> what a read can depend on; \<open>StoreProps\<close>, \<open>ReadProps\<close>, \<open>LifecycleProps\<close> state the
    properties, on the small store of \<open>StoreSample\<close>.
  \<^item> \<open>Postgres\<close> (\<open>store/postgres.go\<close>): the database-backed store as requests, envelopes, errors and decoders over a
    database that is a parameter.  \<open>PostgresProps\<close>: requests determine the operation; \<open>Wire\<close>: decoding inverts the JSON
    form of rows; \<open>StoreBackends\<close>: the database's half of the protocol, read from the field names of a call, and that
    the two stores answer alike over a database that keeps to it.
  \<^item> \<open>Kms\<close> (\<open>kms/kms.go\<close>), \<open>Blob\<close> (\<open>s3/s3.go\<close>), \<open>Packaging\<close> (\<open>packaging/\<close>), \<open>Clamav\<close> (\<open>clamav/\<close>): envelope encryption,
    the two object stores, the wrappers of the container library, the scanner's protocol.  \<open>AuditEvents\<close>
    (\<open>audit/audit.go\<close>): what each method reports on which channel.
  \<^item> \<open>DocService\<close> (\<open>documents/service.go\<close>): every method, over a world of metadata and objects.  \<open>ServiceInv\<close> and
    \<open>ServiceMachine\<close> prove it against contracts of the KMS and of the object store, failing calls included;
    \<open>ServiceProps\<close> reads the properties off the interpretation on the program's own in-process parts; \<open>ServiceStore\<close>
    shows that each call is at most one store operation.  \<open>Retention\<close> is a run of the sweep, \<open>TaskLoop\<close> the goroutine that repeats it.
  \<^item> \<open>Responses\<close>, \<open>Router\<close>, \<open>Routes\<close> (\<open>routes/\<close>): a handler is a program, a tree of service calls, events and a reply.
    \<open>RouteRuns\<close> runs programs over the service with arbitrary calls of others in between; \<open>RouteProps\<close>,
    \<open>SigningProps\<close> and \<open>CallerProps\<close> are the properties of whole requests.  \<open>WellTyped\<close>, \<open>System\<close> and \<open>SystemProps\<close>: the running
    server, any number of requests and the task together.
  \<^item> \<open>Config\<close> (\<open>config.go\<close>, \<open>secretfile.go\<close>) and \<open>App\<close> (\<open>app.go\<close>, \<open>auditposter.go\<close>, \<open>logtransport.go\<close>, \<open>audit/drain.go\<close>, the
    \<open>web\<close> command): the settings, the start, and the delivery of records.

  \<^bold>\<open>Interfaces.\<close>  The locale \<open>kms_contract\<close> states what the service relies on of a KMS (a wrapped key
  unwraps), \<open>blob_contract\<close> of an object store whose calls may fail, \<open>reliable_blobs\<close> of one whose calls do not;
  \<open>document_service\<close> and \<open>reliable_service\<close> are the service over them.  They are interpreted on the local KMS and the
  in-memory objects; that the S3 store meets the contract over a bucket is a property of its own.  \<open>keyed_order\<close>
  is what the listings need of their sort orders, interpreted on the four of them; \<open>simulation\<close> carries a
  one-call agreement over to sequences of calls, interpreted on the two metadata stores.

  \<^bold>\<open>What is shown.\<close>  What a reader is served is what was stored, and its hash and length are the row's; the
  objects stored are exactly those some row points at, so nothing is lost and nothing deleted lingers.  Of one
  parent there is at most one live signed form, a legal hold is respected, access has an origin, reads tell
  nothing about foreign rows, and a replace loses no concurrent update.  For whole requests: bytes leave
  only by the two download routes, with the access reported and the freeze obeyed; a request acts under the
  identity of its own token, within its route and scope, on the documents it was shown; uploads belong to
  the subject or product the token names; a signed form is what the container library made of the bytes read,
  and the one call that stores it compares the row with those bytes; a token without the scope changes nothing.  A sweep ends and leaves
  nothing due; a start does not silently use volatile parts where persistent ones are configured.  The
  service refines the store machine, and the database-backed store the in-memory one.

  \<^bold>\<open>Conventions.\<close>  A step of a machine is one service call: the in-memory store holds its mutex for a whole
  operation, and within one call the object store and the metadata are touched in the code's order, with every
  failure in between a branch.  Interleavings are at this grain; two service calls never overlap inside.
  What comes from outside (clock readings, random bytes, fresh identifiers, loop orders) is an argument, and \<open>env_ok\<close> and
  \<open>op_ok\<close> say what holds of it: an identifier or object key is new, a key and a nonce have their length.  Integers
  are unbounded except where the width matters (bytes, cipher and hash words, the 64-bit numbers of the database,
  the scanner's chunk lengths).  Nothing of the
  program runs on fuel.  The two loops of a retention run, which ask for batch after batch, are partial functions, and the
  property about them shows that they end from every reachable world; the other loops are structural or have a
  termination proof (the search for a free member name ends because there are finitely many names taken; the scanner's
  chunks get shorter).  Only \<open>walk\<close>, the client that pages through a listing, counts its requests: one more than there
  are rows is enough.  A log line is no effect.

  \<^bold>\<open>Not modelled\<close>, and why.  The web framework with its authentication and body parsing, the
  object store's and the database's client libraries, the container library, the message broker and the record
  client are not in the repository: they are parameters, with what the code relies on as
  hypotheses.  So are the procedures of the database, of which the names of their fields and the codes of their
  errors are taken from the client; what the client sends is repaired to valid UTF-8, as \<open>encoding/json\<close> does, and the
  agreement of the two stores is for strings that are valid.  The fallback of \<open>encoding/json\<close> to other capitalisations
  of field names is left out, as is the difference of nil and empty slices in requests.  The accessors of the
  application, the registration of commands and the fixtures of the test suite have no behaviour of their own.
\<close>

end
